(* ===== verification/Prelude.thy ===== *)
theory Prelude
  imports Main "HOL-Library.AList" "HOL-Library.Char_ord" "HOL-Library.List_Lexorder"
begin

text \<open>
  Shared vocabulary of the development: Python exceptions and results, dictionaries as
  insertion-ordered association lists, the two splits of a sum that every error path
  needs, and generic list lemmas.

  A Python \<^verbatim>\<open>dict\<close> with string keys is an association list without duplicate keys, in
  insertion order; \<^verbatim>\<open>AList.update\<close> is \<^verbatim>\<open>d[k] = v\<close> (it keeps the position of a key that
  is already there and appends a new one).  A Python \<^verbatim>\<open>str\<close> is the list of bytes of its
  UTF-8 encoding (lone surrogates encoded as \<^verbatim>\<open>errors="surrogatepass"\<close> does), so that
  ASCII literals are Isabelle string literals and \<^verbatim>\<open>bytes\<close> and \<^verbatim>\<open>str\<close> share one type.
\<close>

named_theorems pydefs \<open>unfolding rules for the small definitions of the Python layer\<close>
named_theorems wf_intros \<open>well-formedness facts of the components\<close>

type_synonym str = string
type_synonym bytes = string
type_synonym 'v dict = "(string \<times> 'v) list"

section \<open>Exceptions and results\<close>

datatype exn =
    ValueError string
  | KeyError string
  | TypeError string
  | IndexError string
  | AttributeError string
  | NotImplementedError string
  | AssertionError string
  | RuntimeError string
  | UnicodeDecodeError
  | StructError string
  | EmulatorError string string
  | FileNotFoundError string

type_synonym 'a result = "exn + 'a"

definition bindE :: "'a result \<Rightarrow> ('a \<Rightarrow> 'b result) \<Rightarrow> 'b result" where
  "bindE m f = (case m of Inl e \<Rightarrow> Inl e | Inr a \<Rightarrow> f a)"

fun mapE :: "('a \<Rightarrow> 'b result) \<Rightarrow> 'a list \<Rightarrow> 'b list result" where
  "mapE f [] = Inr []"
| "mapE f (x # xs) =
     (case f x of Inl e \<Rightarrow> Inl e
      | Inr y \<Rightarrow> (case mapE f xs of Inl e \<Rightarrow> Inl e | Inr ys \<Rightarrow> Inr (y # ys)))"

lemma bindE_simps [simp]:
  "bindE (Inl e) f = Inl e"
  "bindE (Inr a) f = f a"
  by (simp_all add: bindE_def)

lemma bindE_Inr_iff: "bindE m f = Inr b \<longleftrightarrow> (\<exists>a. m = Inr a \<and> f a = Inr b)"
  by (cases m) auto

lemma mapE_Inr_list_all2: "mapE f xs = Inr ys \<Longrightarrow> list_all2 (\<lambda>x y. f x = Inr y) xs ys"
  by (induction xs arbitrary: ys) (auto split: sum.splits)

lemma mapE_length: "mapE f xs = Inr ys \<Longrightarrow> length ys = length xs"
  by (drule mapE_Inr_list_all2) (simp add: list_all2_lengthD)

lemma mapE_total: "(\<And>x. x \<in> set xs \<Longrightarrow> f x = Inr (g x)) \<Longrightarrow> mapE f xs = Inr (map g xs)"
  by (induction xs) simp_all

lemma mapE_cong: "(\<And>x. x \<in> set xs \<Longrightarrow> f x = g x) \<Longrightarrow> mapE f xs = mapE g xs"
proof (induction xs)
  case (Cons x xs)
  then have "mapE f xs = mapE g xs" "f x = g x" by auto
  then show ?case by (simp split: sum.split)
qed simp

lemma mapE_exists: "(\<And>x. x \<in> set xs \<Longrightarrow> \<exists>y. f x = Inr y) \<Longrightarrow> \<exists>ys. mapE f xs = Inr ys"
proof (induction xs)
  case (Cons x xs)
  then obtain y ys where "f x = Inr y" "mapE f xs = Inr ys" by force
  then show ?case by simp
qed simp

lemma mapE_map: "mapE f (map g xs) = mapE (f \<circ> g) xs"
  by (induction xs) (simp_all add: comp_def split: sum.splits)

lemma mapE_map_Inr: "map f xs = map (\<lambda>y. Inr (g y)) ys \<Longrightarrow> mapE f xs = Inr (map g ys)"
  by (induction xs arbitrary: ys) (auto simp: Cons_eq_map_conv)

lemma mapE_append: "mapE f (xs @ ys) = bindE (mapE f xs) (\<lambda>a. bindE (mapE f ys) (\<lambda>b. Inr (a @ b)))"
  by (induction xs) (auto simp: bindE_def split: sum.splits)

lemma mapE_Inr_set:
  assumes "mapE f xs = Inr ys" and "y \<in> set ys"
  obtains x where "x \<in> set xs" and "f x = Inr y"
proof -
  from mapE_Inr_list_all2 [OF assms(1)] assms(2)
  have "\<exists>x \<in> set xs. f x = Inr y"
    by (induction rule: list_all2_induct) auto
  then show thesis using that by blast
qed

lemma mapE_Inr_ex:
  assumes "mapE f xs = Inr ys" and "x \<in> set xs"
  obtains y where "y \<in> set ys" and "f x = Inr y"
proof -
  from mapE_Inr_list_all2 [OF assms(1)] assms(2)
  have "\<exists>y \<in> set ys. f x = Inr y"
    by (induction rule: list_all2_induct) auto
  then show thesis using that by blast
qed

section \<open>Dictionaries\<close>

definition has_key :: "string \<Rightarrow> 'v dict \<Rightarrow> bool" where
  "has_key k d = (map_of d k \<noteq> None)"

definition get_default :: "'v dict \<Rightarrow> string \<Rightarrow> 'v \<Rightarrow> 'v" where
  "get_default d k v = (case map_of d k of None \<Rightarrow> v | Some w \<Rightarrow> w)"

definition dict_get :: "'v dict \<Rightarrow> string \<Rightarrow> 'v result" where
  "dict_get d k = (case map_of d k of None \<Rightarrow> Inl (KeyError k) | Some v \<Rightarrow> Inr v)"

lemma dict_get_Inr_iff: "dict_get d k = Inr v \<longleftrightarrow> map_of d k = Some v"
  by (simp add: dict_get_def split: option.split)

text \<open>Equality of two dictionaries: the same keys with the same values, in any order.\<close>

definition dict_eq :: "'v dict \<Rightarrow> 'v dict \<Rightarrow> bool" where
  "dict_eq a b = (list_all (\<lambda>k. map_of a k = map_of b k) (map fst a @ map fst b))"

lemma has_key_iff: "has_key k d \<longleftrightarrow> k \<in> fst ` set d"
  by (simp add: has_key_def map_of_eq_None_iff)

lemma map_of_AList_update [simp]: "map_of (AList.update k v d) = (map_of d)(k \<mapsto> v)"
  by (simp add: update_conv')

lemma keys_AList_update: "fst ` set (AList.update k v d) = insert k (fst ` set d)"
  by (simp add: dom_update)

lemma distinct_AList_update: "distinct (map fst d) \<Longrightarrow> distinct (map fst (AList.update k v d))"
  by (rule distinct_update)

lemma dict_eq_map_of: "dict_eq a b \<longleftrightarrow> map_of a = map_of b"
proof
  assume h: "dict_eq a b"
  show "map_of a = map_of b"
  proof
    fix k
    show "map_of a k = map_of b k"
    proof (cases "k \<in> fst ` set a \<union> fst ` set b")
      case True
      with h show ?thesis by (auto simp: dict_eq_def list_all_iff)
    next
      case False
      then have "map_of a k = None" and "map_of b k = None"
        by (simp_all add: map_of_eq_None_iff)
      then show ?thesis by simp
    qed
  qed
qed (simp add: dict_eq_def list_all_iff)

lemma dict_eq_refl [simp]: "dict_eq a a"
  by (simp add: dict_eq_map_of)

lemma dict_eq_sym: "dict_eq a b \<longleftrightarrow> dict_eq b a"
  by (auto simp: dict_eq_map_of)

section \<open>Lists\<close>

text \<open>First-seen order without repetition: \<^verbatim>\<open>dict.fromkeys\<close>.\<close>

fun dedup_from :: "'a list \<Rightarrow> 'a list \<Rightarrow> 'a list" where
  "dedup_from seen [] = []"
| "dedup_from seen (x # xs) =
     (if x \<in> set seen then dedup_from seen xs else x # dedup_from (x # seen) xs)"

abbreviation fromkeys :: "'a list \<Rightarrow> 'a list" where
  "fromkeys \<equiv> dedup_from []"

lemma set_dedup_from: "set (dedup_from seen xs) = set xs - set seen"
  by (induction xs arbitrary: seen) auto

lemma distinct_dedup_from: "distinct (dedup_from seen xs)"
  by (induction xs arbitrary: seen) (auto simp: set_dedup_from)

lemma list_all2_nth_all:
  "list_all2 P xs ys \<longleftrightarrow> length xs = length ys \<and> (\<forall>i < length xs. P (xs ! i) (ys ! i))"
  by (auto simp: list_all2_conv_all_nth)

end
