(* ===== verification/Py_Values.thy ===== *)
theory Py_Values
  imports Prelude
begin

text \<open>
  The part of the Python language and standard library that the components share:
  text lengths and slices in code points, UTF-8 validity, decimal and hexadecimal
  rendering, \<^verbatim>\<open>bytes.hex\<close> and \<^verbatim>\<open>bytes.fromhex\<close>, JSON values and \<^verbatim>\<open>json.dumps\<close> in the
  three layouts the sources use.

  A JSON float is kept as the text of its \<^verbatim>\<open>repr\<close>, which determines it.
\<close>

section \<open>Text: code points and UTF-8\<close>

definition byte_val :: "char \<Rightarrow> nat" where
  "byte_val c = of_char c"

definition continuation :: "char \<Rightarrow> bool" where
  "continuation c = (128 \<le> byte_val c \<and> byte_val c < 192)"

text \<open>\<^verbatim>\<open>len(s)\<close> and \<^verbatim>\<open>s[:n]\<close> count code points: one per byte that starts a sequence.\<close>

definition str_len :: "str \<Rightarrow> nat" where
  "str_len s = length (filter (\<lambda>c. \<not> continuation c) s)"

fun str_take :: "nat \<Rightarrow> str \<Rightarrow> str" where
  "str_take n [] = []"
| "str_take n (c # cs) =
     (if continuation c then c # str_take n cs
      else case n of 0 \<Rightarrow> [] | Suc m \<Rightarrow> c # str_take m cs)"

text \<open>
  Strict UTF-8 decoding (\<^verbatim>\<open>bytes.decode()\<close>): the bytes themselves represent the text, so
  decoding is a check.  The ranges of the second byte exclude overlong forms,
  surrogates and code points above U+10FFFF.
\<close>

fun utf8_valid :: "bytes \<Rightarrow> bool" where
  "utf8_valid [] = True"
| "utf8_valid (a # r) =
     (let x = byte_val a in
      if x < 128 then utf8_valid r
      else if 194 \<le> x \<and> x < 224 then
        (case r of b # r1 \<Rightarrow> continuation b \<and> utf8_valid r1 | _ \<Rightarrow> False)
      else if 224 \<le> x \<and> x < 240 then
        (case r of b # c # r2 \<Rightarrow>
           continuation b \<and> continuation c
           \<and> (x = 224 \<longrightarrow> 160 \<le> byte_val b) \<and> (x = 237 \<longrightarrow> byte_val b < 160)
           \<and> utf8_valid r2
         | _ \<Rightarrow> False)
      else if 240 \<le> x \<and> x < 245 then
        (case r of b # c # d # r3 \<Rightarrow>
           continuation b \<and> continuation c \<and> continuation d
           \<and> (x = 240 \<longrightarrow> 144 \<le> byte_val b) \<and> (x = 244 \<longrightarrow> byte_val b < 144)
           \<and> utf8_valid r3
         | _ \<Rightarrow> False)
      else False)"

definition decode :: "bytes \<Rightarrow> str result" where
  "decode b = (if utf8_valid b then Inr b else Inl UnicodeDecodeError)"

text \<open>The code points of a text (generalised UTF-8, surrogates included).\<close>

fun code_points :: "str \<Rightarrow> nat list" where
  "code_points [] = []"
| "code_points (a # r) =
     (let x = byte_val a in
      if x < 192 then x # code_points r
      else if x < 224 then
        (case r of b # r1 \<Rightarrow> ((x mod 32) * 64 + byte_val b mod 64) # code_points r1 | _ \<Rightarrow> [x])
      else if x < 240 then
        (case r of b # c # r2 \<Rightarrow>
           ((x mod 16) * 4096 + (byte_val b mod 64) * 64 + byte_val c mod 64) # code_points r2
         | _ \<Rightarrow> [x])
      else
        (case r of b # c # d # r3 \<Rightarrow>
           ((x mod 8) * 262144 + (byte_val b mod 64) * 4096 + (byte_val c mod 64) * 64
            + byte_val d mod 64) # code_points r3
         | _ \<Rightarrow> [x]))"

section \<open>Numbers as text\<close>

definition digit_char :: "nat \<Rightarrow> char" where
  "digit_char d = (if d < 10 then char_of (48 + d) else char_of (87 + d))"

text \<open>\<^verbatim>\<open>base_digits b n\<close>: the digits of \<^verbatim>\<open>n\<close> in base \<^verbatim>\<open>b\<close>, most significant first.\<close>

function base_digits :: "nat \<Rightarrow> nat \<Rightarrow> string" where
  "base_digits b n =
     (if b < 2 \<or> n < b then [digit_char n] else base_digits b (n div b) @ [digit_char (n mod b)])"
  by pat_completeness auto
termination
  by (relation "measure snd") (auto intro: div_less_dividend)

declare base_digits.simps [simp del]

definition dec :: "int \<Rightarrow> string" where
  "dec n = (if n < 0 then CHR ''-'' # base_digits 10 (nat (- n)) else base_digits 10 (nat n))"

abbreviation decn :: "nat \<Rightarrow> string" where
  "decn n \<equiv> dec (int n)"

text \<open>\<^verbatim>\<open>hex(n)\<close>.\<close>

definition py_hex :: "int \<Rightarrow> string" where
  "py_hex n = (if n < 0 then ''-0x'' @ base_digits 16 (nat (- n)) else ''0x'' @ base_digits 16 (nat n))"

section \<open>\<^verbatim>\<open>bytes.hex\<close> and \<^verbatim>\<open>bytes.fromhex\<close>\<close>

definition hex_val :: "char \<Rightarrow> nat option" where
  "hex_val c =
     (let x = byte_val c in
      if 48 \<le> x \<and> x < 58 then Some (x - 48)
      else if 97 \<le> x \<and> x < 103 then Some (x - 87)
      else if 65 \<le> x \<and> x < 71 then Some (x - 55)
      else None)"

fun bytes_hex :: "bytes \<Rightarrow> str" where
  "bytes_hex [] = []"
| "bytes_hex (c # cs) =
     digit_char (byte_val c div 16) # digit_char (byte_val c mod 16) # bytes_hex cs"

text \<open>\<^verbatim>\<open>fromhex\<close> skips ASCII whitespace before each pair of digits.\<close>

definition ascii_space :: "char \<Rightarrow> bool" where
  "ascii_space c = (byte_val c = 32 \<or> (9 \<le> byte_val c \<and> byte_val c \<le> 13))"

fun fromhex :: "str \<Rightarrow> bytes option" where
  "fromhex [] = Some []"
| "fromhex (c # r) =
     (if ascii_space c then fromhex r
      else case r of
        [] \<Rightarrow> None
      | d # r1 \<Rightarrow>
          (case (hex_val c, hex_val d) of
             (Some x, Some y) \<Rightarrow> map_option ((#) (char_of (16 * x + y))) (fromhex r1)
           | _ \<Rightarrow> None))"

lemma byte_val_less: "byte_val c < 256"
  by (cases c) (simp add: byte_val_def)

lemma byte_val_char_of: "n < 256 \<Longrightarrow> byte_val (char_of n) = n"
  by (simp add: byte_val_def)

lemma digit_char_byte_val: "d < 16 \<Longrightarrow> byte_val (digit_char d) = (if d < 10 then 48 + d else 87 + d)"
  by (simp add: digit_char_def byte_val_char_of)

lemma hex_val_digit_char: "d < 16 \<Longrightarrow> hex_val (digit_char d) = Some d"
  by (simp add: hex_val_def digit_char_byte_val)

lemma digit_char_not_space: "d < 16 \<Longrightarrow> \<not> ascii_space (digit_char d)"
  by (simp add: ascii_space_def digit_char_byte_val)

lemma char_of_byte_val: "char_of (byte_val c) = c"
  by (simp add: byte_val_def)

lemma fromhex_bytes_hex [simp]: "fromhex (bytes_hex b) = Some b"
proof (induction b)
  case Nil
  then show ?case by simp
next
  case (Cons c cs)
  have "byte_val c div 16 < 16" and "byte_val c mod 16 < 16"
    using byte_val_less [of c] by auto
  then show ?case
    using Cons.IH
    by (simp add: hex_val_digit_char digit_char_not_space char_of_byte_val)
qed

lemma length_bytes_hex [simp]: "length (bytes_hex b) = 2 * length b"
  by (induction b) auto

lemma bytes_hex_inj: "bytes_hex a = bytes_hex b \<longleftrightarrow> a = b"
  by (metis fromhex_bytes_hex option.inject)

lemma str_len_le: "str_len s \<le> length s"
  by (simp add: str_len_def)

section \<open>JSON values\<close>

datatype json =
    JNull
  | JBool bool
  | JInt int
  | JFloat string
  | JStr string
  | JList "json list"
  | JObj "(string \<times> json) list"

fun is_int :: "json \<Rightarrow> bool" where
  "is_int (JInt _) = True"
| "is_int _ = False"

fun is_str :: "json \<Rightarrow> bool" where
  "is_str (JStr _) = True"
| "is_str _ = False"

fun as_str :: "json \<Rightarrow> string" where
  "as_str (JStr s) = s"
| "as_str _ = []"

fun as_int :: "json \<Rightarrow> int" where
  "as_int (JInt i) = i"
| "as_int _ = 0"

definition jget :: "string \<Rightarrow> json dict \<Rightarrow> json option" where
  "jget k d = map_of d k"

lemma is_int_iff: "is_int j \<longleftrightarrow> (\<exists>i. j = JInt i)"
  by (cases j) auto

lemma is_str_iff: "is_str j \<longleftrightarrow> (\<exists>s. j = JStr s)"
  by (cases j) auto

section \<open>\<^verbatim>\<open>json.dumps\<close>\<close>

definition hex4 :: "nat \<Rightarrow> string" where
  "hex4 n = [digit_char (n div 4096 mod 16), digit_char (n div 256 mod 16),
             digit_char (n div 16 mod 16), digit_char (n mod 16)]"

definition escape_cp :: "nat \<Rightarrow> string" where
  "escape_cp n =
     (if n = 34 then [CHR 0x5C, CHR 0x22]
      else if n = 92 then [CHR 0x5C, CHR 0x5C]
      else if n = 10 then [CHR 0x5C, CHR ''n'']
      else if n = 13 then [CHR 0x5C, CHR ''r'']
      else if n = 9 then [CHR 0x5C, CHR ''t'']
      else if n = 12 then [CHR 0x5C, CHR ''f'']
      else if n = 8 then [CHR 0x5C, CHR ''b'']
      else if 32 \<le> n \<and> n < 127 then [char_of n]
      else if n < 65536 then CHR 0x5C # CHR ''u'' # hex4 n
      else (let m = n - 65536 in
            (CHR 0x5C # CHR ''u'' # hex4 (55296 + m div 1024))
            @ (CHR 0x5C # CHR ''u'' # hex4 (56320 + m mod 1024))))"

definition dump_str :: "str \<Rightarrow> string" where
  "dump_str s = CHR 0x22 # concat (map escape_cp (code_points s)) @ [CHR 0x22]"

definition dump_float :: "string \<Rightarrow> string" where
  "dump_float r =
     (if r = ''nan'' then ''NaN'' else if r = ''inf'' then ''Infinity''
      else if r = ''-inf'' then ''-Infinity'' else r)"

fun join :: "string \<Rightarrow> string list \<Rightarrow> string" where
  "join sep [] = []"
| "join sep [x] = x"
| "join sep (x # y # ys) = x @ sep @ join sep (y # ys)"

definition order_items :: "bool \<Rightarrow> (string \<times> 'v) list \<Rightarrow> (string \<times> 'v) list" where
  "order_items sorted_keys kvs = (if sorted_keys then sort_key fst kvs else kvs)"

text \<open>One line, with an item and a key separator: \<^verbatim>\<open>json.dumps(v, separators=(i, k))\<close>.\<close>

primrec dump_flat :: "bool \<Rightarrow> string \<Rightarrow> string \<Rightarrow> json \<Rightarrow> string" where
  "dump_flat sk i k JNull = ''null''"
| "dump_flat sk i k (JBool b) = (if b then ''true'' else ''false'')"
| "dump_flat sk i k (JInt n) = dec n"
| "dump_flat sk i k (JFloat r) = dump_float r"
| "dump_flat sk i k (JStr s) = dump_str s"
| "dump_flat sk i k (JList xs) = ''['' @ join i (map (dump_flat sk i k) xs) @ '']''"
| "dump_flat sk i k (JObj kvs) =
     ''{'' @ join i (map (\<lambda>(n, t). dump_str n @ k @ t)
       (order_items sk (map (map_prod id (dump_flat sk i k)) kvs))) @ ''}''"

abbreviation dumps :: "json \<Rightarrow> string" where
  "dumps \<equiv> dump_flat False '', '' '': ''"

abbreviation dumps_sorted :: "json \<Rightarrow> string" where
  "dumps_sorted \<equiv> dump_flat True '', '' '': ''"

text \<open>\<^verbatim>\<open>json.dumps(v, indent=2)\<close>, at nesting depth \<^verbatim>\<open>d\<close>.\<close>

definition newline :: "nat \<Rightarrow> string" where
  "newline d = CHR 0x0A # replicate (2 * d) CHR '' ''"

primrec dump_indent :: "bool \<Rightarrow> json \<Rightarrow> nat \<Rightarrow> string" where
  "dump_indent sk JNull = (\<lambda>d. ''null'')"
| "dump_indent sk (JBool b) = (\<lambda>d. if b then ''true'' else ''false'')"
| "dump_indent sk (JInt n) = (\<lambda>d. dec n)"
| "dump_indent sk (JFloat r) = (\<lambda>d. dump_float r)"
| "dump_indent sk (JStr s) = (\<lambda>d. dump_str s)"
| "dump_indent sk (JList xs) = (\<lambda>d.
     if xs = [] then ''[]''
     else ''['' @ newline (Suc d)
          @ join ('','' @ newline (Suc d)) (map (\<lambda>f. f (Suc d)) (map (dump_indent sk) xs))
          @ newline d @ '']'')"
| "dump_indent sk (JObj kvs) = (\<lambda>d.
     if kvs = [] then ''{}''
     else ''{'' @ newline (Suc d)
          @ join ('','' @ newline (Suc d))
              (map (\<lambda>(n, f). dump_str n @ '': '' @ f (Suc d))
                (order_items sk (map (map_prod id (dump_indent sk)) kvs)))
          @ newline d @ ''}'')"

abbreviation dumps_indent :: "bool \<Rightarrow> json \<Rightarrow> string" where
  "dumps_indent sk j \<equiv> dump_indent sk j 0"

section \<open>Lengths of rendered JSON\<close>

lemma length_join_ge: "x \<in> set xs \<Longrightarrow> length x \<le> length (join sep xs)"
  by (induction sep xs rule: join.induct) auto

lemma length_join_sum: "sum_list (map length xs) \<le> length (join sep xs)"
  by (induction sep xs rule: join.induct) auto

lemma base_digits_nonempty: "base_digits b n \<noteq> []"
  by (subst base_digits.simps) simp

lemma dump_str_length_ge: "2 \<le> length (dump_str s)"
  by (simp add: dump_str_def)

lemma set_order_items [simp]: "set (order_items sk kvs) = set kvs"
  by (simp add: order_items_def)

end
