(* ===== verification/Recorder.thy ===== *)
theory Recorder
  imports Py_Values
begin

text \<open>
  \<^verbatim>\<open>src/src/reschema/exec/recorder.py\<close>: one run of a static ELF under the emulator, as a
  trace.  The emulator (qiling) is a parameter: \<^verbatim>\<open>emulate\<close> takes the binary's bytes, the
  guest argv, stdin and the timeout and threads the state of the outside world, so that
  two runs of one input may differ.  What it reports is an \<^verbatim>\<open>emu_run\<close>: the system calls it
  dispatched, in order and in both phases, the exception it raised if any, the final
  exit code, the two output streams and the files left under the scratch root.
\<close>

section \<open>Traces\<close>

record event =
  ev_sc :: string
  ev_phase :: string
  ev_args :: "str list"
  ev_result :: "json option"
  ev_extra :: "json dict"

record trace =
  tr_argv :: "str list"
  tr_stdin_hex :: str
  tr_stdout :: str
  tr_stderr :: str
  tr_exit_code :: int
  tr_files_written :: "str dict"
  tr_events :: "event list"

definition mk_event :: "string \<Rightarrow> string \<Rightarrow> str list \<Rightarrow> event" where
  "mk_event ph s as = \<lparr>ev_sc = s, ev_phase = ph, ev_args = as, ev_result = None, ev_extra = []\<rparr>"

text \<open>\<^verbatim>\<open>==\<close> on two event dictionaries.\<close>

definition event_eq :: "event \<Rightarrow> event \<Rightarrow> bool" where
  "event_eq a b =
     (ev_sc a = ev_sc b \<and> ev_phase a = ev_phase b \<and> ev_args a = ev_args b
      \<and> ev_result a = ev_result b \<and> dict_eq (ev_extra a) (ev_extra b))"

definition trace_eq :: "trace \<Rightarrow> trace \<Rightarrow> bool" where
  "trace_eq a b =
     (tr_argv a = tr_argv b \<and> tr_stdin_hex a = tr_stdin_hex b \<and> tr_stdout a = tr_stdout b
      \<and> tr_stderr a = tr_stderr b \<and> tr_exit_code a = tr_exit_code b
      \<and> dict_eq (tr_files_written a) (tr_files_written b)
      \<and> list_all2 event_eq (tr_events a) (tr_events b))"

section \<open>The emulator's report\<close>

datatype raw_arg = RawInt int | RawObj str

datatype fs_node = RegularFile bytes | SymbolicLink | OtherNode

record emu_run =
  emu_syscalls :: "(string \<times> string \<times> raw_arg list) list"
  emu_exn :: "(string \<times> string) option"
  emu_exit_code :: int
  emu_stdout :: bytes
  emu_stderr :: bytes
  emu_files :: "(str \<times> fs_node) list"

type_synonym 'w emulator = "bytes \<Rightarrow> str list \<Rightarrow> bytes \<Rightarrow> nat \<Rightarrow> 'w \<Rightarrow> emu_run \<times> 'w"

record binary =
  bin_path :: str
  bin_bytes :: bytes

section \<open>\<^verbatim>\<open>pathlib.Path(p).name\<close>\<close>

fun split_slash :: "str \<Rightarrow> str list" where
  "split_slash [] = [[]]"
| "split_slash (c # cs) =
     (case split_slash cs of
        [] \<Rightarrow> [[c]]
      | p # ps \<Rightarrow> if c = CHR ''/'' then [] # p # ps else (c # p) # ps)"

definition path_name :: "str \<Rightarrow> str" where
  "path_name s =
     (case filter (\<lambda>p. p \<noteq> [] \<and> p \<noteq> ''.'') (split_slash s) of [] \<Rightarrow> [] | ps \<Rightarrow> last ps)"

section \<open>\<^verbatim>\<open>record\<close>\<close>

definition LOG_SYSCALLS :: "string list" where
  "LOG_SYSCALLS =
     [''read'', ''write'', ''writev'', ''open'', ''openat'', ''creat'', ''close'', ''brk'', ''mmap'',
      ''exit_group'']"

definition fmt :: "raw_arg \<Rightarrow> str" where
  "fmt a = (case a of RawInt i \<Rightarrow> py_hex i | RawObj s \<Rightarrow> s)"

text \<open>The hook of one system call: an exit hook's last argument is the return value.\<close>

definition hook :: "string \<Rightarrow> string \<Rightarrow> raw_arg list \<Rightarrow> event" where
  "hook name ph raw =
     (if ph = ''exit'' then
        \<lparr>ev_sc = name, ev_phase = ph, ev_args = map fmt (butlast raw),
         ev_result = Some (if raw = [] then JNull else JStr (fmt (last raw))), ev_extra = []\<rparr>
      else \<lparr>ev_sc = name, ev_phase = ph, ev_args = map fmt raw, ev_result = None, ev_extra = []\<rparr>)"

definition hooked_events :: "(string \<times> string \<times> raw_arg list) list \<Rightarrow> event list" where
  "hooked_events calls =
     map (\<lambda>(s, ph, raw). hook s ph raw) (filter (\<lambda>(s, ph, raw). s \<in> set LOG_SYSCALLS) calls)"

definition TIMEOUT_RECORD :: nat where
  "TIMEOUT_RECORD = 3000000"

definition scrape_files :: "str \<Rightarrow> (str \<times> fs_node) list \<Rightarrow> str dict" where
  "scrape_files guest nodes =
     fold (\<lambda>(p, n) d. case n of RegularFile b \<Rightarrow> (if p \<noteq> guest then AList.update p (bytes_hex b) d else d)
                       | _ \<Rightarrow> d) nodes []"

definition record_trace :: "'w emulator \<Rightarrow> binary \<Rightarrow> str list \<Rightarrow> bytes \<Rightarrow> 'w \<Rightarrow> trace \<times> 'w" where
  "record_trace emulate b argv stdin w =
     (let guest = path_name (bin_path b);
          (r, w') = emulate (bin_bytes b) (guest # argv) stdin TIMEOUT_RECORD w;
          events = hooked_events (emu_syscalls r);
          exited = list_ex (\<lambda>e. ev_phase e = ''enter'' \<and> ev_sc e = ''exit_group'') events;
          (code, tail) =
            (case emu_exn r of
               Some (ty, msg) \<Rightarrow> (- 1, [mk_event ''fault'' ''crash'' [ty @ '': '' @ msg]])
             | None \<Rightarrow> if exited then (emu_exit_code r, [])
                       else (- 1, [mk_event ''fault'' ''timeout'' []]))
      in (\<lparr>tr_argv = bin_path b # argv, tr_stdin_hex = bytes_hex stdin,
           tr_stdout = bytes_hex (emu_stdout r), tr_stderr = bytes_hex (emu_stderr r),
           tr_exit_code = code, tr_files_written = scrape_files guest (emu_files r),
           tr_events = events @ tail\<rparr>, w'))"

section \<open>Basic facts\<close>

lemma event_eq_refl [simp]: "event_eq e e"
  by (simp add: event_eq_def)

lemma event_eq_iff_no_extra:
  "ev_extra a = [] \<Longrightarrow> ev_extra b = [] \<Longrightarrow> event_eq a b \<longleftrightarrow> a = b"
  by (cases a; cases b) (simp add: event_eq_def)

lemma trace_eq_refl [simp]: "trace_eq t t"
  by (simp add: trace_eq_def list_all2_same)

lemma record_trace_inputs [simp]:
  "tr_argv (fst (record_trace emu b argv stdin w)) = bin_path b # argv"
  "tr_stdin_hex (fst (record_trace emu b argv stdin w)) = bytes_hex stdin"
  by (simp_all add: record_trace_def Let_def split: prod.splits)

lemma set_hooked_events:
  "e \<in> set (hooked_events calls) \<Longrightarrow> ev_sc e \<in> set LOG_SYSCALLS \<and> ev_extra e = []"
  by (auto simp: hooked_events_def hook_def)

end
