(* ===== verification/Canonical.thy ===== *)
theory Canonical
  imports Recorder
begin

text \<open>
  \<^verbatim>\<open>src/src/reschema/exec/canonical.py\<close>: the canonicaliser (rules 2.1).  The closures of
  \<^verbatim>\<open>_mapper\<close> become explicit tables; the loop of \<^verbatim>\<open>canonicalize\<close> is a fold of \<^verbatim>\<open>canon_event\<close>
  over the state \<^verbatim>\<open>canon_state\<close> (the three tables, the descriptor table \<^verbatim>\<open>fds\<close> and the flag
  \<^verbatim>\<open>pending_write_open\<close>).  The two regular expressions are matchers on ASCII text, which is
  what the recorder's \<^verbatim>\<open>_fmt\<close> produces for system-call arguments.

  The locale \<^verbatim>\<open>ordinal_table\<close> is the contract of \<^verbatim>\<open>_mapper\<close>: tokens are stable, injective
  and numbered by first sighting.
\<close>

section \<open>The two regular expressions\<close>

definition lower_hex :: "char \<Rightarrow> bool" where
  "lower_hex c = ((48 \<le> byte_val c \<and> byte_val c < 58) \<or> (97 \<le> byte_val c \<and> byte_val c < 103))"

text \<open>\<^verbatim>\<open>ADDR.fullmatch\<close>: \<^verbatim>\<open>0x[0-9a-f]{6,}\<close>.\<close>

definition is_addr :: "str \<Rightarrow> bool" where
  "is_addr s = (take 2 s = ''0x'' \<and> 6 \<le> length (drop 2 s) \<and> list_all lower_hex (drop 2 s))"

definition path_char :: "char \<Rightarrow> bool" where
  "path_char c =
     ((48 \<le> byte_val c \<and> byte_val c < 58) \<or> (65 \<le> byte_val c \<and> byte_val c < 91)
      \<or> (97 \<le> byte_val c \<and> byte_val c < 123) \<or> c = CHR ''_'' \<or> c = CHR ''.'' \<or> c = CHR ''-'')"

text \<open>
  \<^verbatim>\<open>ABSPATH\<close> is \<^verbatim>\<open>/(?:[\w.-]+/)+[\w.-]+\<close>.  Its character class excludes the slash, so a match
  at a position is the longest run of slash-segment pairs, and there is one exactly when the
  run has at least two segments.  \<^verbatim>\<open>segments s\<close> is the number of segments of that run and its
  length in characters.
\<close>

function segments :: "str \<Rightarrow> nat \<times> nat" where
  "segments s =
     (case s of
        c # r \<Rightarrow>
          (if c = CHR ''/'' then
             (let seg = takeWhile path_char r in
              if seg = [] then (0, 0)
              else (let (n, l) = segments (drop (length seg) r) in (Suc n, Suc (length seg) + l)))
           else (0, 0))
      | [] \<Rightarrow> (0, 0))"
  by pat_completeness auto
termination
  by (relation "measure length") auto

declare segments.simps [simp del]

definition abspath_len :: "str \<Rightarrow> nat option" where
  "abspath_len s = (let (n, l) = segments s in if 2 \<le> n then Some l else None)"

section \<open>\<^verbatim>\<open>_mapper\<close>\<close>

type_synonym table = "(str \<times> str) list"

definition mapper :: "string \<Rightarrow> table \<Rightarrow> str \<Rightarrow> table \<times> str" where
  "mapper prefix m s =
     (case map_of m s of
        Some t \<Rightarrow> (m, t)
      | None \<Rightarrow> (let t = prefix @ ''_'' @ decn (length m) in (m @ [(s, t)], t)))"

text \<open>\<^verbatim>\<open>ABSPATH.sub(lambda m: path_of(m.group(0)), a)\<close>: leftmost matches, not overlapping.\<close>

function sub_paths :: "table \<Rightarrow> str \<Rightarrow> table \<times> str" where
  "sub_paths m s =
     (case s of
        [] \<Rightarrow> (m, [])
      | c # r \<Rightarrow>
          (case abspath_len s of
             Some (Suc l) \<Rightarrow>
               (let (m1, t) = mapper ''PATH'' m (take (Suc l) s);
                    (m2, rest) = sub_paths m1 (drop (Suc l) s) in (m2, t @ rest))
           | _ \<Rightarrow> (let (m2, rest) = sub_paths m r in (m2, c # rest))))"
  by pat_completeness auto
termination
  by (relation "measure (\<lambda>(m, s). length s)") auto

declare sub_paths.simps [simp del]

section \<open>\<^verbatim>\<open>_write_intent\<close>\<close>

definition O_ACCMODE :: int where "O_ACCMODE = 3"
definition O_CREAT :: int where "O_CREAT = 64"

definition OPEN_FLAGS :: "string \<Rightarrow> int option" where
  "OPEN_FLAGS = [''openat'' \<mapsto> 2, ''open'' \<mapsto> 1, ''creat'' \<mapsto> - 1]"

definition FD_CARRIERS :: "string list" where
  "FD_CARRIERS = [''read'', ''write'', ''writev'', ''close'']"

text \<open>
  \<^verbatim>\<open>int(s, 16)\<close>: surrounding whitespace, a sign, an optional \<^verbatim>\<open>0x\<close> prefix, digits with single
  underscores between them (and one allowed right after the prefix).
\<close>

fun hex_digits_val :: "bool \<Rightarrow> nat \<Rightarrow> str \<Rightarrow> nat option" where
  "hex_digits_val after_digit acc [] = (if after_digit then Some acc else None)"
| "hex_digits_val after_digit acc (c # r) =
     (if c = CHR ''_'' then
        (if after_digit \<and> r \<noteq> [] \<and> hex_val (hd r) \<noteq> None then hex_digits_val False acc r else None)
      else case hex_val c of None \<Rightarrow> None | Some d \<Rightarrow> hex_digits_val True (16 * acc + d) r)"

definition strip_space :: "str \<Rightarrow> str" where
  "strip_space s = rev (dropWhile ascii_space (rev (dropWhile ascii_space s)))"

definition int_base16 :: "str \<Rightarrow> int option" where
  "int_base16 s =
     (let t = strip_space s;
          (neg, u) = (case t of c # r \<Rightarrow> if c = CHR ''-'' then (True, r)
                                         else if c = CHR ''+'' then (False, r) else (False, t)
                      | [] \<Rightarrow> (False, t));
          v = (if take 2 u = ''0x'' \<or> take 2 u = ''0X'' then
                 (case drop 2 u of c # r \<Rightarrow> if c = CHR ''_'' then r else c # r | [] \<Rightarrow> [])
               else u)
      in map_option (\<lambda>n. if neg then - int n else int n) (hex_digits_val False 0 v))"

text \<open>Python indexing of the argument list; \<^verbatim>\<open>None\<close> is the \<^verbatim>\<open>IndexError\<close>.\<close>

definition py_index :: "'a list \<Rightarrow> int \<Rightarrow> 'a option" where
  "py_index xs i =
     (let j = (if i < 0 then int (length xs) + i else i)
      in if 0 \<le> j \<and> j < int (length xs) then Some (xs ! nat j) else None)"

text \<open>\<^verbatim>\<open>flags & O_ACCMODE or flags & O_CREAT\<close> on an integer of either sign.\<close>

definition wants_write :: "int \<Rightarrow> bool" where
  "wants_write flags = (flags mod 4 \<noteq> 0 \<or> (flags div 64) mod 2 \<noteq> 0)"

definition write_intent :: "string \<Rightarrow> str list \<Rightarrow> bool" where
  "write_intent sc as =
     (if sc = ''creat'' then True
      else case OPEN_FLAGS sc of
        None \<Rightarrow> False
      | Some i \<Rightarrow>
          (case py_index as i of
             None \<Rightarrow> False
           | Some a \<Rightarrow> (case int_base16 a of None \<Rightarrow> False | Some flags \<Rightarrow> wants_write flags)))"

section \<open>\<^verbatim>\<open>canonicalize\<close>\<close>

record canon_state =
  addr_tab :: table
  fd_tab :: table
  path_tab :: table
  fds :: table
  pending_write_open :: bool

definition canon_init :: canon_state where
  "canon_init = \<lparr>addr_tab = [], fd_tab = [], path_tab = [], fds = [], pending_write_open = False\<rparr>"

definition is_open :: "string \<Rightarrow> bool" where
  "is_open sc = (OPEN_FLAGS sc \<noteq> None)"

definition hex_result :: "json option \<Rightarrow> str option" where
  "hex_result r = (case r of Some (JStr s) \<Rightarrow> if take 2 s = ''0x'' then Some s else None | _ \<Rightarrow> None)"

definition setdefault :: "table \<Rightarrow> str \<Rightarrow> str \<Rightarrow> table" where
  "setdefault d k v = (case map_of d k of Some _ \<Rightarrow> d | None \<Rightarrow> d @ [(k, v)])"

text \<open>The open-family bookkeeping of one event (lines 59 to 65).\<close>

definition track_open :: "canon_state \<Rightarrow> event \<Rightarrow> canon_state" where
  "track_open st e =
     (if is_open (ev_sc e) \<and> ev_phase e = ''enter'' then
        st\<lparr>pending_write_open := write_intent (ev_sc e) (ev_args e)\<rparr>
      else if is_open (ev_sc e) \<and> ev_phase e = ''exit'' then
        (case hex_result (ev_result e) of
           Some res \<Rightarrow>
             (if pending_write_open st then
                (let (ft, tok) = mapper ''FD'' (fd_tab st) res
                 in st\<lparr>fd_tab := ft, fds := setdefault (fds st) res tok, pending_write_open := False\<rparr>)
              else st)
         | None \<Rightarrow> st)\<lparr>pending_write_open := False\<rparr>
      else st)"

text \<open>The descriptor argument of an fd carrier (lines 66 to 69).\<close>

definition carry_fd :: "canon_state \<Rightarrow> event \<Rightarrow> str list" where
  "carry_fd st e =
     (case ev_args e of
        a0 # as \<Rightarrow>
          (if ev_sc e \<in> set FD_CARRIERS then
             (case map_of (fds st) a0 of Some t \<Rightarrow> t # as | None \<Rightarrow> a0 # as)
           else a0 # as)
      | [] \<Rightarrow> [])"

definition canon_token :: "canon_state \<Rightarrow> str \<Rightarrow> canon_state \<times> str" where
  "canon_token st a =
     (if is_addr a then
        (let (at, t) = mapper ''ADDR'' (addr_tab st) a in (st\<lparr>addr_tab := at\<rparr>, t))
      else
        (let (pt, t) = sub_paths (path_tab st) a in (st\<lparr>path_tab := pt\<rparr>, t)))"

fun canon_args :: "canon_state \<Rightarrow> str list \<Rightarrow> canon_state \<times> str list" where
  "canon_args st [] = (st, [])"
| "canon_args st (a # as) =
     (let (st1, t) = canon_token st a; (st2, ts) = canon_args st1 as in (st2, t # ts))"

definition canon_result :: "canon_state \<Rightarrow> json option \<Rightarrow> canon_state \<times> json option" where
  "canon_result st r =
     (case r of
        Some (JStr s) \<Rightarrow>
          (if is_addr s then
             (let (at, t) = mapper ''ADDR'' (addr_tab st) s in (st\<lparr>addr_tab := at\<rparr>, Some (JStr t)))
           else (st, r))
      | _ \<Rightarrow> (st, r))"

definition canon_event :: "canon_state \<Rightarrow> event \<Rightarrow> canon_state \<times> event" where
  "canon_event st e =
     (let st1 = track_open st e;
          (st2, as) = canon_args st1 (carry_fd st1 e);
          (st3, r) = canon_result st2 (ev_result e)
      in (st3, e\<lparr>ev_args := as, ev_result := r\<rparr>))"

fun canon_events :: "canon_state \<Rightarrow> event list \<Rightarrow> canon_state \<times> event list" where
  "canon_events st [] = (st, [])"
| "canon_events st (e # es) =
     (let (st1, c) = canon_event st e; (st2, cs) = canon_events st1 es in (st2, c # cs))"

text \<open>\<^verbatim>\<open>t["argv"][0]\<close> raises on an empty argv; the recorder always puts the program there.\<close>

definition canonicalize :: "trace \<Rightarrow> trace result" where
  "canonicalize t =
     (case tr_argv t of
        [] \<Rightarrow> Inl (IndexError ''list index out of range'')
      | p # argv \<Rightarrow>
          Inr (t\<lparr>tr_events := snd (canon_events canon_init (tr_events t)),
                 tr_argv := path_name p # argv\<rparr>))"


section \<open>The contract of \<^verbatim>\<open>_mapper\<close>\<close>

locale ordinal_table =
  fixes lookup :: "'t \<Rightarrow> str \<Rightarrow> str option"
    and intern :: "'t \<Rightarrow> str \<Rightarrow> 't \<times> str"
    and ok :: "'t \<Rightarrow> bool"
  assumes intern_token: "lookup (fst (intern m s)) s = Some (snd (intern m s))"
    and intern_frame: "k \<noteq> s \<Longrightarrow> lookup (fst (intern m s)) k = lookup m k"
    and intern_stable: "lookup m s = Some t \<Longrightarrow> intern m s = (m, t)"
    and ok_intern: "ok m \<Longrightarrow> ok (fst (intern m s))"
    and ok_inj: "ok m \<Longrightarrow> lookup m a = Some t \<Longrightarrow> lookup m b = Some t \<Longrightarrow> a = b"
begin

lemma intern_mono: "lookup m k = Some t \<Longrightarrow> lookup (fst (intern m s)) k = Some t"
  by (cases "k = s") (auto simp: intern_stable intern_frame)

lemma intern_eq_iff:
  assumes "ok m" and "lookup m a = Some t"
  shows "snd (intern m b) = t \<longleftrightarrow> b = a"
proof
  assume h: "snd (intern m b) = t"
  have "lookup (fst (intern m b)) b = Some t"
    using intern_token [of m b] h by simp
  moreover have "lookup (fst (intern m b)) a = Some t"
    using assms(2) by (rule intern_mono)
  ultimately show "b = a"
    using ok_inj [OF ok_intern [OF assms(1)]] by blast
next
  assume "b = a"
  with assms(2) show "snd (intern m b) = t" by (simp add: intern_stable)
qed

end

text \<open>A table numbers its tokens in order of first sighting.\<close>

definition table_ok :: "string \<Rightarrow> table \<Rightarrow> bool" where
  "table_ok prefix m =
     (map snd m = map (\<lambda>n. prefix @ ''_'' @ decn n) [0..<length m] \<and> distinct (map fst m))"

lemma digit_char_inj: "a < 10 \<Longrightarrow> b < 10 \<Longrightarrow> digit_char a = digit_char b \<longleftrightarrow> a = b"
  by (auto simp: digit_char_byte_val dest!: arg_cong [where f = byte_val])

lemma base_digits10_inj: "base_digits 10 m = base_digits 10 n \<Longrightarrow> m = n"
proof (induction m arbitrary: n rule: less_induct)
  case (less m)
  have len1: "length (base_digits 10 k) = 1 \<longleftrightarrow> k < 10" for k
    by (subst base_digits.simps) (auto simp: base_digits_nonempty)
  show ?case
  proof (cases "m < 10")
    case True
    then have "n < 10" using less.prems len1 by metis
    with True less.prems show ?thesis
      by (simp add: base_digits.simps [of 10 m] base_digits.simps [of 10 n] digit_char_inj)
  next
    case False
    then have n: "\<not> n < 10" using less.prems len1 by metis
    from False n less.prems
    have q: "base_digits 10 (m div 10) = base_digits 10 (n div 10)"
      and r: "digit_char (m mod 10) = digit_char (n mod 10)"
      by (simp_all add: base_digits.simps [of 10 m] base_digits.simps [of 10 n])
    from False have "m div 10 < m" by simp
    then have "m div 10 = n div 10" using less.IH q by blast
    moreover have "m mod 10 = n mod 10" using r by (simp add: digit_char_inj)
    ultimately show ?thesis by (metis div_mult_mod_eq)
  qed
qed

lemma decn_inj [simp]: "decn m = decn n \<longleftrightarrow> m = n"
  by (auto simp: dec_def dest: base_digits10_inj)

lemma table_ok_nth:
  assumes "table_ok p m" and "i < length m"
  shows "snd (m ! i) = p @ ''_'' @ decn i"
proof -
  have "map snd m ! i = map (\<lambda>n. p @ ''_'' @ decn n) [0..<length m] ! i"
    using assms by (simp add: table_ok_def)
  then show ?thesis using assms(2) by simp
qed

lemma table_ok_inj:
  assumes "table_ok p m" and "map_of m a = Some t" and "map_of m b = Some t"
  shows "a = b"
proof -
  from assms(2,3) obtain i j where
    i: "i < length m" "m ! i = (a, t)" and j: "j < length m" "m ! j = (b, t)"
    by (metis in_set_conv_nth map_of_SomeD)
  then have "p @ ''_'' @ decn i = p @ ''_'' @ decn j"
    using table_ok_nth [OF assms(1)] by (metis snd_conv)
  then have "i = j" by simp
  with i j show ?thesis by simp
qed

lemma mapper_ok: "table_ok p m \<Longrightarrow> table_ok p (fst (mapper p m s))"
  by (auto simp: table_ok_def mapper_def Let_def map_of_eq_None_iff split: option.splits)

lemma table_ok_Nil [simp]: "table_ok p []"
  by (simp add: table_ok_def)

interpretation mt: ordinal_table map_of "mapper p" "table_ok p" for p
proof
  fix m :: table and s k t a b
  show "map_of (fst (mapper p m s)) s = Some (snd (mapper p m s))"
    by (auto simp: mapper_def Let_def map_add_def split: option.splits)
  show "k \<noteq> s \<Longrightarrow> map_of (fst (mapper p m s)) k = map_of m k"
    by (auto simp: mapper_def Let_def map_add_def split: option.splits)
  show "map_of m s = Some t \<Longrightarrow> mapper p m s = (m, t)"
    by (simp add: mapper_def)
  show "table_ok p m \<Longrightarrow> table_ok p (fst (mapper p m s))"
    by (rule mapper_ok)
  show "table_ok p m \<Longrightarrow> map_of m a = Some t \<Longrightarrow> map_of m b = Some t \<Longrightarrow> a = b"
    by (rule table_ok_inj)
qed


section \<open>Renaming addresses\<close>




















lemma canon_token_keeps [simp]:
  "fds (fst (canon_token st a)) = fds st" "fd_tab (fst (canon_token st a)) = fd_tab st"
  "pending_write_open (fst (canon_token st a)) = pending_write_open st"
  by (simp_all add: canon_token_def Let_def case_prod_beta)

lemma canon_args_keeps [simp]:
  "fds (fst (canon_args st as)) = fds st" "fd_tab (fst (canon_args st as)) = fd_tab st"
  "pending_write_open (fst (canon_args st as)) = pending_write_open st"
  by (induction as arbitrary: st) (simp_all add: Let_def case_prod_beta)

lemma canon_result_keeps [simp]:
  "fds (fst (canon_result st r)) = fds st" "fd_tab (fst (canon_result st r)) = fd_tab st"
  "pending_write_open (fst (canon_result st r)) = pending_write_open st"
  by (simp_all add: canon_result_def Let_def case_prod_beta split: option.split json.split)

lemma canon_event_keeps [simp]:
  "fds (fst (canon_event st e)) = fds (track_open st e)"
  "fd_tab (fst (canon_event st e)) = fd_tab (track_open st e)"
  "pending_write_open (fst (canon_event st e)) = pending_write_open (track_open st e)"
  by (simp_all add: canon_event_def Let_def case_prod_beta)











section \<open>Address tokens are faithful\<close>

text \<open>The address arguments of an event: a descriptor argument of an fd carrier is not one.\<close>

definition addr_arg :: "event \<Rightarrow> nat \<Rightarrow> bool" where
  "addr_arg e j =
     (j < length (ev_args e) \<and> is_addr (ev_args e ! j) \<and> (j = 0 \<longrightarrow> ev_sc e \<notin> set FD_CARRIERS))"

definition addr_grows :: "canon_state \<Rightarrow> canon_state \<Rightarrow> bool" where
  "addr_grows a b =
     ((table_ok ''ADDR'' (addr_tab a) \<longrightarrow> table_ok ''ADDR'' (addr_tab b))
      \<and> (\<forall>k t. map_of (addr_tab a) k = Some t \<longrightarrow> map_of (addr_tab b) k = Some t))"

lemma addr_grows_refl [simp]: "addr_grows st st"
  by (simp add: addr_grows_def)

lemma addr_grows_trans: "addr_grows a b \<Longrightarrow> addr_grows b c \<Longrightarrow> addr_grows a c"
  by (simp add: addr_grows_def)

lemma addr_grows_token: "addr_grows st (fst (canon_token st a))"
  using mt.ok_intern [of "''ADDR''" "addr_tab st" a] mt.intern_mono [of "addr_tab st" _ _ "''ADDR''" a]
  by (simp add: canon_token_def addr_grows_def Let_def case_prod_beta)

lemma addr_grows_args: "addr_grows st (fst (canon_args st as))"
proof (induction as arbitrary: st)
  case (Cons a as)
  then show ?case
    using addr_grows_trans [OF addr_grows_token Cons.IH] by (simp add: Let_def case_prod_beta)
qed simp

lemma addr_grows_result: "addr_grows st (fst (canon_result st r))"
  using mt.ok_intern [of "''ADDR''" "addr_tab st"] mt.intern_mono [of "addr_tab st" _ _ "''ADDR''"]
  by (simp add: canon_result_def addr_grows_def Let_def case_prod_beta split: option.split json.split)

lemma addr_tab_track_open [simp]: "addr_tab (track_open st e) = addr_tab st"
  by (simp add: track_open_def Let_def case_prod_beta split: option.split)

lemma addr_grows_event: "addr_grows st (fst (canon_event st e))"
proof -
  have "addr_grows st (track_open st e)"
    by (simp add: addr_grows_def)
  then show ?thesis
    using addr_grows_args addr_grows_result addr_grows_trans
    by (simp add: canon_event_def Let_def case_prod_beta) blast
qed

lemma addr_grows_events: "addr_grows st (fst (canon_events st es))"
proof (induction es arbitrary: st)
  case (Cons e es)
  then show ?case
    using addr_grows_trans [OF addr_grows_event Cons.IH] by (simp add: Let_def case_prod_beta)
qed simp

lemma length_canon_args [simp]: "length (snd (canon_args st as)) = length as"
  by (induction as arbitrary: st) (simp_all add: Let_def case_prod_beta)

lemma length_canon_events [simp]: "length (snd (canon_events st es)) = length es"
  by (induction es arbitrary: st) (simp_all add: Let_def case_prod_beta)

lemma length_carry_fd [simp]: "length (carry_fd st e) = length (ev_args e)"
  by (simp add: carry_fd_def split: list.split option.split)

lemma carry_fd_addr_arg: "addr_arg e j \<Longrightarrow> carry_fd st e ! j = ev_args e ! j"
  by (cases j) (auto simp: addr_arg_def carry_fd_def split: list.split option.split)

lemma canon_token_addr:
  "is_addr a \<Longrightarrow> map_of (addr_tab (fst (canon_token st a))) a = Some (snd (canon_token st a))"
  using mt.intern_token [of "''ADDR''" "addr_tab st" a]
  by (simp add: canon_token_def Let_def case_prod_beta)

lemma canon_args_addr:
  "j < length as \<Longrightarrow> is_addr (as ! j) \<Longrightarrow>
   map_of (addr_tab (fst (canon_args st as))) (as ! j) = Some (snd (canon_args st as) ! j)"
proof (induction as arbitrary: st j)
  case (Cons a as)
  let ?s = "fst (canon_token st a)"
  show ?case
  proof (cases j)
    case 0
    then have "map_of (addr_tab ?s) a = Some (snd (canon_token st a))"
      using Cons.prems canon_token_addr by simp
    then show ?thesis
      using addr_grows_args [of ?s as] 0 by (simp add: addr_grows_def Let_def case_prod_beta)
  next
    case (Suc i)
    then show ?thesis
      using Cons.IH [of i ?s] Cons.prems by (simp add: Let_def case_prod_beta)
  qed
qed simp

lemma canon_event_addr:
  assumes "addr_arg e j"
  shows "map_of (addr_tab (fst (canon_event st e))) (ev_args e ! j)
         = Some (ev_args (snd (canon_event st e)) ! j)"
proof -
  let ?s = "track_open st e"
  let ?as = "carry_fd ?s e"
  have "j < length ?as" and "is_addr (?as ! j)"
    using assms carry_fd_addr_arg [OF assms] by (simp_all add: addr_arg_def)
  then have "map_of (addr_tab (fst (canon_args ?s ?as))) (ev_args e ! j) = Some (snd (canon_args ?s ?as) ! j)"
    using canon_args_addr [of j ?as ?s] carry_fd_addr_arg [OF assms] by simp
  then show ?thesis
    using addr_grows_result [of "fst (canon_args ?s ?as)" "ev_result e"]
    by (simp add: canon_event_def addr_grows_def Let_def case_prod_beta)
qed

lemma canon_events_addr:
  "i < length es \<Longrightarrow> addr_arg (es ! i) j \<Longrightarrow>
   map_of (addr_tab (fst (canon_events st es))) (ev_args (es ! i) ! j)
   = Some (ev_args (snd (canon_events st es) ! i) ! j)"
proof (induction es arbitrary: st i)
  case (Cons e es)
  let ?s = "fst (canon_event st e)"
  show ?case
  proof (cases i)
    case 0
    then have "map_of (addr_tab ?s) (ev_args e ! j) = Some (ev_args (snd (canon_event st e)) ! j)"
      using Cons.prems canon_event_addr by simp
    then show ?thesis
      using addr_grows_events [of ?s es] 0 by (simp add: addr_grows_def Let_def case_prod_beta)
  next
    case (Suc k)
    then show ?thesis
      using Cons.IH [of k ?s] Cons.prems by (simp add: Let_def case_prod_beta)
  qed
qed simp

text \<open>
  C17: canonicalisation keeps the identity of addresses.  Two address-shaped arguments
  anywhere in a trace receive the same token exactly when they were the same address, so
  no two distinct addresses are merged and none is split.
\<close>

theorem canonicalize_addr_faithful:
  assumes "canonicalize t = Inr c"
    and "i < length (tr_events t)" and "addr_arg (tr_events t ! i) j"
    and "k < length (tr_events t)" and "addr_arg (tr_events t ! k) l"
  shows "ev_args (tr_events c ! i) ! j = ev_args (tr_events c ! k) ! l
         \<longleftrightarrow> ev_args (tr_events t ! i) ! j = ev_args (tr_events t ! k) ! l"
proof -
  let ?run = "canon_events canon_init (tr_events t)"
  let ?tab = "addr_tab (fst ?run)"
  have ok: "table_ok ''ADDR'' ?tab"
    using addr_grows_events [of canon_init "tr_events t"] by (simp add: addr_grows_def canon_init_def)
  have ev: "tr_events c = snd ?run"
    using assms(1) by (auto simp: canonicalize_def split: list.splits)
  have a: "map_of ?tab (ev_args (tr_events t ! i) ! j) = Some (ev_args (tr_events c ! i) ! j)"
    and b: "map_of ?tab (ev_args (tr_events t ! k) ! l) = Some (ev_args (tr_events c ! k) ! l)"
    using canon_events_addr assms ev by simp_all
  show ?thesis
  proof
    assume "ev_args (tr_events c ! i) ! j = ev_args (tr_events c ! k) ! l"
    with b show "ev_args (tr_events t ! i) ! j = ev_args (tr_events t ! k) ! l"
      by (intro mt.ok_inj [OF ok a]) simp
  next
    assume "ev_args (tr_events t ! i) ! j = ev_args (tr_events t ! k) ! l"
    with a b show "ev_args (tr_events c ! i) ! j = ev_args (tr_events c ! k) ! l" by simp
  qed
qed

theorem canonicalize_addr_faithful_witness:
  "let t = \<lparr>tr_argv = [''/r/prog''], tr_stdin_hex = [], tr_stdout = [], tr_stderr = [], tr_exit_code = 0,
       tr_files_written = [],
       tr_events = [mk_event ''enter'' ''brk'' [''0x400000''],
                    mk_event ''enter'' ''write'' [''0x1'', ''0x400000'', ''0x5'']]\<rparr>;
       c = the (case canonicalize t of Inr c \<Rightarrow> Some c | _ \<Rightarrow> None)
   in (ev_args (tr_events c ! 0) ! 0 = ev_args (tr_events c ! 1) ! 1
       \<longleftrightarrow> ev_args (tr_events t ! 0) ! 0 = ev_args (tr_events t ! 1) ! 1)"
  unfolding Let_def
proof (rule canonicalize_addr_faithful)
qed (code_simp | simp add: canonicalize_def mk_event_def)+

section \<open>Descriptor numbering\<close>

lemma canon_events_append:
  "canon_events st (xs @ ys) =
     (let (st1, cs) = canon_events st xs; (st2, ds) = canon_events st1 ys in (st2, cs @ ds))"
  by (induction xs arbitrary: st) (simp_all add: Let_def case_prod_beta)

definition same_fds :: "canon_state \<Rightarrow> canon_state \<Rightarrow> bool" where
  "same_fds a b = (fds a = fds b \<and> fd_tab a = fd_tab b \<and> pending_write_open a = pending_write_open b)"

lemma carry_fd_cong: "fds a = fds b \<Longrightarrow> carry_fd a e = carry_fd b e"
  by (cases "ev_args e") (simp_all add: carry_fd_def)

lemma same_fds_track: "same_fds a b \<Longrightarrow> same_fds (track_open a e) (track_open b e)"
  by (simp add: same_fds_def track_open_def Let_def case_prod_beta split: option.split)

lemma same_fds_event: "same_fds a b \<Longrightarrow> same_fds (fst (canon_event a e)) (fst (canon_event b e))"
  using same_fds_track [of a b e] by (simp add: same_fds_def)

lemma same_fds_events: "same_fds a b \<Longrightarrow> same_fds (fst (canon_events a es)) (fst (canon_events b es))"
  by (induction es arbitrary: a b) (simp_all add: Let_def case_prod_beta same_fds_event)


definition canon_run :: "event list \<Rightarrow> canon_state" where
  "canon_run es = fst (canon_events canon_init es)"

lemma canon_run_append: "canon_run (xs @ ys) = fst (canon_events (canon_run xs) ys)"
  by (simp add: canon_run_def canon_events_append Let_def case_prod_beta)

lemma readonly_pair_same_fds:
  assumes "is_open (ev_sc en)" and "ev_phase en = ''enter''"
    and "\<not> write_intent (ev_sc en) (ev_args en)"
    and "is_open (ev_sc ex)" and "ev_phase ex = ''exit''" and "\<not> pending_write_open st"
  shows "same_fds (fst (canon_events st [en, ex])) st"
  using assms
  by (simp add: same_fds_def Let_def case_prod_beta track_open_def split: option.split)

text \<open>
  C18: an extra read-only open does not shift the descriptor numbering.  Inserting a
  read-only open (its enter and exit events) between two parts of a trace leaves the
  descriptor tables used for every later event, and so the descriptor each later event
  shows, as they were without it.
\<close>

theorem readonly_open_no_shift:
  assumes "is_open (ev_sc en)" and "ev_phase en = ''enter''"
    and "\<not> write_intent (ev_sc en) (ev_args en)"
    and "is_open (ev_sc ex)" and "ev_phase ex = ''exit''"
    and "\<not> pending_write_open (canon_run xs)"
  shows "fds (canon_run (xs @ [en, ex] @ ys)) = fds (canon_run (xs @ ys))
         \<and> carry_fd (canon_run (xs @ [en, ex] @ ys)) e = carry_fd (canon_run (xs @ ys)) e"
proof -
  have "same_fds (canon_run (xs @ [en, ex])) (canon_run xs)"
    unfolding canon_run_append by (rule readonly_pair_same_fds [OF assms])
  then have "same_fds (canon_run ((xs @ [en, ex]) @ ys)) (canon_run (xs @ ys))"
    unfolding canon_run_append by (rule same_fds_events)
  then have "fds (canon_run (xs @ [en, ex] @ ys)) = fds (canon_run (xs @ ys))"
    by (simp add: same_fds_def)
  then show ?thesis by (blast intro: carry_fd_cong)
qed

theorem readonly_open_no_shift_witness:
  "let en = mk_event ''enter'' ''openat'' [''0xffffff9c'', ''0x480013'', ''0x0'', ''0x0''];
       ex = (mk_event ''exit'' ''openat'' [''0xffffff9c'', ''0x480013'', ''0x0'', ''0x0''])
              \<lparr>ev_result := Some (JStr ''0x3'')\<rparr>;
       ys = [mk_event ''enter'' ''creat'' [''0x480013'', ''0x1b6''],
             (mk_event ''exit'' ''creat'' [''0x480013'', ''0x1b6''])\<lparr>ev_result := Some (JStr ''0x4'')\<rparr>];
       e = mk_event ''enter'' ''write'' [''0x4'', ''0x480100'', ''0x6'']
   in fds (canon_run ([] @ [en, ex] @ ys)) = fds (canon_run ([] @ ys))
      \<and> carry_fd (canon_run ([] @ [en, ex] @ ys)) e = carry_fd (canon_run ([] @ ys)) e"
  unfolding Let_def
proof (rule readonly_open_no_shift)
  show "\<not> write_intent
          (ev_sc (mk_event ''enter'' ''openat'' [''0xffffff9c'', ''0x480013'', ''0x0'', ''0x0'']))
          (ev_args (mk_event ''enter'' ''openat'' [''0xffffff9c'', ''0x480013'', ''0x0'', ''0x0'']))"
    by code_simp
qed (simp_all add: mk_event_def is_open_def OPEN_FLAGS_def canon_run_def canon_init_def)

text \<open>
  Standard descriptors are not exempt.  A guest that closes descriptor 1 and opens a
  file for writing gets descriptor 1 back, and its later writes to descriptor 1 are then
  renamed \<^verbatim>\<open>FD_0\<close>, although the canonicaliser's rules say that 0, 1 and 2 stay literal.
\<close>

lemma stdout_literal_renamed:
  "map ev_args (snd (canon_events canon_init
     [mk_event ''enter'' ''close'' [''0x1''],
      mk_event ''enter'' ''creat'' [''0x480013'', ''0x1b6''],
      (mk_event ''exit'' ''creat'' [''0x480013'', ''0x1b6''])\<lparr>ev_result := Some (JStr ''0x1'')\<rparr>,
      mk_event ''enter'' ''write'' [''0x1'', ''0x480100'', ''0x6'']]))
   = [[''0x1''], [''ADDR_0'', ''0x1b6''], [''ADDR_0'', ''0x1b6''], [''FD_0'', ''ADDR_1'', ''0x6'']]"
  by code_simp

end
