(* ===== verification/Param_Spec.thy ===== *)
theory Param_Spec
  imports Py_Values
begin

text \<open>
  \<^verbatim>\<open>src/src/reschema/driver/spec.py\<close>: the declared parameters.  \<^verbatim>\<open>Param.from_json\<close> checks the
  keys and the kind only, so what it builds is a \<^verbatim>\<open>raw_param\<close> whose other fields are still
  arbitrary JSON; the checker's \<^verbatim>\<open>_params\<close> (theory Function_Fuzz) checks their types, and a
  checked parameter is a \<^verbatim>\<open>param\<close>.  Texts of exceptions are abbreviated: they never embed the
  \<^verbatim>\<open>repr\<close> of the offending object.
\<close>

datatype kind = I32 | BufferI32 | CString

definition KINDS :: "string list" where
  "KINDS = [''i32'', ''buffer_i32'', ''cstring'']"

fun kind_text :: "kind \<Rightarrow> string" where
  "kind_text I32 = ''i32''"
| "kind_text BufferI32 = ''buffer_i32''"
| "kind_text CString = ''cstring''"

definition kind_of :: "string \<Rightarrow> kind option" where
  "kind_of s = map_of [(''i32'', I32), (''buffer_i32'', BufferI32), (''cstring'', CString)] s"

record raw_param =
  rp_name :: json
  rp_kind :: kind
  rp_length_param :: json
  rp_range :: "json \<times> json"
  rp_ret :: json

record param =
  p_name :: str
  p_kind :: kind
  p_length_param :: "str option"
  p_range :: "int \<times> int"
  p_ret :: string

definition DEFAULT_RANGE :: "int \<times> int" where
  "DEFAULT_RANGE = (- 100, 100)"

text \<open>\<^verbatim>\<open>r[i]\<close> on a JSON value, for a small non-negative index.\<close>

definition json_index :: "json \<Rightarrow> nat \<Rightarrow> json result" where
  "json_index r i =
     (case r of
        JList xs \<Rightarrow> if i < length xs then Inr (xs ! i) else Inl (IndexError ''list index out of range'')
      | JStr s \<Rightarrow> if i < str_len s then Inr (JStr (drop (length (str_take i s)) (str_take (Suc i) s)))
                  else Inl (IndexError ''string index out of range'')
      | JObj _ \<Rightarrow> Inl (KeyError (decn i))
      | _ \<Rightarrow> Inl (TypeError ''object is not subscriptable''))"

definition from_json :: "json dict \<Rightarrow> raw_param result" where
  "from_json d =
     (case (map_of d ''name'', map_of d ''kind'') of
        (None, _) \<Rightarrow> Inl (KeyError ''param spec missing key name'')
      | (_, None) \<Rightarrow> Inl (KeyError ''param spec missing key kind'')
      | (Some n, Some k) \<Rightarrow>
          (case (case k of JStr s \<Rightarrow> kind_of s | _ \<Rightarrow> None) of
             None \<Rightarrow> Inl (ValueError ''unknown param kind'')
           | Some kd \<Rightarrow>
               (let r = get_default d ''range'' (JList [JInt (fst DEFAULT_RANGE), JInt (snd DEFAULT_RANGE)])
                in bindE (json_index r 0) (\<lambda>lo. bindE (json_index r 1) (\<lambda>hi.
                   Inr \<lparr>rp_name = n, rp_kind = kd,
                        rp_length_param = get_default d ''length_param'' JNull,
                        rp_range = (lo, hi),
                        rp_ret = get_default d ''ret'' (JStr ''i32'')\<rparr>)))))"

definition to_json :: "param \<Rightarrow> json" where
  "to_json p = JObj
     [(''name'', JStr (p_name p)),
      (''kind'', JStr (kind_text (p_kind p))),
      (''length_param'', (case p_length_param p of None \<Rightarrow> JNull | Some l \<Rightarrow> JStr l)),
      (''range'', JList [JInt (fst (p_range p)), JInt (snd (p_range p))]),
      (''ret'', JStr (p_ret p))]"

text \<open>A raw parameter whose fields have the types the rest of the program relies on.\<close>

definition well_typed :: "raw_param \<Rightarrow> bool" where
  "well_typed r =
     (is_str (rp_name r) \<and> (rp_length_param r = JNull \<or> is_str (rp_length_param r))
      \<and> is_int (fst (rp_range r)) \<and> is_int (snd (rp_range r)) \<and> is_str (rp_ret r))"

definition typed :: "raw_param \<Rightarrow> param" where
  "typed r =
     \<lparr>p_name = as_str (rp_name r), p_kind = rp_kind r,
      p_length_param = (case rp_length_param r of JStr l \<Rightarrow> Some l | _ \<Rightarrow> None),
      p_range = (as_int (fst (rp_range r)), as_int (snd (rp_range r))),
      p_ret = as_str (rp_ret r)\<rparr>"

fun json_dict :: "json \<Rightarrow> json dict" where
  "json_dict (JObj d) = d"
| "json_dict _ = []"

lemma kind_of_text [simp]: "kind_of (kind_text k) = Some k"
  by (cases k) (simp_all add: kind_of_def)

lemma kind_of_KINDS: "kind_of s \<noteq> None \<longleftrightarrow> s \<in> set KINDS"
  by (auto simp: kind_of_def KINDS_def)

lemma from_json_KINDS:
  "from_json d = Inr r \<Longrightarrow> \<exists>s. map_of d ''kind'' = Some (JStr s) \<and> s \<in> set KINDS"
  using kind_of_KINDS by (fastforce simp: from_json_def split: option.splits json.splits)

lemma from_json_of_to_json:
  "\<exists>r. from_json (json_dict (to_json p)) = Inr r \<and> well_typed r \<and> typed r = p"
  by (cases "p_length_param p")
    (simp_all add: to_json_def from_json_def get_default_def json_index_def well_typed_def typed_def)

lemma mapE_from_json: "\<exists>rs. mapE (from_json \<circ> json_dict) (map to_json ps) = Inr rs \<and> map typed rs = ps"
proof (induction ps)
  case (Cons p ps)
  then show ?case using from_json_of_to_json [of p] by auto
qed simp

text \<open>
  The wire form of a parameter reads back as the parameter.  \<^verbatim>\<open>to_json\<close> elides no
  default, and \<^verbatim>\<open>from_json\<close> of it succeeds with every field of the right type and value, so
  the job and the accepted fact carry the declaration the checker judged.
\<close>

lemma from_json_to_json:
  "\<exists>r. from_json (json_dict (to_json p)) = Inr r \<and> well_typed r \<and> typed r = p"
  by (rule from_json_of_to_json)

end
