(* ===== verification/Disasm.thy ===== *)
theory Disasm
  imports Py_Values
begin

text \<open>
  \<^verbatim>\<open>src/src/reschema/disasm/analyze.py\<close>: the symbol table, the bounded disassembly of one
  function, and the heuristic facts (arity guess, returning hint, callees).  The ELF reader
  (pyelftools) and the disassembler (capstone) are parameters: \<^verbatim>\<open>elf_of\<close> gives the sections of
  a binary's bytes, \<^verbatim>\<open>disasm\<close> the instructions of a byte string placed at an address.
\<close>

section \<open>What the libraries deliver\<close>

datatype op_type = OpReg | OpImm | OpMem | OpOther

record operand =
  op_type :: op_type
  op_reg :: string
  op_imm :: int
  op_base :: "string option"
  op_read :: bool
  op_write :: bool

record insn =
  in_address :: int
  in_mnemonic :: string
  in_op_str :: string
  in_operands :: "operand list"
  in_jump :: bool
  in_ret :: bool

record elf_sym =
  sym_name :: str
  sym_value :: int
  sym_size :: int
  sym_type :: string

record elf =
  text_addr :: int
  text_data :: bytes
  elf_symbols :: "elf_sym list option"

record tools =
  elf_of :: "bytes \<Rightarrow> elf"
  disasm :: "bytes \<Rightarrow> int \<Rightarrow> insn list"

section \<open>Registers\<close>

definition BAREG_GROUPS :: "string list list" where
  "BAREG_GROUPS =
     [[''rdi'', ''edi'', ''di'', ''dil''], [''rsi'', ''esi'', ''si'', ''sil''],
      [''rdx'', ''edx'', ''dx'', ''dl''], [''rcx'', ''ecx'', ''cx'', ''cl''],
      [''r8'', ''r8d'', ''r8w'', ''r8b''], [''r9'', ''r9d'', ''r9w'', ''r9b'']]"

definition FAM_IDX :: "string \<Rightarrow> nat option" where
  "FAM_IDX r =
     map_of (concat (map (\<lambda>(i, g). map (\<lambda>n. (n, i)) g) (enumerate 0 BAREG_GROUPS))) r"

definition RAX :: "string list" where
  "RAX = [''rax'', ''eax'', ''ax'', ''al'', ''ah'']"

definition LABELED :: str where
  "LABELED = ''heuristic guess '' @ map char_of [226, 128, 148 :: nat]
             @ '' declare the falsifiable param spec yourself''"

section \<open>Symbols and instructions\<close>

definition symtab :: "tools \<Rightarrow> bytes \<Rightarrow> (int \<times> int) dict" where
  "symtab T b =
     (case elf_symbols (elf_of T b) of
        None \<Rightarrow> []
      | Some syms \<Rightarrow>
          fold (\<lambda>s d. if sym_type s = ''STT_FUNC'' then AList.update (sym_name s) (sym_value s, sym_size s) d
                      else d) syms [])"

definition function_insns :: "tools \<Rightarrow> bytes \<Rightarrow> int \<Rightarrow> int \<Rightarrow> insn list result" where
  "function_insns T b addr sz =
     (let base = text_addr (elf_of T b); data = text_data (elf_of T b);
          off = addr - base; n = int (length data)
      in if \<not> (0 \<le> off \<and> off < n) \<or> off + sz > n
         then Inl (ValueError ''outside .text'')
         else Inr (disasm T (drop (nat off) (take (nat (off + sz)) data)) addr))"

definition disasm_function :: "tools \<Rightarrow> bytes \<Rightarrow> int \<Rightarrow> int \<Rightarrow> str result" where
  "disasm_function T b addr sz =
     bindE (function_insns T b addr sz) (\<lambda>is.
       Inr (join [CHR 0x0A]
         (map (\<lambda>i. py_hex (in_address i) @ '':'' @ [CHR 0x09] @ in_mnemonic i @ [CHR 0x09] @ in_op_str i)
              is)))"

section \<open>Heuristics\<close>

text \<open>One operand of \<^verbatim>\<open>_direct_fams\<close>: the groups read and the groups written so far.\<close>

definition fam_operand :: "nat set \<times> nat set \<Rightarrow> operand \<Rightarrow> nat set \<times> nat set" where
  "fam_operand st op =
     (let (fam, written) = st in
      case op_type op of
        OpReg \<Rightarrow>
          (case FAM_IDX (op_reg op) of
             None \<Rightarrow> (fam, written)
           | Some f \<Rightarrow>
               (if op_read op \<and> \<not> op_write op \<and> f \<notin> written then insert f fam else fam,
                if op_write op then insert f written else written))
      | OpMem \<Rightarrow>
          (if op_read op then
             (case op_base op of
                None \<Rightarrow> (fam, written)
              | Some r \<Rightarrow>
                  (case FAM_IDX r of
                     None \<Rightarrow> (fam, written)
                   | Some f \<Rightarrow> (if f \<notin> written then insert f fam else fam, written)))
           else (fam, written))
      | _ \<Rightarrow> (fam, written))"

definition direct_fams :: "insn list \<Rightarrow> nat set \<times> nat set" where
  "direct_fams ii =
     fold (\<lambda>i st. fold (\<lambda>op st. fam_operand st op) (in_operands i) st)
       (takeWhile (\<lambda>i. in_mnemonic i \<noteq> ''call'') ii) ({}, {})"

definition call_targets :: "insn list \<Rightarrow> int list" where
  "call_targets ii =
     map (\<lambda>i. op_imm (hd (in_operands i)))
       (filter (\<lambda>i. in_mnemonic i = ''call'' \<and> in_operands i \<noteq> []
                    \<and> op_type (hd (in_operands i)) = OpImm) ii)"

text \<open>The writes of one instruction to the rax group, each with whether the instruction reads memory.\<close>

definition rax_writes :: "insn \<Rightarrow> (string \<times> bool) list" where
  "rax_writes i =
     map (\<lambda>op. (op_reg op, list_ex (\<lambda>o2. op_type o2 = OpMem \<and> op_read o2) (in_operands i)))
       (filter (\<lambda>op. op_type op = OpReg \<and> op_write op \<and> op_reg op \<in> set RAX) (in_operands i))"

text \<open>The loop over basic blocks: the instructions of the current block, and the answer so far.\<close>

fun ret_blocks :: "insn list \<Rightarrow> insn list \<Rightarrow> bool" where
  "ret_blocks block [] = False"
| "ret_blocks block (i # is) =
     (if in_jump i \<or> in_ret i then
        (in_mnemonic i = ''ret'' \<and> list_ex (\<lambda>i2. rax_writes i2 \<noteq> []) (block @ [i]))
        \<or> ret_blocks [] is
      else ret_blocks (block @ [i]) is)"

definition returns_hint :: "insn list \<Rightarrow> bool" where
  "returns_hint ii =
     (ret_blocks [] ii
      \<or> list_ex (\<lambda>i. list_ex (\<lambda>(n, has_mem). \<not> has_mem) (rax_writes i)) (take 4 ii))"

record fn_info =
  fi_addr :: int
  fi_size :: int

record facts =
  arity_guess :: nat
  fa_returns_hint :: bool
  callees :: "(str \<times> str option) list"
  labeled :: str

definition name_at :: "fn_info dict \<Rightarrow> int \<Rightarrow> str option" where
  "name_at fs a = map_of (rev (map (\<lambda>(n, f). (fi_addr f, n)) fs)) a"

text \<open>The facts of one function, given the instructions of every function of the binary.\<close>

definition facts_of :: "fn_info dict \<Rightarrow> insn list dict \<Rightarrow> insn list \<Rightarrow> facts" where
  "facts_of fs insns ii =
     (let (fam, written) = direct_fams ii;
          targets = call_targets ii;
          credit = (case targets of
                      [] \<Rightarrow> {}
                    | t # _ \<Rightarrow>
                        (case name_at fs t of
                           None \<Rightarrow> {}
                         | Some n \<Rightarrow>
                             (case map_of insns n of
                                None \<Rightarrow> {}
                              | Some ci \<Rightarrow> {f. f < card (fst (direct_fams ci)) \<and> f \<notin> written})))
      in \<lparr>arity_guess = card (fam \<union> credit), fa_returns_hint = returns_hint ii,
          callees = map (\<lambda>t. (py_hex t, name_at fs t)) targets, labeled = LABELED\<rparr>)"

definition analyze_function :: "tools \<Rightarrow> bytes \<Rightarrow> fn_info dict \<Rightarrow> facts dict result" where
  "analyze_function T b fs =
     bindE (mapE (\<lambda>(n, f). bindE (function_insns T b (fi_addr f) (fi_size f)) (\<lambda>ii. Inr (n, ii))) fs)
       (\<lambda>insns. Inr (map (\<lambda>(n, ii). (n, facts_of fs insns ii)) insns))"

section \<open>The arity guess fits the argument registers\<close>

lemma FAM_IDX_less: "FAM_IDX r = Some i \<Longrightarrow> i < 6"
  by (auto simp: FAM_IDX_def BAREG_GROUPS_def split: if_splits)

definition fams_bounded :: "nat set \<times> nat set \<Rightarrow> bool" where
  "fams_bounded st = (fst st \<subseteq> {..<6} \<and> snd st \<subseteq> {..<6})"

lemma fams_bounded_operand: "fams_bounded st \<Longrightarrow> fams_bounded (fam_operand st op)"
  by (auto simp: fams_bounded_def fam_operand_def Let_def split: prod.splits op_type.splits option.splits
      dest: FAM_IDX_less)

lemma fams_bounded_operands:
  "fams_bounded st \<Longrightarrow> fams_bounded (fold (\<lambda>op st. fam_operand st op) ops st)"
  by (induction ops arbitrary: st) (simp_all add: fams_bounded_operand)

lemma fams_bounded_insns:
  "fams_bounded st \<Longrightarrow>
   fams_bounded (fold (\<lambda>i st. fold (\<lambda>op st. fam_operand st op) (in_operands i) st) ii st)"
  by (induction ii arbitrary: st) (simp_all add: fams_bounded_operands)

lemma direct_fams_bounded: "fst (direct_fams ii) \<subseteq> {..<6}"
  using fams_bounded_insns [of "({}, {})" "takeWhile (\<lambda>i. in_mnemonic i \<noteq> ''call'') ii"]
  by (simp add: direct_fams_def fams_bounded_def)

lemma card_direct_fams: "card (fst (direct_fams ii)) \<le> 6"
  using card_mono [OF _ direct_fams_bounded [of ii]] by simp

lemma facts_of_arity: "arity_guess (facts_of fs insns ii) \<le> 6"
proof -
  define credit where
    "credit = (case call_targets ii of
                 [] \<Rightarrow> {}
               | t # _ \<Rightarrow>
                   (case name_at fs t of
                      None \<Rightarrow> {}
                    | Some n \<Rightarrow>
                        (case map_of insns n of
                           None \<Rightarrow> {}
                         | Some ci \<Rightarrow> {f. f < card (fst (direct_fams ci)) \<and> f \<notin> snd (direct_fams ii)})))"
  have "credit \<subseteq> {..<6}"
    using card_direct_fams
    by (auto simp: credit_def split: list.splits option.splits dest: less_le_trans)
  then have "fst (direct_fams ii) \<union> credit \<subseteq> {..<6}"
    using direct_fams_bounded by blast
  then have "card (fst (direct_fams ii) \<union> credit) \<le> card {..<6 :: nat}"
    by (intro card_mono) auto
  then show ?thesis
    by (simp add: facts_of_def Let_def case_prod_beta credit_def)
qed

lemma analyze_function_names:
  assumes "analyze_function T b fs = Inr out"
  shows "map fst out = map fst fs"
proof -
  obtain insns where
    i: "mapE (\<lambda>(n, f). bindE (function_insns T b (fi_addr f) (fi_size f)) (\<lambda>ii. Inr (n, ii))) fs = Inr insns"
    and o: "out = map (\<lambda>(n, ii). (n, facts_of fs insns ii)) insns"
    using assms by (auto simp: analyze_function_def bindE_Inr_iff)
  have "map fst insns = map fst fs"
    using mapE_Inr_list_all2 [OF i]
    by (induction rule: list_all2_induct) (auto simp: bindE_Inr_iff)
  then show ?thesis using o by (simp add: case_prod_beta comp_def)
qed

text \<open>
  The facts cover exactly the manifest's functions and never guess more arguments
  than the calling convention passes in registers, so a guessed signature is always one the
  driver can call.
\<close>

lemma analyze_function_arity:
  assumes "analyze_function T b fs = Inr out"
  shows "map fst out = map fst fs \<and> (\<forall>(n, f) \<in> set out. arity_guess f \<le> 6)"
  using analyze_function_names [OF assms] assms facts_of_arity
  by (auto simp: analyze_function_def bindE_Inr_iff)

end
