(* ===== verification/Py_Random.thy ===== *)
theory Py_Random
  imports Prelude "HOL-Library.Word" "HOL-Library.Stream"
begin

text \<open>
  \<^verbatim>\<open>random.Random\<close> as the sources use it (CPython 3.12).  The generator's state is the stream
  of 32-bit outputs it has still to deliver; which stream a seed gives is a parameter
  wherever a generator is created.  The methods on top of it are those of
  \<^verbatim>\<open>Lib/random.py\<close>: \<^verbatim>\<open>getrandbits\<close>, the rejection loop \<^verbatim>\<open>_randbelow\<close>, \<^verbatim>\<open>randrange\<close>, \<^verbatim>\<open>randint\<close>,
  \<^verbatim>\<open>choice\<close>, \<^verbatim>\<open>random\<close> and \<^verbatim>\<open>sample(range(n), 2)\<close>.

  The rejection loops are partial functions: \<^verbatim>\<open>None\<close> is a loop that never accepts a draw.
  A stream is \<^verbatim>\<open>fair\<close> when every word recurs in runs of four; on a fair stream every loop
  returns, and what is left of the stream is fair again.  The Mersenne Twister is
  equidistributed in 623 dimensions over its period, which gives such runs.
\<close>

section \<open>A monad of draws\<close>

type_synonym rng = "32 word stream"
type_synonym 'a draw = "rng \<Rightarrow> ('a result \<times> rng) option"

definition ret :: "'a \<Rightarrow> 'a draw" where
  "ret a s = Some (Inr a, s)"

definition raise :: "exn \<Rightarrow> 'a draw" where
  "raise e s = Some (Inl e, s)"

definition bind :: "'a draw \<Rightarrow> ('a \<Rightarrow> 'b draw) \<Rightarrow> 'b draw" where
  "bind m f s =
     (case m s of
        None \<Rightarrow> None
      | Some (Inl e, s') \<Rightarrow> Some (Inl e, s')
      | Some (Inr a, s') \<Rightarrow> f a s')"

text \<open>\<^verbatim>\<open>[m for _ in range(n)]\<close> and a loop over a list.\<close>

fun draw_list :: "nat \<Rightarrow> 'a draw \<Rightarrow> 'a list draw" where
  "draw_list 0 m = ret []"
| "draw_list (Suc n) m = bind m (\<lambda>x. bind (draw_list n m) (\<lambda>xs. ret (x # xs)))"

fun draw_fold :: "('b \<Rightarrow> 'a \<Rightarrow> 'b draw) \<Rightarrow> 'b \<Rightarrow> 'a list \<Rightarrow> 'b draw" where
  "draw_fold f b [] = ret b"
| "draw_fold f b (x # xs) = bind (f b x) (\<lambda>b'. draw_fold f b' xs)"

section \<open>Methods of \<^verbatim>\<open>random.Random\<close>\<close>

text \<open>\<^verbatim>\<open>_random.Random.getrandbits\<close>: whole words first, the last word shifted down.\<close>

fun getrandbits :: "nat \<Rightarrow> rng \<Rightarrow> nat \<times> rng" where
  "getrandbits k s =
     (if k = 0 then (0, s)
      else if k \<le> 32 then (unat (drop_bit (32 - k) (shd s)), stl s)
      else (let (hi, s') = getrandbits (k - 32) (stl s) in (unat (shd s) + 2 ^ 32 * hi, s')))"

declare getrandbits.simps [simp del]

text \<open>\<^verbatim>\<open>int.bit_length\<close>.\<close>

fun bit_length :: "nat \<Rightarrow> nat" where
  "bit_length n = (if n = 0 then 0 else Suc (bit_length (n div 2)))"

declare bit_length.simps [simp del]

partial_function (option) randbelow_loop :: "nat \<Rightarrow> nat \<Rightarrow> rng \<Rightarrow> (nat \<times> rng) option" where
  "randbelow_loop k n s =
     (let (r, s') = getrandbits k s in if r < n then Some (r, s') else randbelow_loop k n s')"

definition randbelow :: "nat \<Rightarrow> nat draw" where
  "randbelow n s = map_option (\<lambda>(r, s'). (Inr r, s')) (randbelow_loop (bit_length n) n s)"

definition randrange :: "int \<Rightarrow> int \<Rightarrow> int draw" where
  "randrange start stop =
     (if start < stop then bind (randbelow (nat (stop - start))) (\<lambda>r. ret (start + int r))
      else raise (ValueError ''empty range in randrange''))"

definition randint :: "int \<Rightarrow> int \<Rightarrow> int draw" where
  "randint a b = randrange a (b + 1)"

definition choice :: "'a list \<Rightarrow> 'a draw" where
  "choice xs =
     (if xs = [] then raise (IndexError ''Cannot choose from an empty sequence'')
      else bind (randbelow (length xs)) (\<lambda>i. ret (xs ! i)))"

text \<open>
  \<^verbatim>\<open>random()\<close> is an integer below \<^verbatim>\<open>2 ** 53\<close> scaled by \<^verbatim>\<open>2 ** -53\<close>; the draw returns the integer,
  and the comparisons below are those with the doubles 0.15, 0.18 and 0.6.
\<close>

definition random53 :: "nat draw" where
  "random53 s =
     (let a = unat (drop_bit 5 (shd s)); b = unat (drop_bit 6 (shd (stl s)))
      in Some (Inr (a * 67108864 + b), stl (stl s)))"

definition below_0_6 :: "nat \<Rightarrow> bool" where
  "below_0_6 x = (x < 5404319552844595)"

definition below_0_15 :: "nat \<Rightarrow> bool" where
  "below_0_15 x = (4 * x < 5404319552844595)"

definition below_0_18 :: "nat \<Rightarrow> bool" where
  "below_0_18 x = (4 * x < 6485183463413514)"

text \<open>
  \<^verbatim>\<open>sample(range(n), 2)\<close>: a pool of the whole range up to 21 elements, a set of
  selected indices beyond.
\<close>

partial_function (option) redraw :: "nat \<Rightarrow> nat \<Rightarrow> rng \<Rightarrow> (nat \<times> rng) option" where
  "redraw n j s =
     Option.bind (randbelow_loop (bit_length n) n s)
       (\<lambda>(k, s'). if k = j then redraw n j s' else Some (k, s'))"

definition sample2 :: "nat \<Rightarrow> (nat \<times> nat) draw" where
  "sample2 n =
     (if n < 2 then raise (ValueError ''Sample larger than population or is negative'')
      else if n \<le> 21 then
        bind (randbelow n) (\<lambda>i. bind (randbelow (n - 1)) (\<lambda>j.
          ret (i, ([0..<n][i := n - 1]) ! j)))
      else
        bind (randbelow n) (\<lambda>i. bind (\<lambda>s. map_option (\<lambda>(k, s'). (Inr k, s')) (redraw n i s)) (\<lambda>j.
          ret (i, j))))"

section \<open>Weakest preconditions of draws\<close>

text \<open>
  \<^verbatim>\<open>yields m P\<close>: whenever \<^verbatim>\<open>m\<close> returns, it returns a value and the value satisfies \<^verbatim>\<open>P\<close> (no
  exception).  \<^verbatim>\<open>returns m\<close>: on a fair stream \<^verbatim>\<open>m\<close> returns and leaves a fair stream.
\<close>

definition yields :: "'a draw \<Rightarrow> ('a \<Rightarrow> bool) \<Rightarrow> bool" where
  "yields m P = (\<forall>s r s'. m s = Some (r, s') \<longrightarrow> (\<exists>a. r = Inr a \<and> P a))"

definition fair :: "rng \<Rightarrow> bool" where
  "fair s = (\<forall>w i. \<exists>j \<ge> i. \<forall>d < 4. s !! (j + d) = w)"

definition returns :: "'a draw \<Rightarrow> bool" where
  "returns m = (\<forall>s. fair s \<longrightarrow> (\<exists>r s'. m s = Some (r, s') \<and> fair s'))"

lemma yields_mono: "yields m P \<Longrightarrow> (\<And>a. P a \<Longrightarrow> Q a) \<Longrightarrow> yields m Q"
  by (fastforce simp: yields_def)

lemma yields_ret [intro]: "P a \<Longrightarrow> yields (ret a) P"
  by (simp add: yields_def ret_def)

lemma yields_bind:
  assumes "yields m Q" and "\<And>a. Q a \<Longrightarrow> yields (f a) P"
  shows "yields (bind m f) P"
  using assms by (fastforce simp: yields_def bind_def split: option.splits sum.splits)

lemma yields_draw_list:
  "yields m P \<Longrightarrow> yields (draw_list n m) (\<lambda>xs. length xs = n \<and> list_all P xs)"
proof (induction n)
  case (Suc n)
  show ?case
    unfolding draw_list.simps
    by (rule yields_bind [OF Suc.prems], rule yields_bind [OF Suc.IH [OF Suc.prems]])
      (auto intro!: yields_ret)
qed (auto intro!: yields_ret)

lemma yields_draw_fold:
  assumes "\<And>b x. Q b \<Longrightarrow> x \<in> set xs \<Longrightarrow> yields (f b x) Q" and "Q b"
  shows "yields (draw_fold f b xs) Q"
  using assms
proof (induction xs arbitrary: b)
  case (Cons x xs)
  show ?case
    unfolding draw_fold.simps
    by (rule yields_bind [of _ Q]) (use Cons in auto)
qed (auto intro!: yields_ret)

lemma returns_ret [intro]: "returns (ret a)"
  by (simp add: returns_def ret_def)

lemma returns_raise [intro]: "returns (raise e)"
  by (simp add: returns_def raise_def)

lemma returns_bind:
  assumes "returns m" and "\<And>a. returns (f a)"
  shows "returns (bind m f)"
  unfolding returns_def
proof (intro allI impI)
  fix s assume "fair s"
  then obtain r s1 where m: "m s = Some (r, s1)" and f1: "fair s1"
    using assms(1) by (auto simp: returns_def)
  show "\<exists>r s'. bind m f s = Some (r, s') \<and> fair s'"
    using m f1 assms(2) by (cases r) (auto simp: bind_def returns_def)
qed

lemma returns_bind_yields:
  assumes "returns m" and "yields m Q" and "\<And>a. Q a \<Longrightarrow> returns (f a)"
  shows "returns (bind m f)"
  unfolding returns_def
proof (intro allI impI)
  fix s :: rng assume "fair s"
  with assms(1) obtain r s' where r: "m s = Some (r, s')" "fair s'" unfolding returns_def by blast
  with assms(2) obtain a where "r = Inr a" "Q a" unfolding yields_def by blast
  with r assms(3) show "\<exists>r s'. bind m f s = Some (r, s') \<and> fair s'"
    unfolding returns_def by (simp add: bind_def)
qed

lemma returns_draw_list [intro]: "returns m \<Longrightarrow> returns (draw_list n m)"
  by (induction n) (auto intro!: returns_bind)

lemma returns_draw_fold [intro]:
  "(\<And>b x. x \<in> set xs \<Longrightarrow> returns (f b x)) \<Longrightarrow> returns (draw_fold f b xs)"
  by (induction xs arbitrary: b) (auto intro!: returns_bind)


section \<open>The rejection loop\<close>

lemma bit_length_le: "n < 2 ^ m \<Longrightarrow> bit_length n \<le> m"
proof (induction m arbitrary: n)
  case 0
  then show ?case by (simp add: bit_length.simps)
next
  case (Suc m)
  then have "n div 2 < 2 ^ m" by simp
  then show ?case using Suc.IH by (subst bit_length.simps) auto
qed

lemma bit_length_pos: "0 < n \<Longrightarrow> 0 < bit_length n"
  by (subst bit_length.simps) simp

definition blocks :: "nat \<Rightarrow> nat" where
  "blocks k = (if k \<le> 32 then 1 else 2)"

lemma getrandbits_small:
  "0 < k \<Longrightarrow> k \<le> 32 \<Longrightarrow> getrandbits k s = (unat (drop_bit (32 - k) (shd s)), stl s)"
  by (subst getrandbits.simps) simp

lemma getrandbits_big:
  assumes "32 < k" and "k \<le> 64"
  shows "getrandbits k s
         = (unat (shd s) + 2 ^ 32 * unat (drop_bit (64 - k) (shd (stl s))), stl (stl s))"
proof -
  have "getrandbits (k - 32) (stl s) = (unat (drop_bit (64 - k) (shd (stl s))), stl (stl s))"
    using assms getrandbits_small [of "k - 32" "stl s"] by simp
  then show ?thesis
    using assms by (subst getrandbits.simps) simp
qed

lemma getrandbits_snd:
  assumes "0 < k" and "k \<le> 64"
  shows "snd (getrandbits k s) = sdrop (blocks k) s"
  using assms
  by (cases "k \<le> 32") (simp_all add: getrandbits_small getrandbits_big blocks_def numeral_2_eq_2)

lemma randbelow_loop_bounded:
  assumes "0 < k" and "k \<le> 64"
    and "fst (getrandbits k (sdrop (blocks k * i) s)) < n"
  shows "\<exists>b r. randbelow_loop k n s = Some (r, sdrop (blocks k * b) s) \<and> 1 \<le> b \<and> b \<le> Suc i
           \<and> (b = Suc i \<longrightarrow> r = fst (getrandbits k (sdrop (blocks k * i) s)))"
  using assms(3)
proof (induction i arbitrary: s)
  case 0
  then have "randbelow_loop k n s = Some (fst (getrandbits k s), sdrop (blocks k * 1) s)"
    using getrandbits_snd [OF assms(1,2), of s]
    by (subst randbelow_loop.simps) (simp add: case_prod_beta)
  then show ?case by force
next
  case (Suc i)
  let ?c = "blocks k"
  have unfold: "randbelow_loop k n s =
      (if fst (getrandbits k s) < n then Some (fst (getrandbits k s), sdrop ?c s)
       else randbelow_loop k n (sdrop ?c s))"
    using getrandbits_snd [OF assms(1,2), of s]
    by (subst randbelow_loop.simps) (simp add: case_prod_beta)
  show ?case
  proof (cases "fst (getrandbits k s) < n")
    case True
    then have "randbelow_loop k n s = Some (fst (getrandbits k s), sdrop (?c * 1) s)"
      using unfold by simp
    then show ?thesis by force
  next
    case False
    have shift: "sdrop (?c * i) (sdrop ?c s) = sdrop (?c * Suc i) s" for i
      by (simp add: sdrop_add add.commute)
    obtain b r where b: "randbelow_loop k n (sdrop ?c s) = Some (r, sdrop (?c * b) (sdrop ?c s))"
        "1 \<le> b" "b \<le> Suc i" "b = Suc i \<longrightarrow> r = fst (getrandbits k (sdrop (?c * Suc i) s))"
      using Suc.IH [of "sdrop ?c s"] Suc.prems shift by auto
    then have "randbelow_loop k n s = Some (r, sdrop (?c * Suc b) s)"
      using False unfold shift by simp
    with b show ?thesis by (intro exI [of _ "Suc b"] exI [of _ r]) simp
  qed
qed

lemma randbelow_loop_less: "randbelow_loop k n s = Some (r, s') \<Longrightarrow> r < n"
proof -
  assume h: "randbelow_loop k n s = Some (r, s')"
  have "case (r, s') of (r, s') \<Rightarrow> r < n"
    by (rule randbelow_loop.raw_induct [where P = "\<lambda>k n s rs. case rs of (r, s') \<Rightarrow> r < n", OF _ h])
      (auto simp: Let_def case_prod_beta split: if_splits)
  then show ?thesis by simp
qed

lemma yields_randbelow: "yields (randbelow n) (\<lambda>r. r < n)"
  by (auto simp: yields_def randbelow_def dest: randbelow_loop_less)

section \<open>Fair streams\<close>

lemma fair_sdrop: "fair s \<Longrightarrow> fair (sdrop n s)"
  unfolding fair_def
proof (intro allI)
  fix w i
  assume "\<forall>w i. \<exists>j\<ge>i. \<forall>d<4. s !! (j + d) = w"
  then obtain j where j: "i + n \<le> j" "\<forall>d<4. s !! (j + d) = w" by blast
  then have "\<forall>d<4. sdrop n s !! (j - n + d) = w"
    by (simp add: sdrop_snth)
  with j(1) show "\<exists>j\<ge>i. \<forall>d<4. sdrop n s !! (j + d) = w"
    by (intro exI [of _ "j - n"]) simp
qed

lemma fair_block:
  assumes "fair s"
  shows "\<exists>i. shd (sdrop (blocks k * i) s) = w \<and> shd (stl (sdrop (blocks k * i) s)) = w"
proof -
  obtain j where j: "\<forall>d<4. s !! (j + d) = w"
    using assms unfolding fair_def by blast
  define i where "i = (if k \<le> 32 then j else (j + 1) div 2)"
  have "blocks k * i = j \<or> blocks k * i = j + 1"
    by (auto simp: blocks_def i_def)
  then have "s !! (blocks k * i) = w \<and> s !! (blocks k * i + 1) = w"
    using j [rule_format, of 0] j [rule_format, of 1] j [rule_format, of 2] by auto
  moreover have "shd (sdrop m s) = s !! m" and "shd (stl (sdrop m s)) = s !! (m + 1)" for m
    by (simp_all only: sdrop_simps Suc_eq_plus1)
  ultimately show ?thesis by metis
qed

lemma getrandbits_zero:
  "shd s = 0 \<Longrightarrow> shd (stl s) = 0 \<Longrightarrow> 0 < k \<Longrightarrow> k \<le> 64 \<Longrightarrow> fst (getrandbits k s) = 0"
  by (cases "k \<le> 32") (simp_all add: getrandbits_small getrandbits_big)

lemma randbelow_loop_returns:
  assumes "fair s" and "0 < n" and "n \<le> 2 ^ 32"
  shows "\<exists>r s'. randbelow_loop (bit_length n) n s = Some (r, s') \<and> fair s'"
proof -
  let ?k = "bit_length n"
  have "n < 2 ^ 33" using assms(3) by simp
  then have k: "0 < ?k" "?k \<le> 64"
    using bit_length_pos [OF assms(2)] bit_length_le [of n 33] by simp_all
  obtain i where "shd (sdrop (blocks ?k * i) s) = 0" "shd (stl (sdrop (blocks ?k * i) s)) = 0"
    using fair_block [OF assms(1)] by blast
  then have "fst (getrandbits ?k (sdrop (blocks ?k * i) s)) < n"
    using getrandbits_zero [OF _ _ k] assms(2) by simp
  then show ?thesis
    using randbelow_loop_bounded [OF k] fair_sdrop [OF assms(1)] by blast
qed

lemma returns_randbelow:
  assumes "0 < n" and "n \<le> 2 ^ 32"
  shows "returns (randbelow n)"
  unfolding returns_def
proof (intro allI impI)
  fix s assume "fair s"
  then obtain r s' where "randbelow_loop (bit_length n) n s = Some (r, s')" and "fair s'"
    using randbelow_loop_returns assms by blast
  then show "\<exists>r s'. randbelow n s = Some (r, s') \<and> fair s'"
    by (simp add: randbelow_def)
qed


section \<open>The contract the derived methods rest on\<close>

text \<open>
  \<^verbatim>\<open>randrange\<close> and \<^verbatim>\<open>choice\<close> use nothing of the generator but \<^verbatim>\<open>_randbelow\<close>; the locale states
  what they need of it and proves their laws once.
\<close>

locale uniform_source =
  fixes below :: "nat \<Rightarrow> nat draw"
  assumes below_yields: "yields (below n) (\<lambda>r. r < n)"
    and below_returns: "0 < n \<Longrightarrow> n \<le> 2 ^ 32 \<Longrightarrow> returns (below n)"
begin

lemma offset_yields:
  "lo < hi \<Longrightarrow>
   yields (bind (below (nat (hi - lo))) (\<lambda>r. ret (lo + int r))) (\<lambda>x. lo \<le> x \<and> x < hi)"
  by (rule yields_bind [OF below_yields]) (auto intro!: yields_ret)

lemma offset_returns:
  "lo < hi \<Longrightarrow> hi - lo \<le> 2 ^ 32 \<Longrightarrow> returns (bind (below (nat (hi - lo))) (\<lambda>r. ret (lo + int r)))"
  by (rule returns_bind [OF below_returns]) auto

lemma pick_yields:
  "yields (bind (below (length xs)) (\<lambda>i. ret (xs ! i))) (\<lambda>x. x \<in> set xs)"
  by (rule yields_bind [OF below_yields]) (auto intro!: yields_ret)

lemma pick_returns:
  "xs \<noteq> [] \<Longrightarrow> length xs \<le> 2 ^ 32 \<Longrightarrow> returns (bind (below (length xs)) (\<lambda>i. ret (xs ! i)))"
  by (rule returns_bind [OF below_returns]) auto

end

interpretation us: uniform_source randbelow
  by unfold_locales (simp_all add: yields_randbelow returns_randbelow)

lemma yields_randrange: "lo < hi \<Longrightarrow> yields (randrange lo hi) (\<lambda>x. lo \<le> x \<and> x < hi)"
  using us.offset_yields [of lo hi] by (simp add: randrange_def)

lemma returns_randrange: "hi - lo \<le> 2 ^ 32 \<Longrightarrow> returns (randrange lo hi)"
  using us.offset_returns [of lo hi] by (auto simp: randrange_def)

lemma yields_randint: "lo \<le> hi \<Longrightarrow> yields (randint lo hi) (\<lambda>x. lo \<le> x \<and> x \<le> hi)"
  using yields_mono [OF yields_randrange [of lo "hi + 1"]] by (simp add: randint_def)

lemma returns_randint: "hi - lo < 2 ^ 32 \<Longrightarrow> returns (randint lo hi)"
  by (simp add: randint_def returns_randrange)

lemma yields_choice: "xs \<noteq> [] \<Longrightarrow> yields (choice xs) (\<lambda>x. x \<in> set xs)"
  using us.pick_yields [of xs] by (simp add: choice_def)

lemma returns_choice: "length xs \<le> 2 ^ 32 \<Longrightarrow> returns (choice xs)"
  using us.pick_returns [of xs] by (auto simp: choice_def)

lemma drop_bit_word_bound:
  fixes w :: "32 word"
  assumes "n \<le> 32"
  shows "unat (drop_bit n w) < 2 ^ (32 - n)"
proof -
  have "unat w < 2 ^ n * 2 ^ (32 - n)"
    using unsigned_less [of w, where 'a = nat] assms by (simp flip: power_add)
  then show ?thesis
    unfolding unat_drop_bit_eq
    by (simp add: drop_bit_eq_div [of n "unat w"] less_mult_imp_div_less mult.commute)
qed

lemma yields_random53: "yields random53 (\<lambda>x. x < 2 ^ 53)"
proof -
  have "unat (drop_bit 5 v) * 67108864 + unat (drop_bit 6 w) < 2 ^ 53" for v w :: "32 word"
    using drop_bit_word_bound [of 5 v] drop_bit_word_bound [of 6 w] by simp
  then show ?thesis by (auto simp: yields_def random53_def Let_def)
qed

lemma returns_random53: "returns random53"
proof -
  have "stl (stl s) = sdrop 2 s" for s :: rng by (simp add: numeral_2_eq_2)
  then show ?thesis by (auto simp: returns_def random53_def Let_def intro: fair_sdrop)
qed

section \<open>\<^verbatim>\<open>sample(range(n), 2)\<close>\<close>

lemma redraw_bounds: "redraw n j s = Some (k, s') \<Longrightarrow> k < n \<and> k \<noteq> j"
proof -
  assume h: "redraw n j s = Some (k, s')"
  have "case (k, s') of (k, s') \<Rightarrow> k < n \<and> k \<noteq> j"
    by (rule redraw.raw_induct [where P = "\<lambda>n j s ks. case ks of (k, s') \<Rightarrow> k < n \<and> k \<noteq> j", OF _ h])
      (fastforce simp: bind_eq_Some_conv split: if_splits prod.splits dest: randbelow_loop_less)
  then show ?thesis by simp
qed

lemma redraw_returns_at:
  assumes "2 \<le> n" and "n < 2 ^ 32"
    and "fst (getrandbits (bit_length n) (sdrop i s)) < n"
    and "fst (getrandbits (bit_length n) (sdrop i s)) \<noteq> j"
  shows "\<exists>k m. redraw n j s = Some (k, sdrop m s)"
  using assms(3,4)
proof (induction i arbitrary: s rule: less_induct)
  case (less i)
  let ?k = "bit_length n"
  have k: "0 < ?k" "?k \<le> 64" "blocks ?k = 1"
    using assms(1,2) bit_length_pos [of n] bit_length_le [of n 32] by (auto simp: blocks_def)
  obtain b r where b: "randbelow_loop ?k n s = Some (r, sdrop b s)" "1 \<le> b" "b \<le> Suc i"
      "b = Suc i \<longrightarrow> r = fst (getrandbits ?k (sdrop i s))"
    using randbelow_loop_bounded [OF k(1,2), of i s n] less.prems(1) k(3) by auto
  have unfold: "redraw n j s = (if r = j then redraw n j (sdrop b s) else Some (r, sdrop b s))"
    by (subst redraw.simps) (simp add: b(1))
  show ?case
  proof (cases "r = j")
    case False
    then show ?thesis using unfold by auto
  next
    case True
    then have "b \<le> i" using b less.prems(2) by (cases "b = Suc i") auto
    then have "sdrop (i - b) (sdrop b s) = sdrop i s" by (simp add: sdrop_add)
    then obtain k m where "redraw n j (sdrop b s) = Some (k, sdrop m (sdrop b s))"
      using less.IH [of "i - b" "sdrop b s"] less.prems b(2) \<open>b \<le> i\<close> by auto
    then show ?thesis using unfold True by (auto simp: sdrop_add)
  qed
qed

lemma getrandbits_hits:
  assumes "0 < k" and "k \<le> 32" and "shd s = push_bit (32 - k) v" and "v \<in> {0, 1}"
  shows "fst (getrandbits k s) = unat v"
proof -
  have "drop_bit (32 - k) (push_bit (32 - k) (1 :: 32 word)) = 1"
    using assms(1) by (intro bit_word_eqI) (auto simp: bit_simps)
  with assms show ?thesis by (auto simp: getrandbits_small)
qed

lemma redraw_returns:
  assumes "fair s" and "2 \<le> n" and "n < 2 ^ 32"
  shows "\<exists>k s'. redraw n j s = Some (k, s') \<and> fair s'"
proof -
  let ?k = "bit_length n"
  let ?v = "if j = 0 then 1 else 0 :: 32 word"
  have k: "0 < ?k" "?k \<le> 32"
    using assms(2,3) bit_length_pos [of n] bit_length_le [of n 32] by auto
  obtain i where "shd (sdrop i s) = push_bit (32 - ?k) ?v"
    using fair_block [OF assms(1), of ?k] k by (fastforce simp: blocks_def)
  then have "fst (getrandbits ?k (sdrop i s)) = unat ?v"
    by (intro getrandbits_hits [OF k]) auto
  then have "\<exists>k m. redraw n j s = Some (k, sdrop m s)"
    using assms(2) by (intro redraw_returns_at [OF assms(2,3), of i]) auto
  then show ?thesis using fair_sdrop [OF assms(1)] by blast
qed

lemma yields_redraw:
  "yields (\<lambda>s. map_option (\<lambda>(k, s'). (Inr k, s')) (redraw n i s)) (\<lambda>k. k < n \<and> k \<noteq> i)"
  by (auto simp: yields_def dest: redraw_bounds)

lemma pool_second:
  assumes "i < n" and "j < n - 1"
  shows "[0..<n][i := n - 1] ! j < n \<and> [0..<n][i := n - 1] ! j \<noteq> i"
  using assms by (cases "i = j") (auto simp: nth_list_update)

lemma yields_sample2:
  assumes "2 \<le> n"
  shows "yields (sample2 n) (\<lambda>(i, j). i < n \<and> j < n \<and> i \<noteq> j)"
proof (cases "n \<le> 21")
  case True
  have "yields (bind (randbelow n) (\<lambda>i. bind (randbelow (n - 1)) (\<lambda>j. ret (i, ([0..<n][i := n - 1]) ! j))))
          (\<lambda>(i, j). i < n \<and> j < n \<and> i \<noteq> j)"
    by (rule yields_bind [OF yields_randbelow], rule yields_bind [OF yields_randbelow])
      (use pool_second in \<open>fastforce intro!: yields_ret\<close>)
  with True assms show ?thesis by (simp add: sample2_def)
next
  case False
  have "yields (bind (randbelow n) (\<lambda>i. bind (\<lambda>s. map_option (\<lambda>(k, s'). (Inr k, s')) (redraw n i s)) (\<lambda>j. ret (i, j))))
          (\<lambda>(i, j). i < n \<and> j < n \<and> i \<noteq> j)"
    by (rule yields_bind [OF yields_randbelow], rule yields_bind [OF yields_redraw])
      (auto intro!: yields_ret)
  with False assms show ?thesis by (simp add: sample2_def)
qed

lemma returns_redraw:
  assumes "2 \<le> n" and "n < 2 ^ 32"
  shows "returns (\<lambda>s. map_option (\<lambda>(k, s'). (Inr k :: nat result, s')) (redraw n i s))"
  unfolding returns_def
proof (intro allI impI)
  fix s assume "fair s"
  then obtain k s' where "redraw n i s = Some (k, s')" and "fair s'"
    using redraw_returns assms by blast
  then show "\<exists>r s'. map_option (\<lambda>(k, s'). (Inr k :: nat result, s')) (redraw n i s) = Some (r, s') \<and> fair s'"
    by simp
qed

lemma returns_sample2: "n < 2 ^ 32 \<Longrightarrow> returns (sample2 n)"
  unfolding sample2_def
  by (auto intro!: returns_bind returns_randbelow returns_redraw)

section \<open>A fair stream\<close>

definition ramp :: rng where
  "ramp = smap (\<lambda>i. of_nat (i div 4)) nats"

lemma ramp_snth: "ramp !! n = of_nat (n div 4)"
  by (simp add: ramp_def)

lemma fair_ramp: "fair ramp"
  unfolding fair_def
proof (intro allI)
  fix w :: "32 word" and i :: nat
  let ?j = "4 * (unat w + 2 ^ 32 * i)"
  have "ramp !! (?j + d) = w" if "d < 4" for d
  proof -
    have "(?j + d) div 4 = unat w + 2 ^ 32 * i" using that by simp
    then have "ramp !! (?j + d) = of_nat (unat w + 2 ^ 32 * i)" by (simp add: ramp_snth)
    also have "\<dots> = of_nat (unat w) + of_nat (2 ^ 32) * of_nat i"
      by (simp only: of_nat_add of_nat_mult)
    also have "(of_nat (2 ^ 32) :: 32 word) = 0"
      by (simp add: word_of_nat_eq_0_iff)
    finally have ?thesis by simp
    then show ?thesis .
  qed
  moreover have "i \<le> ?j" by simp
  ultimately show "\<exists>j\<ge>i. \<forall>d<4. ramp !! (j + d) = w" by blast
qed

end
