(* ===== verification/Calling.thy ===== *)
theory Calling
  imports Param_Spec Recorder Disasm Py_Random
begin

text \<open>
  \<^verbatim>\<open>src/src/reschema/driver/calling.py\<close>: fuzz inputs, marshalling, one call of the original
  function in the emulator, and the batched and fresh-VM routes.  The emulator's API is the
  parameter record \<^verbatim>\<open>qiling\<close>; its state \<^verbatim>\<open>'vm\<close> is abstract, a VM is created from the
  binary's bytes and the state of the outside world, and a snapshot has its own type.
\<close>

section \<open>Cases and traces\<close>

datatype cval = VInt int | VBytes bytes | VList "int list"

type_synonym case_in = "cval dict"

record fn_trace =
  ft_ret :: int
  ft_mem :: "cval dict"
  ft_exit_code :: int
  ft_events :: "event list"
  ft_batch_mode :: "string option"

definition SENTINEL :: int where "SENTINEL = 16777216"
definition BAREGS :: "string list" where
  "BAREGS = [''rdi'', ''rsi'', ''rdx'', ''rcx'', ''r8'', ''r9'']"
definition TIMEOUT_US :: nat where "TIMEOUT_US = 3000000"
definition SYSCALL_MNEMONICS :: "string list" where
  "SYSCALL_MNEMONICS = [''syscall'', ''sysenter'']"

text \<open>Exceptions of a run: the class name, the message, and for a \<^verbatim>\<open>UcError\<close> its errno by name.\<close>

record run_exn =
  rx_type :: string
  rx_msg :: string
  rx_errno :: "string option"

definition MEM_FAULT_ERRNOS :: "string list" where
  "MEM_FAULT_ERRNOS =
     [''UC_ERR_'' @ op @ ''_'' @ why.
        op \<leftarrow> [''READ'', ''WRITE'', ''FETCH''], why \<leftarrow> [''UNMAPPED'', ''PROT'', ''UNALIGNED'']]"

definition is_mem_fault_exc :: "run_exn \<Rightarrow> bool" where
  "is_mem_fault_exc e = (case rx_errno e of None \<Rightarrow> False | Some n \<Rightarrow> n \<in> set MEM_FAULT_ERRNOS)"

definition guard_arity :: "param list \<Rightarrow> unit result" where
  "guard_arity ps =
     (if length ps > length BAREGS then Inl (NotImplementedError ''stack args unsupported'') else Inr ())"

section \<open>\<^verbatim>\<open>gen_inputs\<close>\<close>

text \<open>First pass: the scalars.\<close>

definition gen_scalar :: "case_in \<Rightarrow> param \<Rightarrow> case_in draw" where
  "gen_scalar c p =
     (if p_kind p = I32
      then bind (randint (fst (p_range p)) (snd (p_range p))) (\<lambda>v. ret (AList.update (p_name p) (VInt v) c))
      else ret c)"

text \<open>
  Second pass: strings and buffers.  The default length of a buffer is drawn whether or not
  it is used, as the argument of \<^verbatim>\<open>case.get\<close>.
\<close>

definition gen_memory :: "case_in \<Rightarrow> param \<Rightarrow> case_in draw" where
  "gen_memory c p =
     (case p_kind p of
        I32 \<Rightarrow> ret c
      | CString \<Rightarrow>
          bind (randint 0 16) (\<lambda>ln.
          bind (draw_list (nat ln) (randint 97 122)) (\<lambda>bs.
            ret (AList.update (p_name p) (VBytes (map (\<lambda>b. char_of (nat b)) bs @ [CHR 0x00])) c)))
      | BufferI32 \<Rightarrow>
          bind (randint 1 8) (\<lambda>d.
            (case Option.bind (p_length_param p) (map_of c) of
               None \<Rightarrow> bind (draw_list (nat d) (randint (fst (p_range p)) (snd (p_range p))))
                         (\<lambda>xs. ret (AList.update (p_name p) (VList xs) c))
             | Some (VInt ln) \<Rightarrow>
                 bind (draw_list (nat ln) (randint (fst (p_range p)) (snd (p_range p))))
                   (\<lambda>xs. ret (AList.update (p_name p) (VList xs) c))
             | Some _ \<Rightarrow> raise (TypeError ''object cannot be interpreted as an integer''))))"

definition gen_case :: "param list \<Rightarrow> case_in draw" where
  "gen_case ps = bind (draw_fold gen_scalar [] ps) (\<lambda>c. draw_fold gen_memory c ps)"

definition gen_inputs :: "param list \<Rightarrow> nat \<Rightarrow> case_in list draw" where
  "gen_inputs ps n = draw_list n (gen_case ps)"

section \<open>Little-endian i32 cells\<close>

definition i32_ok :: "int \<Rightarrow> bool" where
  "i32_ok x = (- (2 ^ 31) \<le> x \<and> x < 2 ^ 31)"

definition c_int32 :: "int \<Rightarrow> int" where
  "c_int32 x = (x + 2 ^ 31) mod 2 ^ 32 - 2 ^ 31"

definition pack_i32 :: "int \<Rightarrow> bytes" where
  "pack_i32 x =
     (let u = nat (x mod 2 ^ 32)
      in map char_of [u mod 256, u div 256 mod 256, u div 65536 mod 256, u div 16777216 mod 256])"

text \<open>\<^verbatim>\<open>struct.pack(f"<{n}i", *val)\<close>.\<close>

definition struct_pack :: "int list \<Rightarrow> bytes result" where
  "struct_pack xs =
     (if list_all i32_ok xs then Inr (concat (map pack_i32 xs))
      else Inl (StructError '''i' format requires -2147483648 <= number <= 2147483647''))"

fun unpack_i32s :: "nat \<Rightarrow> bytes \<Rightarrow> int list result" where
  "unpack_i32s 0 bs = (if bs = [] then Inr [] else Inl (StructError ''unpack requires a buffer of the right size''))"
| "unpack_i32s (Suc n) (a # b # c # d # r) =
     bindE (unpack_i32s n r) (\<lambda>xs.
       Inr (c_int32 (int (byte_val a + 256 * byte_val b + 65536 * byte_val c + 16777216 * byte_val d)) # xs))"
| "unpack_i32s (Suc n) _ = Inl (StructError ''unpack requires a buffer of the right size'')"

section \<open>The emulator API\<close>

record ('vm, 'snap, 'w) qiling =
  q_new :: "bytes \<Rightarrow> 'w \<Rightarrow> 'vm result \<times> 'w"
  q_mem_map :: "int \<Rightarrow> int \<Rightarrow> 'vm \<Rightarrow> 'vm result"
  q_stack_address :: "'vm \<Rightarrow> int"
  q_mem_write :: "int \<Rightarrow> bytes \<Rightarrow> 'vm \<Rightarrow> 'vm result"
  q_mem_read :: "int \<Rightarrow> nat \<Rightarrow> 'vm \<Rightarrow> bytes result"
  q_reg_write :: "string \<Rightarrow> int \<Rightarrow> 'vm \<Rightarrow> 'vm"
  q_reg_read :: "string \<Rightarrow> 'vm \<Rightarrow> int"
  q_stack_write :: "int \<Rightarrow> int \<Rightarrow> 'vm \<Rightarrow> 'vm result"
  q_run :: "int \<Rightarrow> int \<Rightarrow> nat \<Rightarrow> 'vm \<Rightarrow> run_exn option \<times> 'vm"
  q_save :: "'vm \<Rightarrow> 'snap"
  q_restore :: "'snap \<Rightarrow> 'vm \<Rightarrow> 'vm"

definition boot_vm :: "('vm, 'snap, 'w) qiling \<Rightarrow> bytes \<Rightarrow> 'w \<Rightarrow> 'vm result \<times> 'w" where
  "boot_vm Q b w =
     (case q_new Q b w of (r, w') \<Rightarrow> (bindE r (q_mem_map Q SENTINEL 4096), w'))"

section \<open>Marshalling\<close>

text \<open>What \<^verbatim>\<open>_marshal\<close> asks of memory: nothing for a scalar, the bytes to place otherwise.\<close>

definition marshal :: "param \<Rightarrow> cval \<Rightarrow> (int + bytes) result" where
  "marshal p v =
     (case (p_kind p, v) of
        (I32, VInt i) \<Rightarrow> Inr (Inl i)
      | (CString, VBytes b) \<Rightarrow> Inr (Inr b)
      | (BufferI32, VList xs) \<Rightarrow> bindE (struct_pack xs) (\<lambda>b. Inr (Inr b))
      | (BufferI32, VInt n) \<Rightarrow> Inr (Inr (replicate (4 * nat n) (CHR 0x00)))
      | _ \<Rightarrow> Inl (TypeError ''bad case value''))"

text \<open>\<^verbatim>\<open>write\<close>: \<^verbatim>\<open>top -= (len(data) + 15) & ~15\<close>.\<close>

definition round16 :: "nat \<Rightarrow> int" where
  "round16 n = 16 * int ((n + 15) div 16)"

text \<open>
  The marshalling loop: from the allocation top and the VM to the register values, the
  pointers by parameter name, the new top and the new VM.
\<close>

fun marshal_all ::
    "('vm, 'snap, 'w) qiling \<Rightarrow> param list \<Rightarrow> case_in \<Rightarrow> int \<Rightarrow> 'vm
     \<Rightarrow> (int list \<times> int dict \<times> int \<times> 'vm) result" where
  "marshal_all Q [] c tp vm = Inr ([], [], tp, vm)"
| "marshal_all Q (p # ps) c tp vm =
     bindE (dict_get c (p_name p)) (\<lambda>v.
     bindE (marshal p v) (\<lambda>m.
     (case m of
        Inl i \<Rightarrow>
          bindE (marshal_all Q ps c tp vm) (\<lambda>(rs, ptrs, t, vm'). Inr (i # rs, ptrs, t, vm'))
      | Inr b \<Rightarrow>
          (let a = tp - round16 (length b) in
           bindE (q_mem_write Q a b vm) (\<lambda>vm1.
           bindE (marshal_all Q ps c a vm1) (\<lambda>(rs, ptrs, t, vm').
             Inr (a # rs, (if has_key (p_name p) ptrs then ptrs else (p_name p, a) # ptrs), t, vm')))))))"

definition set_regs :: "('vm, 'snap, 'w) qiling \<Rightarrow> int list \<Rightarrow> 'vm \<Rightarrow> 'vm" where
  "set_regs Q vals vm = fold (\<lambda>(r, v) vm. q_reg_write Q r v vm) (zip BAREGS vals) vm"

definition entry_rsp :: "int \<Rightarrow> int" where
  "entry_rsp tp = tp - (tp - 8) mod 16"

section \<open>\<^verbatim>\<open>_run_case\<close>\<close>

definition fault_trace :: "event \<Rightarrow> fn_trace" where
  "fault_trace e =
     \<lparr>ft_ret = 0, ft_mem = [], ft_exit_code = - 1, ft_events = [e], ft_batch_mode = None\<rparr>"

definition crash_event :: "run_exn \<Rightarrow> event" where
  "crash_event x =
     (mk_event ''fault'' ''crash'' [rx_type x @ '': '' @ rx_msg x])
       \<lparr>ev_extra := [(''mem_fault'', JBool (is_mem_fault_exc x))]\<rparr>"

definition cells :: "cval \<Rightarrow> nat" where
  "cells v = (case v of VList xs \<Rightarrow> length xs | VInt n \<Rightarrow> nat n | VBytes b \<Rightarrow> length b)"

text \<open>Readback of one parameter's memory, then of all, in the order of the parameters.\<close>

definition read_param :: "('vm, 'snap, 'w) qiling \<Rightarrow> param \<Rightarrow> cval \<Rightarrow> int \<Rightarrow> 'vm \<Rightarrow> cval result" where
  "read_param Q p v a vm =
     (if p_kind p = BufferI32
      then bindE (q_mem_read Q a (4 * cells v) vm) (\<lambda>b.
           bindE (unpack_i32s (cells v) b) (\<lambda>xs. Inr (VList xs)))
      else bindE (q_mem_read Q a (cells v) vm) (\<lambda>b. Inr (VBytes b)))"

fun readback ::
    "('vm, 'snap, 'w) qiling \<Rightarrow> param list \<Rightarrow> case_in \<Rightarrow> int dict \<Rightarrow> 'vm \<Rightarrow> cval dict result" where
  "readback Q [] c ptrs vm = Inr []"
| "readback Q (p # ps) c ptrs vm =
     (if p_kind p = I32 then readback Q ps c ptrs vm
      else
        bindE (dict_get c (p_name p)) (\<lambda>v.
        bindE (dict_get ptrs (p_name p)) (\<lambda>a.
        bindE (read_param Q p v a vm) (\<lambda>m.
        bindE (readback Q ps c ptrs vm) (\<lambda>rest.
          Inr (if has_key (p_name p) rest then rest else (p_name p, m) # rest))))))"

definition finish_case ::
    "('vm, 'snap, 'w) qiling \<Rightarrow> param list \<Rightarrow> case_in \<Rightarrow> int dict \<Rightarrow> run_exn option \<times> 'vm
     \<Rightarrow> fn_trace result" where
  "finish_case Q ps c ptrs r =
     (case r of
        (Some x, vm) \<Rightarrow> Inr (fault_trace (crash_event x))
      | (None, vm) \<Rightarrow>
          if q_reg_read Q ''rip'' vm \<noteq> SENTINEL
          then Inr (fault_trace (mk_event ''fault'' ''timeout'' []))
          else
            bindE (readback Q ps c ptrs vm) (\<lambda>mem.
              Inr \<lparr>ft_ret = c_int32 (q_reg_read Q ''rax'' vm), ft_mem = mem, ft_exit_code = 0,
                   ft_events = [], ft_batch_mode = None\<rparr>))"

text \<open>Up to the run: marshalling, the argument registers, \<^verbatim>\<open>rsp\<close> and the return trap at \<^verbatim>\<open>[rsp]\<close>.\<close>

definition enter_case ::
    "('vm, 'snap, 'w) qiling \<Rightarrow> param list \<Rightarrow> case_in \<Rightarrow> 'vm \<Rightarrow> (int dict \<times> int \<times> 'vm) result" where
  "enter_case Q ps c vm =
     bindE (marshal_all Q ps c (q_stack_address Q vm) vm) (\<lambda>(rs, ptrs, tp, vm1).
     bindE (q_stack_write Q 0 SENTINEL (q_reg_write Q ''rsp'' (entry_rsp tp) (set_regs Q rs vm1))) (\<lambda>vm2.
       Inr (ptrs, entry_rsp tp, vm2)))"

definition run_case ::
    "('vm, 'snap, 'w) qiling \<Rightarrow> int \<Rightarrow> param list \<Rightarrow> case_in \<Rightarrow> 'vm \<Rightarrow> (fn_trace \<times> 'vm) result" where
  "run_case Q addr ps c vm =
     bindE (enter_case Q ps c vm) (\<lambda>(ptrs, rsp, vm2).
       let r = q_run Q addr SENTINEL TIMEOUT_US vm2
       in bindE (finish_case Q ps c ptrs r) (\<lambda>t. Inr (t, snd r)))"

section \<open>\<^verbatim>\<open>call_original\<close> and the batch\<close>

definition call_original ::
    "('vm, 'snap, 'w) qiling \<Rightarrow> bytes \<Rightarrow> int \<Rightarrow> param list \<Rightarrow> case_in \<Rightarrow> 'w \<Rightarrow> fn_trace result \<times> 'w" where
  "call_original Q b addr ps c w =
     (case guard_arity ps of
        Inl e \<Rightarrow> (Inl e, w)
      | Inr _ \<Rightarrow>
          (case boot_vm Q b w of (r, w') \<Rightarrow>
             (bindE r (\<lambda>vm. bindE (run_case Q addr ps c vm) (\<lambda>(t, _). Inr t)), w')))"

text \<open>\<^verbatim>\<open>_fn_has_syscall\<close>: \<^verbatim>\<open>None\<close> when the symbol table gives no extent.\<close>

definition fn_has_syscall :: "tools \<Rightarrow> bytes \<Rightarrow> int \<Rightarrow> bool option result" where
  "fn_has_syscall T b addr =
     (case find (\<lambda>(n, a, sz). a = addr) (symtab T b) of
        None \<Rightarrow> Inr None
      | Some (n, a, sz) \<Rightarrow>
          if sz = 0 then Inr None
          else bindE (function_insns T b addr sz) (\<lambda>is.
                 Inr (Some (list_ex (\<lambda>i. in_mnemonic i \<in> set SYSCALL_MNEMONICS) is))))"

text \<open>
  Instrumentation of one VM: entering the scope, the callback before each case, and the
  clean-up.  When a case raises, the VM is dropped and the case's exception is the one that
  propagates (a clean-up that raises a second exception over it is left out).
\<close>

record 'vm hooks =
  hk_enter :: "'vm \<Rightarrow> 'vm result"
  hk_before :: "'vm \<Rightarrow> 'vm result"
  hk_exit :: "'vm \<Rightarrow> 'vm result"

definition no_hooks :: "'vm hooks" where
  "no_hooks = \<lparr>hk_enter = Inr, hk_before = Inr, hk_exit = Inr\<rparr>"

definition with_mode :: "string \<Rightarrow> fn_trace \<Rightarrow> fn_trace" where
  "with_mode m t = t\<lparr>ft_batch_mode := Some m\<rparr>"

text \<open>One case on a fresh VM, inside its own scope.\<close>

definition fresh_case ::
    "('vm, 'snap, 'w) qiling \<Rightarrow> 'vm hooks \<Rightarrow> bytes \<Rightarrow> int \<Rightarrow> param list \<Rightarrow> case_in \<Rightarrow> 'w
     \<Rightarrow> fn_trace result \<times> 'w" where
  "fresh_case Q hk b addr ps c w =
     (case boot_vm Q b w of (r, w') \<Rightarrow>
        (bindE r (\<lambda>vm. bindE (hk_enter hk vm) (\<lambda>vm0.
           bindE (bindE (hk_before hk vm0) (run_case Q addr ps c)) (\<lambda>(t, vm1).
           bindE (hk_exit hk vm1) (\<lambda>_. Inr (with_mode ''fresh-vm-fallback'' t))))), w'))"

fun fresh_cases ::
    "('vm, 'snap, 'w) qiling \<Rightarrow> 'vm hooks \<Rightarrow> bytes \<Rightarrow> int \<Rightarrow> param list \<Rightarrow> case_in list \<Rightarrow> 'w
     \<Rightarrow> fn_trace list result \<times> 'w" where
  "fresh_cases Q hk b addr ps [] w = (Inr [], w)"
| "fresh_cases Q hk b addr ps (c # cs) w =
     (case fresh_case Q hk b addr ps c w of
        (Inl e, w1) \<Rightarrow> (Inl e, w1)
      | (Inr t, w1) \<Rightarrow>
          (case fresh_cases Q hk b addr ps cs w1 of (r, w2) \<Rightarrow> (bindE r (\<lambda>ts. Inr (t # ts)), w2)))"

text \<open>The cases on one VM, the snapshot restored before each.\<close>

fun snapshot_cases ::
    "('vm, 'snap, 'w) qiling \<Rightarrow> 'vm hooks \<Rightarrow> 'snap \<Rightarrow> int \<Rightarrow> param list \<Rightarrow> case_in list \<Rightarrow> 'vm
     \<Rightarrow> (fn_trace list \<times> 'vm) result" where
  "snapshot_cases Q hk snap addr ps [] vm = Inr ([], vm)"
| "snapshot_cases Q hk snap addr ps (c # cs) vm =
     bindE (hk_before hk (q_restore Q snap vm)) (\<lambda>vm0.
     bindE (run_case Q addr ps c vm0) (\<lambda>(t, vm1).
     bindE (snapshot_cases Q hk snap addr ps cs vm1) (\<lambda>(ts, vm2).
       Inr (with_mode ''batched-snapshot'' t # ts, vm2))))"

definition batch_call_original ::
    "('vm, 'snap, 'w) qiling \<Rightarrow> tools \<Rightarrow> 'vm hooks \<Rightarrow> bytes \<Rightarrow> int \<Rightarrow> param list \<Rightarrow> case_in list \<Rightarrow> 'w
     \<Rightarrow> fn_trace list result \<times> 'w" where
  "batch_call_original Q T hk b addr ps cs w =
     (case guard_arity ps of
        Inl e \<Rightarrow> (Inl e, w)
      | Inr _ \<Rightarrow>
          if cs = [] then (Inr [], w)
          else
            (case fn_has_syscall T b addr of
               Inl e \<Rightarrow> (Inl e, w)
             | Inr answer \<Rightarrow>
                 if answer \<noteq> Some False then fresh_cases Q hk b addr ps cs w
                 else
                   (case boot_vm Q b w of (r, w') \<Rightarrow>
                      (bindE r (\<lambda>vm. bindE (hk_enter hk vm) (\<lambda>vm0.
                         bindE (snapshot_cases Q hk (q_save Q vm) addr ps cs vm0) (\<lambda>(ts, vm1).
                         bindE (hk_exit hk vm1) (\<lambda>_. Inr ts)))), w'))))"


section \<open>The fuzz inputs meet the declaration\<close>

text \<open>What the checker's \<^verbatim>\<open>_params\<close> guarantees of a declaration and the draws rely on.\<close>

definition MAX_BUFFER_LEN :: int where
  "MAX_BUFFER_LEN = 32"

definition sizes_buffer :: "param list \<Rightarrow> param \<Rightarrow> bool" where
  "sizes_buffer ps q = list_ex (\<lambda>p. p_length_param p = Some (p_name q)) ps"

definition param_ok :: "param list \<Rightarrow> param \<Rightarrow> bool" where
  "param_ok ps p =
     (i32_ok (fst (p_range p)) \<and> i32_ok (snd (p_range p)) \<and> fst (p_range p) \<le> snd (p_range p)
      \<and> p_ret p \<in> {''i32'', ''void''} \<and> p_name p \<noteq> []
      \<and> (case p_length_param p of None \<Rightarrow> True
          | Some l \<Rightarrow> list_ex (\<lambda>q. p_name q = l \<and> p_kind q = I32) ps)
      \<and> (sizes_buffer ps p \<longrightarrow> snd (p_range p) \<le> MAX_BUFFER_LEN))"

definition params_ok :: "param list \<Rightarrow> bool" where
  "params_ok ps = (distinct (map p_name ps) \<and> list_all (param_ok ps) ps)"

definition in_range :: "param \<Rightarrow> int \<Rightarrow> bool" where
  "in_range p x = (fst (p_range p) \<le> x \<and> x \<le> snd (p_range p))"

definition scalar_ok :: "param \<Rightarrow> case_in \<Rightarrow> bool" where
  "scalar_ok p c = (case map_of c (p_name p) of Some (VInt v) \<Rightarrow> in_range p v | _ \<Rightarrow> False)"

definition string_ok :: "bytes \<Rightarrow> bool" where
  "string_ok b =
     (b \<noteq> [] \<and> length b \<le> 17 \<and> last b = CHR 0x00
      \<and> list_all (\<lambda>ch. 97 \<le> byte_val ch \<and> byte_val ch \<le> 122) (butlast b))"

text \<open>The length of a buffer: its length parameter's value (none when negative), else 1 to 8.\<close>

definition length_ok :: "param \<Rightarrow> case_in \<Rightarrow> nat \<Rightarrow> bool" where
  "length_ok p c n =
     (case p_length_param p of
        None \<Rightarrow> 1 \<le> n \<and> n \<le> 8
      | Some l \<Rightarrow> (case map_of c l of Some (VInt v) \<Rightarrow> n = nat v | _ \<Rightarrow> False))"

definition memory_ok :: "param \<Rightarrow> case_in \<Rightarrow> bool" where
  "memory_ok p c =
     (case p_kind p of
        I32 \<Rightarrow> True
      | CString \<Rightarrow> (case map_of c (p_name p) of Some (VBytes b) \<Rightarrow> string_ok b | _ \<Rightarrow> False)
      | BufferI32 \<Rightarrow> (case map_of c (p_name p) of
                         Some (VList xs) \<Rightarrow> list_all (in_range p) xs \<and> length_ok p c (length xs)
                       | _ \<Rightarrow> False))"

definition case_ok :: "param list \<Rightarrow> case_in \<Rightarrow> bool" where
  "case_ok ps c =
     (list_all (\<lambda>p. (p_kind p = I32 \<longrightarrow> scalar_ok p c) \<and> memory_ok p c) ps
      \<and> set (map fst c) = set (map p_name ps))"

lemma yields_draw_fold_items:
  assumes step: "\<And>b x. I b \<Longrightarrow> x \<in> set xs \<Longrightarrow>
      yields (f b x) (\<lambda>b'. I b' \<and> ok x b' \<and> (\<forall>y \<in> set xs. name y \<noteq> name x \<longrightarrow> ok y b \<longrightarrow> ok y b'))"
    and "distinct (map name xs)" and "I b"
  shows "yields (draw_fold f b xs) (\<lambda>b'. I b' \<and> (\<forall>x \<in> set xs. ok x b'))"
proof -
  have "yields (draw_fold f b zs) (\<lambda>b'. I b' \<and> (\<forall>x \<in> set (ys @ zs). ok x b'))"
    if "I b" and "\<forall>x \<in> set ys. ok x b" and "ys @ zs = xs" for b ys zs
    using that
  proof (induction zs arbitrary: b ys)
    case (Cons z zs)
    have z: "z \<in> set xs" using Cons.prems(3) by auto
    have other: "name y \<noteq> name z" "y \<in> set xs" if "y \<in> set ys" for y
    proof -
      have "distinct (map name (ys @ z # zs))" using assms(2) Cons.prems(3) by simp
      then show "name y \<noteq> name z" using that by (auto simp: image_iff)
      show "y \<in> set xs" using that by (simp flip: Cons.prems(3))
    qed
    show ?case
      unfolding draw_fold.simps
    proof (rule yields_bind [OF step [OF Cons.prems(1) z]])
      fix a assume a: "I a \<and> ok z a \<and> (\<forall>y\<in>set xs. name y \<noteq> name z \<longrightarrow> ok y b \<longrightarrow> ok y a)"
      then have "\<forall>x \<in> set (ys @ [z]). ok x a" using Cons.prems(2) other by auto
      then show "yields (draw_fold f a zs) (\<lambda>b'. I b' \<and> (\<forall>x\<in>set (ys @ z # zs). ok x b'))"
        using Cons.IH [of a "ys @ [z]"] a Cons.prems(3) by simp
    qed
  qed (auto intro!: yields_ret)
  from this [of b "[]" xs] assms(3) show ?thesis by simp
qed

lemma params_okD:
  assumes "params_ok ps" and "p \<in> set ps"
  shows "fst (p_range p) \<le> snd (p_range p)" "i32_ok (fst (p_range p))" "i32_ok (snd (p_range p))"
    "param_ok ps p"
  using assms by (auto simp: params_ok_def param_ok_def list_all_iff)

lemma same_name_same_param: "params_ok ps \<Longrightarrow> p \<in> set ps \<Longrightarrow> q \<in> set ps \<Longrightarrow> p_name p = p_name q \<Longrightarrow> p = q"
  by (auto simp: params_ok_def distinct_map inj_on_def)

lemma yields_gen_scalar:
  assumes "params_ok ps" and "p \<in> set ps" and "set (map fst c) \<subseteq> set (map p_name ps)"
  shows "yields (gen_scalar c p)
     (\<lambda>c'. set (map fst c') \<subseteq> set (map p_name ps) \<and> (p_kind p = I32 \<longrightarrow> scalar_ok p c')
           \<and> (\<forall>q \<in> set ps. p_name q \<noteq> p_name p \<longrightarrow> (p_kind q = I32 \<longrightarrow> scalar_ok q c)
                 \<longrightarrow> (p_kind q = I32 \<longrightarrow> scalar_ok q c')))"
proof (cases "p_kind p = I32")
  case True
  have "yields (randint (fst (p_range p)) (snd (p_range p))) (in_range p)"
    using yields_mono [OF yields_randint [OF params_okD(1) [OF assms(1,2)]]] by (simp add: in_range_def)
  then have "yields (bind (randint (fst (p_range p)) (snd (p_range p)))
                 (\<lambda>v. ret (AList.update (p_name p) (VInt v) c)))
     (\<lambda>c'. set (map fst c') \<subseteq> set (map p_name ps) \<and> (p_kind p = I32 \<longrightarrow> scalar_ok p c')
           \<and> (\<forall>q \<in> set ps. p_name q \<noteq> p_name p \<longrightarrow> (p_kind q = I32 \<longrightarrow> scalar_ok q c)
                 \<longrightarrow> (p_kind q = I32 \<longrightarrow> scalar_ok q c')))"
    by (rule yields_bind, intro yields_ret) (use assms(2,3) in \<open>simp add: scalar_ok_def keys_AList_update\<close>)
  with True show ?thesis by (simp add: gen_scalar_def)
next
  case False
  then show ?thesis
    using assms(3) by (auto simp: gen_scalar_def intro!: yields_ret)
qed

definition scalars_ok :: "param list \<Rightarrow> case_in \<Rightarrow> bool" where
  "scalars_ok ps c =
     (set (map fst c) \<subseteq> set (map p_name ps) \<and> (\<forall>p \<in> set ps. p_kind p = I32 \<longrightarrow> scalar_ok p c))"

lemma yields_scalars:
  assumes "params_ok ps"
  shows "yields (draw_fold gen_scalar [] ps) (scalars_ok ps)"
  using yields_draw_fold_items [where f = gen_scalar and I = "\<lambda>c. set (map fst c) \<subseteq> set (map p_name ps)"
      and ok = "\<lambda>p c. p_kind p = I32 \<longrightarrow> scalar_ok p c" and name = p_name and xs = ps and b = "[]"]
    yields_gen_scalar [OF assms] assms
  by (auto simp: params_ok_def scalars_ok_def [abs_def])

lemma yields_letters:
  "yields (draw_list n (randint 97 122)) (\<lambda>bs. length bs = n \<and> list_all (\<lambda>b. 97 \<le> b \<and> b \<le> 122) bs)"
  by (rule yields_draw_list, rule yields_randint) simp

lemma string_ok_letters:
  assumes "length bs \<le> 16" and "list_all (\<lambda>b. 97 \<le> b \<and> b \<le> (122 :: int)) bs"
  shows "string_ok (map (\<lambda>b. char_of (nat b)) bs @ [CHR 0x00])"
  using assms by (auto simp: string_ok_def list_all_iff byte_val_char_of)

lemma scalar_okE:
  assumes "scalar_ok p c"
  obtains v where "map_of c (p_name p) = Some (VInt v)" and "in_range p v"
  using assms by (auto simp: scalar_ok_def split: option.splits cval.splits)

lemma memory_ok_lookup:
  assumes "memory_ok p c" and "p_kind p \<noteq> I32"
  shows "map_of c (p_name p) \<noteq> None"
  using assms by (cases "p_kind p") (auto simp: memory_ok_def split: option.splits)

lemma lookup_key: "map_of c k \<noteq> None \<longleftrightarrow> k \<in> fst ` set c"
  by (simp add: map_of_eq_None_iff)

lemma scalars_ok_update:
  assumes "params_ok ps" and "scalars_ok ps c" and "p \<in> set ps" and "p_kind p \<noteq> I32"
  shows "scalars_ok ps (AList.update (p_name p) v c)"
proof -
  have "p_name q \<noteq> p_name p" if "q \<in> set ps" and "p_kind q = I32" for q
    using same_name_same_param [OF assms(1) that(1) assms(3)] that(2) assms(4) by auto
  then show ?thesis
    using assms(2,3) by (simp add: scalars_ok_def scalar_ok_def keys_AList_update)
qed

text \<open>A length parameter is a scalar, so drawing another parameter's memory does not move it.\<close>

lemma length_param_scalar:
  assumes "params_ok ps" and "p \<in> set ps" and "p_length_param p = Some l"
  obtains q where "q \<in> set ps" and "p_name q = l" and "p_kind q = I32"
  using params_okD(4) [OF assms(1,2)] assms(3) by (auto simp: param_ok_def list_ex_iff)

lemma length_ok_update:
  assumes "params_ok ps" and "p \<in> set ps" and "q \<in> set ps" and "p_kind p \<noteq> I32"
  shows "length_ok q (AList.update (p_name p) v c) n = length_ok q c n"
proof (cases "p_length_param q")
  case (Some l)
  obtain r where r: "r \<in> set ps" "p_name r = l" "p_kind r = I32"
    using length_param_scalar [OF assms(1,3) Some] .
  then have "l \<noteq> p_name p"
    using same_name_same_param [OF assms(1) r(1) assms(2)] assms(4) by auto
  with Some show ?thesis by (simp add: length_ok_def)
qed (simp add: length_ok_def)

lemma memory_ok_update:
  assumes "params_ok ps" and "p \<in> set ps" and "q \<in> set ps" and "p_kind p \<noteq> I32"
    and "p_name q \<noteq> p_name p" and "memory_ok q c"
  shows "memory_ok q (AList.update (p_name p) v c)"
proof -
  have "length_ok q (AList.update (p_name p) v c) n = length_ok q c n" for n
    using length_ok_update assms(1-4) by blast
  with assms(5,6) show ?thesis
    by (simp add: memory_ok_def split: kind.splits option.splits cval.splits)
qed

text \<open>What one step of the second pass establishes and keeps.\<close>

definition memory_step :: "param list \<Rightarrow> param \<Rightarrow> case_in \<Rightarrow> case_in \<Rightarrow> bool" where
  "memory_step ps p c c' =
     (scalars_ok ps c' \<and> memory_ok p c'
      \<and> (\<forall>q \<in> set ps. p_name q \<noteq> p_name p \<longrightarrow> memory_ok q c \<longrightarrow> memory_ok q c'))"

lemma memory_step_update:
  assumes "params_ok ps" and "scalars_ok ps c" and "p \<in> set ps" and "p_kind p \<noteq> I32"
    and "memory_ok p (AList.update (p_name p) v c)"
  shows "memory_step ps p c (AList.update (p_name p) v c)"
  using scalars_ok_update [OF assms(1-4)] memory_ok_update [OF assms(1,3) _ assms(4)] assms(5)
  by (simp add: memory_step_def)

lemma yields_buffer:
  assumes "params_ok ps" and "scalars_ok ps c" and "p \<in> set ps" and "p_kind p = BufferI32"
    and "length_ok p c n"
  shows "yields (bind (draw_list n (randint (fst (p_range p)) (snd (p_range p))))
                  (\<lambda>xs. ret (AList.update (p_name p) (VList xs) c))) (memory_step ps p c)"
proof (rule yields_bind [OF yields_draw_list [OF yields_randint [OF params_okD(1) [OF assms(1,3)]]]])
  fix xs
  assume xs: "length xs = n \<and> list_all (\<lambda>x. fst (p_range p) \<le> x \<and> x \<le> snd (p_range p)) xs"
  have "memory_ok p (AList.update (p_name p) (VList xs) c)"
    using xs assms(4,5) length_ok_update [OF assms(1,3,3), of "VList xs" c n]
    by (simp add: memory_ok_def in_range_def [abs_def])
  then show "yields (ret (AList.update (p_name p) (VList xs) c)) (memory_step ps p c)"
    using memory_step_update [OF assms(1-3)] assms(4) by (intro yields_ret) simp
qed

lemma yields_gen_memory:
  assumes "params_ok ps" and "scalars_ok ps c" and "p \<in> set ps"
  shows "yields (gen_memory c p) (memory_step ps p c)"
proof (cases "p_kind p")
  case I32
  then show ?thesis
    using assms(2) by (auto simp: gen_memory_def memory_step_def memory_ok_def intro!: yields_ret)
next
  case CString
  have "memory_step ps p c (AList.update (p_name p) (VBytes (map (\<lambda>b. char_of (nat b)) bs @ [CHR 0x00])) c)"
    if "length bs \<le> 16" and "list_all (\<lambda>b. 97 \<le> b \<and> b \<le> 122) bs" for bs
    using memory_step_update [OF assms] string_ok_letters [OF that] CString by (simp add: memory_ok_def)
  then show ?thesis
    unfolding gen_memory_def CString kind.case
    by (intro yields_bind [OF yields_randint] yields_bind [OF yields_letters] yields_ret) auto
next
  case BufferI32
  show ?thesis
    unfolding gen_memory_def BufferI32 kind.case
  proof (rule yields_bind [OF yields_randint])
    fix d :: int assume d: "1 \<le> d \<and> d \<le> 8"
    show "yields (case Option.bind (p_length_param p) (map_of c) of
               None \<Rightarrow> bind (draw_list (nat d) (randint (fst (p_range p)) (snd (p_range p))))
                         (\<lambda>xs. ret (AList.update (p_name p) (VList xs) c))
             | Some (VInt ln) \<Rightarrow>
                 bind (draw_list (nat ln) (randint (fst (p_range p)) (snd (p_range p))))
                   (\<lambda>xs. ret (AList.update (p_name p) (VList xs) c))
             | Some _ \<Rightarrow> raise (TypeError ''object cannot be interpreted as an integer''))
            (memory_step ps p c)"
    proof (cases "p_length_param p")
      case None
      then have "length_ok p c (nat d)" using d by (simp add: length_ok_def nat_le_iff le_nat_iff)
      from yields_buffer [OF assms BufferI32 this] None show ?thesis by simp
    next
      case (Some l)
      obtain q where q: "q \<in> set ps" "p_name q = l" "p_kind q = I32"
        using length_param_scalar [OF assms(1,3) Some] .
      then obtain v where v: "map_of c l = Some (VInt v)"
        using assms(2) by (metis scalars_ok_def scalar_okE)
      then have "length_ok p c (nat v)" using Some by (simp add: length_ok_def)
      from yields_buffer [OF assms BufferI32 this] Some v show ?thesis by simp
    qed
  qed simp
qed

lemma yields_gen_case:
  assumes "params_ok ps"
  shows "yields (gen_case ps) (case_ok ps)"
  unfolding gen_case_def
proof (rule yields_bind [OF yields_scalars [OF assms]])
  fix c assume c: "scalars_ok ps c"
  have "yields (draw_fold gen_memory c ps) (\<lambda>c'. scalars_ok ps c' \<and> (\<forall>p \<in> set ps. memory_ok p c'))"
    by (rule yields_draw_fold_items [where name = p_name])
      (use yields_gen_memory [OF assms] assms c in \<open>auto simp: memory_step_def [abs_def] params_ok_def\<close>)
  moreover have "case_ok ps c'" if s: "scalars_ok ps c'" and m: "\<forall>p \<in> set ps. memory_ok p c'" for c'
  proof -
    have "p_name p \<in> fst ` set c'" if p: "p \<in> set ps" for p
    proof (cases "p_kind p = I32")
      case True
      then have "scalar_ok p c'" using s p by (simp add: scalars_ok_def)
      then obtain v where "map_of c' (p_name p) = Some (VInt v)" by (rule scalar_okE)
      then show ?thesis using lookup_key [of c' "p_name p"] by simp
    next
      case False
      then have "map_of c' (p_name p) \<noteq> None" using memory_ok_lookup m p by blast
      then show ?thesis using lookup_key [of c' "p_name p"] by simp
    qed
    with s m show ?thesis by (auto simp: case_ok_def list_all_iff scalars_ok_def)
  qed
  ultimately show "yields (draw_fold gen_memory c ps) (case_ok ps)"
    using yields_mono by blast
qed


lemma returns_range:
  assumes "params_ok ps" and "p \<in> set ps"
  shows "returns (randint (fst (p_range p)) (snd (p_range p)))"
  using params_okD(2,3) [OF assms] by (intro returns_randint) (simp add: i32_ok_def)

lemma returns_gen_scalar: "params_ok ps \<Longrightarrow> p \<in> set ps \<Longrightarrow> returns (gen_scalar c p)"
  by (auto simp: gen_scalar_def intro!: returns_bind returns_range)

lemma returns_gen_memory:
  assumes "params_ok ps" and "p \<in> set ps"
  shows "returns (gen_memory c p)"
  using returns_range [OF assms] unfolding gen_memory_def
  by (auto intro!: returns_bind returns_draw_list returns_randint split: kind.split option.split cval.split)

lemma returns_gen_case: "params_ok ps \<Longrightarrow> returns (gen_case ps)"
  unfolding gen_case_def
  by (intro returns_bind returns_draw_fold) (auto intro: returns_gen_scalar returns_gen_memory)

text \<open>No drawn buffer exceeds the cap the job's output budget is computed from.\<close>

lemma case_ok_buffer_cap:
  assumes "params_ok ps" and "case_ok ps c" and "p \<in> set ps" and "map_of c (p_name p) = Some (VList xs)"
  shows "int (length xs) \<le> MAX_BUFFER_LEN"
proof -
  have mem: "memory_ok p c" and "p_kind p = I32 \<longrightarrow> scalar_ok p c"
    using assms(2,3) by (auto simp: case_ok_def list_all_iff)
  then have buf: "p_kind p = BufferI32"
    using assms(4) by (cases "p_kind p") (auto simp: memory_ok_def scalar_ok_def)
  have len: "length_ok p c (length xs)"
    using mem buf assms(4) by (simp add: memory_ok_def)
  show ?thesis
  proof (cases "p_length_param p")
    case None
    with len show ?thesis by (simp add: length_ok_def MAX_BUFFER_LEN_def)
  next
    case (Some l)
    obtain q where q: "q \<in> set ps" "p_name q = l" "p_kind q = I32"
      using length_param_scalar [OF assms(1,3) Some] .
    have "scalar_ok q c" using assms(2) q by (auto simp: case_ok_def list_all_iff)
    then obtain v where v: "map_of c l = Some (VInt v)" "in_range q v"
      using q(2) by (metis scalar_okE)
    have "sizes_buffer ps q" using Some assms(3) q(2) by (auto simp: sizes_buffer_def list_ex_iff)
    then have "snd (p_range q) \<le> MAX_BUFFER_LEN"
      using params_okD(4) [OF assms(1) q(1)] by (simp add: param_ok_def)
    with len v Some show ?thesis by (auto simp: length_ok_def in_range_def MAX_BUFFER_LEN_def)
  qed
qed

lemma gen_inputs_draws:
  assumes "params_ok ps" and "fair s"
  shows "\<exists>cs s'. gen_inputs ps n s = Some (Inr cs, s') \<and> fair s' \<and> length cs = n \<and> list_all (case_ok ps) cs"
proof -
  obtain r s' where r: "gen_inputs ps n s = Some (r, s')" "fair s'"
    using returns_draw_list [OF returns_gen_case [OF assms(1)], of n, unfolded returns_def] assms(2)
    unfolding gen_inputs_def by blast
  then show ?thesis
    using yields_draw_list [OF yields_gen_case [OF assms(1)], of n]
    by (auto simp: gen_inputs_def yields_def)
qed

text \<open>
  C15: drawing the fuzz inputs of a checked declaration always finishes and gives the
  declared cases.  On every fair generator state \<^verbatim>\<open>gen_inputs\<close> returns exactly \<^verbatim>\<open>n\<close> cases
  without raising; each case has exactly the declared names, every scalar and every cell
  within its declared range, every string letters then a NUL, every buffer as long as its
  length parameter says, and no buffer beyond the cap.
\<close>

theorem gen_inputs_correct:
  assumes "params_ok ps" and "fair s"
  shows "\<exists>cs s'. gen_inputs ps n s = Some (Inr cs, s') \<and> fair s' \<and> length cs = n
     \<and> list_all (case_ok ps) cs
     \<and> (\<forall>c \<in> set cs. \<forall>p \<in> set ps. \<forall>xs.
          map_of c (p_name p) = Some (VList xs) \<longrightarrow> int (length xs) \<le> MAX_BUFFER_LEN)"
  using gen_inputs_draws [OF assms, of n] case_ok_buffer_cap [OF assms(1)]
  by (fastforce simp: list_all_iff)

theorem gen_inputs_correct_witness:
  "let ps = [\<lparr>p_name = ''buf'', p_kind = BufferI32, p_length_param = Some ''n'', p_range = (- 5, 5), p_ret = ''void''\<rparr>,
             \<lparr>p_name = ''n'', p_kind = I32, p_length_param = None, p_range = (1, 8), p_ret = ''i32''\<rparr>]
   in \<exists>cs s'. gen_inputs ps 64 ramp = Some (Inr cs, s') \<and> fair s' \<and> length cs = 64
     \<and> list_all (case_ok ps) cs
     \<and> (\<forall>c \<in> set cs. \<forall>p \<in> set ps. \<forall>xs.
          map_of c (p_name p) = Some (VList xs) \<longrightarrow> int (length xs) \<le> MAX_BUFFER_LEN)"
  unfolding Let_def
  by (rule gen_inputs_correct [OF _ fair_ramp])
    (simp add: params_ok_def param_ok_def i32_ok_def sizes_buffer_def MAX_BUFFER_LEN_def)



end
