(* ===== verification/Calling_Layout.thy ===== *)
theory Calling_Layout
  imports Calling
begin

text \<open>
  What \<^verbatim>\<open>_run_case\<close> (\<^verbatim>\<open>driver/calling.py\<close>) sets up and observes: the i32 cells round-trip, the
  arguments are placed where the callee's frame cannot reach, and the memory read back after
  the run is what the function left there.
\<close>

section \<open>Little-endian cells round-trip\<close>

lemma c_int32_id: "i32_ok x \<Longrightarrow> c_int32 x = x"
  unfolding i32_ok_def c_int32_def by (simp add: mod_pos_pos_trivial)

lemma c_int32_mod: "c_int32 (x mod 2 ^ 32) = c_int32 x"
  unfolding c_int32_def by (simp add: mod_simps)

lemma i32_ok_c_int32: "i32_ok (c_int32 x)"
proof -
  have "0 \<le> (x + 2 ^ 31) mod 2 ^ 32" "(x + 2 ^ 31) mod 2 ^ 32 < 2 ^ 32" by simp_all
  then show ?thesis unfolding i32_ok_def c_int32_def by simp
qed

lemma byte_split: "(u :: nat) < 2 ^ 32 \<Longrightarrow>
  u mod 256 + 256 * (u div 256 mod 256) + 65536 * (u div 65536 mod 256)
    + 16777216 * (u div 16777216 mod 256) = u"
proof -
  assume u: "u < 2 ^ 32"
  have "u div 16777216 < 256" using u by simp
  then have d: "u div 16777216 mod 256 = u div 16777216" by simp
  have "u = u mod 256 + 256 * (u div 256)" by simp
  moreover have "u div 256 = u div 256 mod 256 + 256 * (u div 65536)"
    using mult_div_mod_eq [of 256 "u div 256"] by (simp add: div_mult2_eq [symmetric])
  moreover have "u div 65536 = u div 65536 mod 256 + 256 * (u div 16777216)"
    using mult_div_mod_eq [of 256 "u div 65536"] by (simp add: div_mult2_eq [symmetric])
  ultimately show ?thesis using d by linarith
qed

lemma length_pack_i32 [simp]: "length (pack_i32 x) = 4"
  by (simp add: pack_i32_def Let_def)

lemma unpack_bytes:
  assumes "u < 2 ^ 32"
  shows "unpack_i32s (Suc n)
      (map char_of [u mod 256, u div 256 mod 256, u div 65536 mod 256, u div 16777216 mod 256] @ bs)
    = bindE (unpack_i32s n bs) (\<lambda>xs. Inr (c_int32 (int u) # xs))"
proof -
  have b: "byte_val (char_of (k mod 256)) = k mod 256" for k :: nat
    by (rule byte_val_char_of) simp
  show ?thesis
    by (simp only: list.map append.simps unpack_i32s.simps b byte_split [OF assms])
qed

lemma unpack_pack_cons:
  assumes "i32_ok x"
  shows "unpack_i32s (Suc n) (pack_i32 x @ bs) = bindE (unpack_i32s n bs) (\<lambda>xs. Inr (x # xs))"
proof -
  have "nat (x mod 2 ^ 32) < 2 ^ 32" by (simp add: nat_less_iff)
  moreover have "c_int32 (int (nat (x mod 2 ^ 32))) = x"
    using c_int32_id [OF assms] c_int32_mod [of x] by simp
  ultimately show ?thesis
    unfolding pack_i32_def Let_def by (simp only: unpack_bytes)
qed

lemma unpack_concat_pack:
  "list_all i32_ok xs \<Longrightarrow> unpack_i32s (length xs) (concat (map pack_i32 xs)) = Inr xs"
  by (induction xs) (simp_all add: unpack_pack_cons)

lemma length_concat_pack [simp]: "length (concat (map pack_i32 xs)) = 4 * length xs"
  by (induction xs) simp_all

lemma unpack_zeros: "unpack_i32s n (replicate (4 * n) (CHR 0x00)) = Inr (replicate n 0)"
proof (induction n)
  case (Suc n)
  have "replicate (4 * Suc n) (CHR 0x00)
      = CHR 0x00 # CHR 0x00 # CHR 0x00 # CHR 0x00 # replicate (4 * n) (CHR 0x00)"
  proof -
    have "4 * Suc n = Suc (Suc (Suc (Suc (4 * n))))" by simp
    then show ?thesis by (simp only: replicate_Suc)
  qed
  with Suc show ?case by (simp only: unpack_i32s.simps) (simp add: byte_val_def c_int32_def)
qed simp


section \<open>Where marshalling puts the arguments\<close>

text \<open>
  Documented behaviour of the emulator's memory: a write is read back, leaves every other
  byte, and neither registers nor the stack write at \<^verbatim>\<open>[rsp]\<close> reach other addresses.
\<close>

definition memory_laws :: "('vm, 'snap, 'w) qiling \<Rightarrow> bool" where
  "memory_laws Q =
     ((\<forall>a b vm vm'. q_mem_write Q a b vm = Inr vm' \<longrightarrow>
         q_mem_read Q a (length b) vm' = Inr b
         \<and> (\<forall>x n. x + int n \<le> a \<or> a + int (length b) \<le> x \<longrightarrow> q_mem_read Q x n vm' = q_mem_read Q x n vm))
      \<and> (\<forall>r v x n vm. q_mem_read Q x n (q_reg_write Q r v vm) = q_mem_read Q x n vm)
      \<and> (\<forall>v s vm vm'. q_stack_write Q 0 v (q_reg_write Q ''rsp'' s vm) = Inr vm' \<longrightarrow>
         (\<forall>x n. x + int n \<le> s \<or> s + 8 \<le> x \<longrightarrow> q_mem_read Q x n vm' = q_mem_read Q x n vm)))"

text \<open>The bytes a parameter occupies in memory, if any.\<close>

definition placed :: "param \<Rightarrow> case_in \<Rightarrow> bytes option" where
  "placed p c =
     (case map_of c (p_name p) of
        None \<Rightarrow> None
      | Some v \<Rightarrow> (case marshal p v of Inr (Inr b) \<Rightarrow> Some b | _ \<Rightarrow> None))"

lemma round16_bounds: "int n \<le> round16 n" "0 \<le> round16 n" "round16 n mod 16 = 0"
proof -
  have "16 * ((n + 15) div 16) + (n + 15) mod 16 = n + 15" by simp
  moreover have "(n + 15) mod 16 < 16" by simp
  ultimately have "n \<le> 16 * ((n + 15) div 16)" by linarith
  then have "int n \<le> int (16 * ((n + 15) div 16))" by (simp only: of_nat_le_iff)
  then show "int n \<le> round16 n" by (simp add: round16_def)
qed (simp_all add: round16_def)

lemma round16_shift: "(tp - round16 n) mod 16 = tp mod 16"
  using mod_diff_right_eq [of tp "round16 n" 16] round16_bounds(3) [of n] by simp

lemma entry_rsp_eq: "entry_rsp tp = 16 * ((tp - 8) div 16) + 8"
proof -
  have "16 * ((tp - 8) div 16) + (tp - 8) mod 16 = tp - 8" by (rule mult_div_mod_eq)
  then show ?thesis unfolding entry_rsp_def by linarith
qed

lemma entry_rsp_aligned: "entry_rsp tp mod 16 = 8"
  by (simp add: entry_rsp_eq)

lemma entry_rsp_slot:
  assumes "tp mod 16 < 8"
  shows "entry_rsp tp + 8 \<le> tp"
proof -
  have "16 * (tp div 16) + tp mod 16 = tp" "16 * ((tp - 8) div 16) + (tp - 8) mod 16 = tp - 8"
    by (rule mult_div_mod_eq)+
  moreover have "0 \<le> tp mod 16" "0 \<le> (tp - 8) mod 16" by simp_all
  ultimately have "(tp - 8) div 16 < tp div 16" "16 * (tp div 16) \<le> tp" using assms by linarith+
  then show ?thesis unfolding entry_rsp_eq by linarith
qed

lemma marshal_all_Cons_Inr:
  assumes "marshal_all Q (p # ps) c tp vm = Inr (rs, ptrs, t, vm')"
  obtains (scalar) i rs' where "rs = i # rs'" "placed p c = None" "map_of c (p_name p) \<noteq> None"
      "marshal_all Q ps c tp vm = Inr (rs', ptrs, t, vm')"
    | (memory) b vm1 rs' ptrs' where "placed p c = Some b"
      "q_mem_write Q (tp - round16 (length b)) b vm = Inr vm1"
      "marshal_all Q ps c (tp - round16 (length b)) vm1 = Inr (rs', ptrs', t, vm')"
      "rs = (tp - round16 (length b)) # rs'"
      "ptrs = (if has_key (p_name p) ptrs' then ptrs' else (p_name p, tp - round16 (length b)) # ptrs')"
proof -
  from assms obtain v m where v: "map_of c (p_name p) = Some v" and m: "marshal p v = Inr m"
    by (auto simp: bindE_Inr_iff dict_get_def split: option.splits)
  show thesis
  proof (cases m)
    case (Inl i)
    with assms v m show thesis
      by (auto simp: bindE_Inr_iff dict_get_def placed_def intro: scalar)
  next
    case (Inr b)
    have "placed p c = Some b" using v m Inr by (simp add: placed_def)
    moreover have
      "\<exists>vm1 rs' ptrs'. q_mem_write Q (tp - round16 (length b)) b vm = Inr vm1
        \<and> marshal_all Q ps c (tp - round16 (length b)) vm1 = Inr (rs', ptrs', t, vm')
        \<and> rs = (tp - round16 (length b)) # rs'
        \<and> ptrs = (if has_key (p_name p) ptrs' then ptrs' else (p_name p, tp - round16 (length b)) # ptrs')"
      using assms v m Inr by (auto simp: bindE_Inr_iff dict_get_def Let_def split del: if_split)
    ultimately show thesis using memory by blast
  qed
qed

lemma marshal_all_top:
  "marshal_all Q ps c tp vm = Inr (rs, ptrs, t, vm') \<Longrightarrow> t \<le> tp \<and> t mod 16 = tp mod 16"
proof (induction ps arbitrary: tp vm rs ptrs)
  case (Cons p ps)
  from Cons.prems show ?case
  proof (cases rule: marshal_all_Cons_Inr)
    case (memory b vm1 rs' ptrs')
    with Cons.IH [OF memory(3)] round16_bounds(2) [of "length b"] round16_shift [of tp "length b"]
    show ?thesis by linarith
  qed (use Cons.IH in blast)
qed simp

lemma marshal_all_regs: "marshal_all Q ps c tp vm = Inr (rs, ptrs, t, vm') \<Longrightarrow> length rs = length ps"
  by (induction ps arbitrary: tp vm rs ptrs) (auto elim!: marshal_all_Cons_Inr simp del: marshal_all.simps(2))

lemma marshal_all_frame:
  assumes "memory_laws Q" and "marshal_all Q ps c tp vm = Inr (rs, ptrs, t, vm')"
    and "tp \<le> x"
  shows "q_mem_read Q x n vm' = q_mem_read Q x n vm"
  using assms(2,3)
proof (induction ps arbitrary: tp vm rs ptrs)
  case (Cons p ps)
  from Cons.prems(1) show ?case
  proof (cases rule: marshal_all_Cons_Inr)
    case (memory b vm1 rs' ptrs')
    have "q_mem_read Q x n vm1 = q_mem_read Q x n vm"
      using assms(1) memory(2) Cons.prems(2) round16_bounds(1) [of "length b"]
      unfolding memory_laws_def by fastforce
    with Cons.IH [OF memory(3)] Cons.prems(2) round16_bounds(2) [of "length b"]
    show ?thesis by simp
  qed (use Cons in blast)
qed simp

lemma marshal_all_keys:
  "marshal_all Q ps c tp vm = Inr (rs, ptrs, t, vm') \<Longrightarrow> has_key k ptrs \<Longrightarrow> k \<in> p_name ` set ps"
proof (induction ps arbitrary: tp vm rs ptrs)
  case (Cons p ps)
  from Cons.prems(1) show ?case
  proof (cases rule: marshal_all_Cons_Inr)
    case (memory b vm1 rs' ptrs')
    with Cons.IH [OF memory(3)] Cons.prems(2) show ?thesis
      by (auto simp: has_key_def split: if_splits)
  qed (use Cons in auto)
qed (simp add: has_key_def)

text \<open>Every memory argument has a pointer, inside the area, where its bytes are.\<close>

lemma marshal_all_placed:
  assumes "memory_laws Q" and "distinct (map p_name ps)"
    and "marshal_all Q ps c tp vm = Inr (rs, ptrs, t, vm')"
    and "p \<in> set ps" and "placed p c = Some b"
  shows "\<exists>a. map_of ptrs (p_name p) = Some a \<and> t \<le> a \<and> a + int (length b) \<le> tp
     \<and> q_mem_read Q a (length b) vm' = Inr b"
  using assms(2-5)
proof (induction ps arbitrary: tp vm rs ptrs)
  case (Cons q ps)
  from Cons.prems(2) show ?case
  proof (cases rule: marshal_all_Cons_Inr)
    case scalar
    with Cons show ?thesis by auto
  next
    case (memory b' vm1 rs' ptrs')
    let ?a = "tp - round16 (length b')"
    have nk: "\<not> has_key (p_name q) ptrs'"
      using marshal_all_keys [OF memory(3)] Cons.prems(1) by auto
    have le: "int (length b') \<le> round16 (length b')" "0 \<le> round16 (length b')"
      by (rule round16_bounds)+
    show ?thesis
    proof (cases "p = q")
      case True
      with memory(1) Cons.prems(4) have [simp]: "b' = b" by simp
      have "q_mem_read Q ?a (length b) vm1 = Inr b"
        using assms(1) memory(2) unfolding memory_laws_def by auto
      moreover have "q_mem_read Q ?a (length b) vm' = q_mem_read Q ?a (length b) vm1"
        by (rule marshal_all_frame [OF assms(1) memory(3)]) simp
      ultimately show ?thesis
        using True memory(5) nk le marshal_all_top [OF memory(3)] by simp
    next
      case False
      then have p: "p \<in> set ps" using Cons.prems(3) by simp
      then have "p_name q \<noteq> p_name p" using Cons.prems(1) by auto
      with Cons.IH [OF _ memory(3) p Cons.prems(4)] Cons.prems(1) memory(5) nk le
      show ?thesis by auto
    qed
  qed
qed simp

lemma marshal_all_disjoint:
  assumes "memory_laws Q" and "distinct (map p_name ps)"
    and "marshal_all Q ps c tp vm = Inr (rs, ptrs, t, vm')"
    and "p \<in> set ps" "q \<in> set ps" "p \<noteq> q" "placed p c = Some b" "placed q c = Some b'"
    and "map_of ptrs (p_name p) = Some a" "map_of ptrs (p_name q) = Some a'"
  shows "a + int (length b) \<le> a' \<or> a' + int (length b') \<le> a"
  using assms(2-10)
proof (induction ps arbitrary: tp vm rs ptrs)
  case (Cons r ps)
  from Cons.prems(2) show ?case
  proof (cases rule: marshal_all_Cons_Inr)
    case scalar
    with Cons show ?thesis by auto
  next
    case (memory br vm1 rs' ptrs')
    let ?a = "tp - round16 (length br)"
    have nk: "\<not> has_key (p_name r) ptrs'"
      using marshal_all_keys [OF memory(3)] Cons.prems(1) by auto
    have d: "distinct (map p_name ps)" using Cons.prems(1) by simp
    have below: "x + int (length bx) \<le> ?a"
      if "y \<in> set ps" "placed y c = Some bx" "map_of ptrs (p_name y) = Some x" for y bx x
    proof -
      have "p_name y \<noteq> p_name r" using that(1) Cons.prems(1) by (auto simp: image_iff)
      then show ?thesis
        using marshal_all_placed [OF assms(1) d memory(3) that(1,2)] that(3) memory(5) nk by auto
    qed
    consider "p = r" "q \<in> set ps" | "q = r" "p \<in> set ps" | "p \<in> set ps" "q \<in> set ps"
      using Cons.prems(3-5) by auto
    then show ?thesis
    proof cases
      case 1
      then have "a = ?a" using Cons.prems(8) memory(5) nk by simp
      with below [OF 1(2) Cons.prems(7,9)] show ?thesis by simp
    next
      case 2
      then have "a' = ?a" using Cons.prems(9) memory(5) nk by simp
      with below [OF 2(2) Cons.prems(6,8)] show ?thesis by simp
    next
      case 3
      then have "p_name p \<noteq> p_name r" "p_name q \<noteq> p_name r"
        using Cons.prems(1) by (auto simp: image_iff)
      then have "map_of ptrs' (p_name p) = Some a" "map_of ptrs' (p_name q) = Some a'"
        using Cons.prems(8,9) memory(5) nk by auto
      then show ?thesis by (rule Cons.IH [OF d memory(3) 3 Cons.prems(5-7)])
    qed
  qed
qed simp

lemma mem_read_set_regs:
  assumes "memory_laws Q"
  shows "q_mem_read Q x n (set_regs Q vals vm) = q_mem_read Q x n vm"
proof -
  have "q_mem_read Q x n (fold (\<lambda>(r, v). q_reg_write Q r v) rvs vm) = q_mem_read Q x n vm" for rvs
    using assms by (induction rvs arbitrary: vm) (auto simp: memory_laws_def)
  then show ?thesis by (simp add: set_regs_def)
qed

lemma enter_caseE:
  assumes "enter_case Q ps c vm = Inr (ptrs, rsp, vm2)"
  obtains rs tp vm1 where "marshal_all Q ps c (q_stack_address Q vm) vm = Inr (rs, ptrs, tp, vm1)"
    "rsp = entry_rsp tp"
    "q_stack_write Q 0 SENTINEL (q_reg_write Q ''rsp'' (entry_rsp tp) (set_regs Q rs vm1)) = Inr vm2"
  using assms unfolding enter_case_def bindE_Inr_iff by (auto simp: bindE_Inr_iff)

lemma enter_case_placed:
  assumes "memory_laws Q" and "distinct (map p_name ps)" and "q_stack_address Q vm mod 16 < 8"
    and "enter_case Q ps c vm = Inr (ptrs, rsp, vm2)" and "p \<in> set ps" and "placed p c = Some b"
  shows "\<exists>a. map_of ptrs (p_name p) = Some a \<and> rsp + 8 \<le> a \<and> a + int (length b) \<le> q_stack_address Q vm
     \<and> q_mem_read Q a (length b) vm2 = Inr b"
proof -
  from assms(4) obtain rs tp vm1 where
    m: "marshal_all Q ps c (q_stack_address Q vm) vm = Inr (rs, ptrs, tp, vm1)" and r: "rsp = entry_rsp tp" and
    w: "q_stack_write Q 0 SENTINEL (q_reg_write Q ''rsp'' (entry_rsp tp) (set_regs Q rs vm1)) = Inr vm2"
    by (rule enter_caseE)
  from marshal_all_placed [OF assms(1,2) m assms(5,6)] obtain a where
    a: "map_of ptrs (p_name p) = Some a" "tp \<le> a" "a + int (length b) \<le> q_stack_address Q vm"
      "q_mem_read Q a (length b) vm1 = Inr b" by blast
  have slot: "rsp + 8 \<le> tp"
    using entry_rsp_slot [of tp] marshal_all_top [OF m] assms(3) r by simp
  then have "q_mem_read Q a (length b) vm2 = q_mem_read Q a (length b) (set_regs Q rs vm1)"
    using assms(1) w a(2) r unfolding memory_laws_def by fastforce
  with a slot mem_read_set_regs [OF assms(1)] show ?thesis by auto
qed

text \<open>
  C14: at the entry of the original the stack is as the ABI and the buffers need it.  When the
  declared names are distinct and the loader's stack top is at most 7 past a multiple of 16,
  \<^verbatim>\<open>rsp\<close> is 8 modulo 16, every string and buffer lies above the return-address slot and below
  the stack top and holds its bytes, and no two of them overlap.
\<close>

theorem enter_case_layout:
  assumes "memory_laws Q" and "distinct (map p_name ps)" and "q_stack_address Q vm mod 16 < 8"
    and "enter_case Q ps c vm = Inr (ptrs, rsp, vm2)"
  shows "rsp mod 16 = 8
    \<and> (\<forall>p \<in> set ps. \<forall>b. placed p c = Some b \<longrightarrow>
        (\<exists>a. map_of ptrs (p_name p) = Some a \<and> rsp + 8 \<le> a
           \<and> a + int (length b) \<le> q_stack_address Q vm \<and> q_mem_read Q a (length b) vm2 = Inr b))
    \<and> (\<forall>p \<in> set ps. \<forall>q \<in> set ps. \<forall>b b' a a'. p \<noteq> q \<longrightarrow> placed p c = Some b \<longrightarrow> placed q c = Some b' \<longrightarrow>
        map_of ptrs (p_name p) = Some a \<longrightarrow> map_of ptrs (p_name q) = Some a' \<longrightarrow>
        a + int (length b) \<le> a' \<or> a' + int (length b') \<le> a)"
proof (intro conjI)
  from assms(4) obtain rs tp vm1 where
    m: "marshal_all Q ps c (q_stack_address Q vm) vm = Inr (rs, ptrs, tp, vm1)" and r: "rsp = entry_rsp tp"
    by (rule enter_caseE)
  show "rsp mod 16 = 8" using r entry_rsp_aligned by simp
  show "\<forall>p \<in> set ps. \<forall>b. placed p c = Some b \<longrightarrow>
        (\<exists>a. map_of ptrs (p_name p) = Some a \<and> rsp + 8 \<le> a
           \<and> a + int (length b) \<le> q_stack_address Q vm \<and> q_mem_read Q a (length b) vm2 = Inr b)"
    using enter_case_placed [OF assms] by blast
  show "\<forall>p \<in> set ps. \<forall>q \<in> set ps. \<forall>b b' a a'. p \<noteq> q \<longrightarrow> placed p c = Some b \<longrightarrow> placed q c = Some b' \<longrightarrow>
        map_of ptrs (p_name p) = Some a \<longrightarrow> map_of ptrs (p_name q) = Some a' \<longrightarrow>
        a + int (length b) \<le> a' \<or> a' + int (length b') \<le> a"
    using marshal_all_disjoint [OF assms(1,2) m] by blast
qed

section \<open>A machine that meets the laws\<close>

text \<open>
  A flat byte memory with named registers, whose code is a given state change; snapshots are
  whole states.  It shows that the emulator's laws can hold.
\<close>

record flat_vm =
  fv_mem :: "int \<Rightarrow> char"
  fv_regs :: "string \<Rightarrow> int"
  fv_sp :: int

definition fv_write :: "int \<Rightarrow> bytes \<Rightarrow> flat_vm \<Rightarrow> flat_vm" where
  "fv_write a b vm =
     vm\<lparr>fv_mem := (\<lambda>x. if a \<le> x \<and> x < a + int (length b) then b ! nat (x - a) else fv_mem vm x)\<rparr>"

definition fv_read :: "int \<Rightarrow> nat \<Rightarrow> flat_vm \<Rightarrow> bytes" where
  "fv_read a n vm = map (\<lambda>i. fv_mem vm (a + int i)) [0..<n]"

definition flat_machine :: "int \<Rightarrow> (flat_vm \<Rightarrow> run_exn option \<times> flat_vm) \<Rightarrow> (flat_vm, flat_vm, unit) qiling" where
  "flat_machine sp code =
     \<lparr>q_new = (\<lambda>b w. (Inr \<lparr>fv_mem = (\<lambda>_. CHR 0x00), fv_regs = (\<lambda>_. 0), fv_sp = sp\<rparr>, w)),
      q_mem_map = (\<lambda>a n. Inr),
      q_stack_address = fv_sp,
      q_mem_write = (\<lambda>a b vm. Inr (fv_write a b vm)),
      q_mem_read = (\<lambda>a n vm. Inr (fv_read a n vm)),
      q_reg_write = (\<lambda>r v vm. vm\<lparr>fv_regs := (fv_regs vm)(r := v)\<rparr>),
      q_reg_read = (\<lambda>r vm. fv_regs vm r),
      q_stack_write = (\<lambda>off v vm. Inr (fv_write (fv_regs vm ''rsp'' + off)
         (map (\<lambda>i. char_of (nat (v div 256 ^ i mod 256))) [0..<8]) vm)),
      q_run = (\<lambda>begin stop timeout. code),
      q_save = id,
      q_restore = (\<lambda>s vm. s)\<rparr>"

lemma fv_read_write_same: "fv_read a (length b) (fv_write a b vm) = b"
  by (rule nth_equalityI) (simp_all add: fv_read_def fv_write_def)

lemma fv_read_write_other:
  "x + int n \<le> a \<or> a + int (length b) \<le> x \<Longrightarrow> fv_read x n (fv_write a b vm) = fv_read x n vm"
  by (auto simp: fv_read_def fv_write_def)

lemma fv_read_regs [simp]: "fv_read x n (vm\<lparr>fv_regs := r\<rparr>) = fv_read x n vm"
  by (simp add: fv_read_def)

lemma flat_machine_laws: "memory_laws (flat_machine sp code)"
  by (auto simp: memory_laws_def flat_machine_def fv_read_write_same fv_read_write_other)

theorem enter_case_layout_witness:
  "let Q = flat_machine 4096 (Pair None);
       ps = [\<lparr>p_name = ''buf'', p_kind = BufferI32, p_length_param = Some ''n'', p_range = (- 5, 5), p_ret = ''void''\<rparr>,
             \<lparr>p_name = ''n'', p_kind = I32, p_length_param = None, p_range = (1, 8), p_ret = ''i32''\<rparr>,
             \<lparr>p_name = ''s'', p_kind = CString, p_length_param = None, p_range = (1, 8), p_ret = ''i32''\<rparr>];
       c = [(''n'', VInt 2), (''buf'', VList [3, - 4]), (''s'', VBytes (''ab'' @ [CHR 0x00]))];
       vm = \<lparr>fv_mem = (\<lambda>_. CHR 0x00), fv_regs = (\<lambda>_. 0), fv_sp = 4096\<rparr>
   in \<exists>ptrs rsp vm2. enter_case Q ps c vm = Inr (ptrs, rsp, vm2) \<and> rsp mod 16 = 8
      \<and> (\<exists>a. map_of ptrs ''s'' = Some a \<and> rsp + 8 \<le> a \<and> q_mem_read Q a 3 vm2 = Inr (''ab'' @ [CHR 0x00]))"
proof -
  define Q where "Q = flat_machine 4096 (Pair None)"
  define ps where "ps = [\<lparr>p_name = ''buf'', p_kind = BufferI32, p_length_param = Some ''n'', p_range = (- 5, 5), p_ret = ''void''\<rparr>,
             \<lparr>p_name = ''n'', p_kind = I32, p_length_param = None, p_range = (1, 8), p_ret = ''i32''\<rparr>,
             \<lparr>p_name = ''s'', p_kind = CString, p_length_param = None, p_range = (1, 8), p_ret = ''i32''\<rparr>]"
  define c where "c = [(''n'', VInt 2), (''buf'', VList [3, - 4]), (''s'', VBytes (''ab'' @ [CHR 0x00]))]"
  define vm where "vm = \<lparr>fv_mem = (\<lambda>_. CHR 0x00), fv_regs = (\<lambda>_. 0), fv_sp = 4096\<rparr>"
  note defs = Q_def ps_def c_def vm_def
  have "\<not> isl (enter_case Q ps c vm)" unfolding defs
    by (simp add: enter_case_def flat_machine_def marshal_def struct_pack_def i32_ok_def dict_get_def Let_def
        has_key_def)
  then obtain ptrs rsp vm2 where e: "enter_case Q ps c vm = Inr (ptrs, rsp, vm2)"
    by (cases "enter_case Q ps c vm") auto
  have laws: "memory_laws Q" unfolding Q_def by (rule flat_machine_laws)
  have dist: "distinct (map p_name ps)" by (simp add: ps_def)
  have al: "q_stack_address Q vm mod 16 < 8" by (simp add: defs flat_machine_def)
  have pl: "placed (ps ! 2) c = Some (''ab'' @ [CHR 0x00])" by (simp add: placed_def defs marshal_def)
  have nm: "p_name (ps ! 2) = ''s''" "ps ! 2 \<in> set ps" by (simp_all add: ps_def)
  note fact = enter_case_layout [OF laws dist al e]
  have "\<exists>a. map_of ptrs ''s'' = Some a \<and> rsp + 8 \<le> a \<and> q_mem_read Q a 3 vm2 = Inr (''ab'' @ [CHR 0x00])"
    using fact [THEN conjunct2, THEN conjunct1, rule_format, OF nm(2) pl] nm(1) by (auto simp: numeral_3_eq_3)
  with e fact [THEN conjunct1] show ?thesis
    unfolding Let_def by (fold Q_def ps_def c_def vm_def) blast
qed

section \<open>What a run observes\<close>

text \<open>A value a parameter's memory can hold after the run: same extent, i32 cells.\<close>

definition held :: "param \<Rightarrow> cval \<Rightarrow> cval \<Rightarrow> bool" where
  "held p v out =
     (case (p_kind p, out) of
        (BufferI32, VList ys) \<Rightarrow> length ys = cells v \<and> list_all i32_ok ys
      | (CString, VBytes b) \<Rightarrow> length b = cells v
      | _ \<Rightarrow> False)"

definition cval_bytes :: "cval \<Rightarrow> bytes" where
  "cval_bytes v = (case v of VList ys \<Rightarrow> concat (map pack_i32 ys) | VBytes b \<Rightarrow> b | VInt _ \<Rightarrow> [])"

definition memory_params :: "param list \<Rightarrow> param list" where
  "memory_params ps = filter (\<lambda>p. p_kind p \<noteq> I32) ps"

lemma marshal_memory:
  assumes "marshal p v = Inr m" and "p_kind p \<noteq> I32"
  obtains b where "m = Inr b" "p_kind p = BufferI32 \<longrightarrow> length b = 4 * cells v"
    "p_kind p = CString \<longrightarrow> length b = cells v"
  using assms
  by (cases "p_kind p"; cases v) (auto simp: marshal_def struct_pack_def cells_def split: if_splits)

lemma marshal_all_pointer:
  assumes "marshal_all Q ps c tp vm = Inr (rs, ptrs, t, vm')" and "p \<in> set ps" and "p_kind p \<noteq> I32"
  shows "\<exists>v b a. map_of c (p_name p) = Some v \<and> placed p c = Some b \<and> map_of ptrs (p_name p) = Some a"
  using assms(1,2)
proof (induction ps arbitrary: tp vm rs ptrs)
  case (Cons q ps)
  from Cons.prems(1) show ?case
  proof (cases rule: marshal_all_Cons_Inr)
    case (scalar i rs')
    have "p \<noteq> q"
    proof
      assume "p = q"
      with Cons.prems(1) obtain v m where "map_of c (p_name p) = Some v" "marshal p v = Inr m"
        by (auto simp: bindE_Inr_iff dict_get_def split: option.splits)
      with assms(3) scalar(2) \<open>p = q\<close> show False
        by (auto elim!: marshal_memory simp: placed_def)
    qed
    with Cons.IH [OF scalar(4)] Cons.prems(2) show ?thesis by simp
  next
    case (memory b vm1 rs' ptrs')
    show ?thesis
    proof (cases "p = q")
      case True
      with memory(1,5) show ?thesis by (auto simp: placed_def has_key_def split: option.splits)
    next
      case False
      with Cons.IH [OF memory(3)] Cons.prems(2) memory(5) show ?thesis by auto
    qed
  qed
qed simp

lemma readback_keys: "readback Q ps c ptrs vm = Inr d \<Longrightarrow> has_key k d \<Longrightarrow> k \<in> p_name ` set ps"
proof (induction ps arbitrary: d)
  case (Cons p ps)
  then show ?case
    by (auto simp: bindE_Inr_iff has_key_def split: if_splits)
qed (simp add: has_key_def)

lemma read_param_holds:
  "held p v out \<Longrightarrow> q_mem_read Q a (length (cval_bytes out)) vm = Inr (cval_bytes out)
   \<Longrightarrow> read_param Q p v a vm = Inr out"
  by (cases "p_kind p"; cases out) (auto simp: held_def cval_bytes_def read_param_def dest: unpack_concat_pack)

lemma readback_holds:
  assumes "distinct (map p_name ps)"
    and "\<And>p. p \<in> set (memory_params ps) \<Longrightarrow>
       \<exists>v a. map_of c (p_name p) = Some v \<and> map_of ptrs (p_name p) = Some a \<and> held p v (out p)
         \<and> q_mem_read Q a (length (cval_bytes (out p))) vm = Inr (cval_bytes (out p))"
  shows "readback Q ps c ptrs vm = Inr (map (\<lambda>p. (p_name p, out p)) (memory_params ps))"
  using assms
proof (induction ps)
  case (Cons p ps)
  let ?d = "map (\<lambda>p. (p_name p, out p)) (memory_params ps)"
  have IH: "readback Q ps c ptrs vm = Inr ?d"
    using Cons by (simp add: memory_params_def)
  show ?case
  proof (cases "p_kind p = I32")
    case True
    with IH show ?thesis by (simp add: memory_params_def)
  next
    case False
    then obtain v a where v: "map_of c (p_name p) = Some v" "map_of ptrs (p_name p) = Some a"
      "held p v (out p)" "q_mem_read Q a (length (cval_bytes (out p))) vm = Inr (cval_bytes (out p))"
      using Cons.prems(2) [of p] by (auto simp: memory_params_def)
    have nk: "\<not> has_key (p_name p) ?d"
      using Cons.prems(1) by (auto simp: has_key_iff memory_params_def)
    show ?thesis
      using False v(1,2) nk IH read_param_holds [OF v(3,4)]
      by (simp add: dict_get_def memory_params_def)
  qed
qed (simp add: memory_params_def)


text \<open>
  C13: a run that returns is observed exactly.  When the original comes back to the return trap
  and each string and buffer then holds a value of its extent, the trace has the i32 return
  value, those memory values under the parameters' names, exit code 0 and no event.
\<close>

theorem run_case_observes:
  assumes "distinct (map p_name ps)"
    and "enter_case Q ps c vm = Inr (ptrs, rsp, vm2)"
    and "q_run Q addr SENTINEL TIMEOUT_US vm2 = (None, vm3)"
    and "q_reg_read Q ''rip'' vm3 = SENTINEL"
    and "\<forall>p \<in> set (memory_params ps). \<forall>v a. map_of c (p_name p) = Some v \<longrightarrow> map_of ptrs (p_name p) = Some a \<longrightarrow>
       held p v (out p) \<and> q_mem_read Q a (length (cval_bytes (out p))) vm3 = Inr (cval_bytes (out p))"
  shows "run_case Q addr ps c vm =
     Inr (\<lparr>ft_ret = c_int32 (q_reg_read Q ''rax'' vm3),
          ft_mem = map (\<lambda>p. (p_name p, out p)) (memory_params ps),
          ft_exit_code = 0, ft_events = [], ft_batch_mode = None\<rparr>, vm3)"
proof -
  from assms(2) obtain rs tp vm1 where
    m: "marshal_all Q ps c (q_stack_address Q vm) vm = Inr (rs, ptrs, tp, vm1)"
    by (rule enter_caseE)
  have "readback Q ps c ptrs vm3 = Inr (map (\<lambda>p. (p_name p, out p)) (memory_params ps))"
  proof (rule readback_holds [OF assms(1)])
    fix p assume p: "p \<in> set (memory_params ps)"
    with marshal_all_pointer [OF m, of p] obtain v a where
      "map_of c (p_name p) = Some v" "map_of ptrs (p_name p) = Some a"
      by (auto simp: memory_params_def)
    with assms(5) p show "\<exists>v a. map_of c (p_name p) = Some v \<and> map_of ptrs (p_name p) = Some a \<and> held p v (out p)
         \<and> q_mem_read Q a (length (cval_bytes (out p))) vm3 = Inr (cval_bytes (out p))" by blast
  qed
  with assms(2-4) show ?thesis by (simp add: run_case_def finish_case_def)
qed

theorem run_case_observes_witness:
  "let code = (\<lambda>vm. (None, (fv_write 4080 (concat (map pack_i32 [7, 9])) vm)
                      \<lparr>fv_regs := (fv_regs vm)(''rip'' := SENTINEL, ''rax'' := 4294967295)\<rparr>));
       p = \<lparr>p_name = ''buf'', p_kind = BufferI32, p_length_param = None, p_range = (- 5, 5), p_ret = ''i32''\<rparr>;
       vm = \<lparr>fv_mem = (\<lambda>_. CHR 0x00), fv_regs = (\<lambda>_. 0), fv_sp = 4096\<rparr>
   in \<exists>vm3. run_case (flat_machine 4096 code) 0 [p] [(''buf'', VList [1, 2])] vm =
        Inr (\<lparr>ft_ret = - 1, ft_mem = [(''buf'', VList [7, 9])], ft_exit_code = 0, ft_events = [],
              ft_batch_mode = None\<rparr>, vm3)"
proof -
  define code where "code = (\<lambda>vm. (None :: run_exn option, (fv_write 4080 (concat (map pack_i32 [7, 9])) vm)
                      \<lparr>fv_regs := (fv_regs vm)(''rip'' := SENTINEL, ''rax'' := 4294967295)\<rparr>))"
  define p where "p = \<lparr>p_name = ''buf'', p_kind = BufferI32, p_length_param = None, p_range = (- 5, 5), p_ret = ''i32''\<rparr>"
  define vm where "vm = \<lparr>fv_mem = (\<lambda>_. CHR 0x00), fv_regs = (\<lambda>_. 0), fv_sp = 4096\<rparr>"
  let ?Q = "flat_machine 4096 code" and ?c = "[(''buf'', VList [1, 2])]"
  have "\<exists>rsp vm2. enter_case ?Q [p] ?c vm = Inr ([(''buf'', 4080)], rsp, vm2)"
    by (simp add: p_def vm_def enter_case_def flat_machine_def marshal_def struct_pack_def i32_ok_def
        dict_get_def Let_def has_key_def round16_def)
  then obtain rsp vm2 where e: "enter_case ?Q [p] ?c vm = Inr ([(''buf'', 4080)], rsp, vm2)" by blast
  let ?vm3 = "snd (code vm2)"
  have run: "q_run ?Q 0 SENTINEL TIMEOUT_US vm2 = (None, ?vm3)"
    by (simp add: flat_machine_def code_def)
  have rip: "q_reg_read ?Q ''rip'' ?vm3 = SENTINEL" and rax: "c_int32 (q_reg_read ?Q ''rax'' ?vm3) = - 1"
    by (simp_all add: flat_machine_def code_def c_int32_def)
  have "fv_read 4080 8 ?vm3 = concat (map pack_i32 [7, 9])"
    using fv_read_write_same [of 4080 "concat (map pack_i32 [7, 9])" vm2] by (simp add: code_def)
  then have "\<forall>q \<in> set (memory_params [p]). \<forall>v a. map_of ?c (p_name q) = Some v \<longrightarrow>
      map_of [(''buf'', 4080)] (p_name q) = Some a \<longrightarrow>
      held q v (VList [7, 9]) \<and> q_mem_read ?Q a (length (cval_bytes (VList [7, 9]))) ?vm3 = Inr (cval_bytes (VList [7, 9]))"
    by (simp add: memory_params_def p_def held_def cells_def i32_ok_def cval_bytes_def flat_machine_def)
  from run_case_observes [OF _ e run rip this] rax have
    "run_case ?Q 0 [p] ?c vm = Inr (\<lparr>ft_ret = - 1, ft_mem = [(''buf'', VList [7, 9])], ft_exit_code = 0,
       ft_events = [], ft_batch_mode = None\<rparr>, ?vm3)"
    by (simp add: memory_params_def p_def)
  then show ?thesis unfolding Let_def code_def p_def vm_def by blast
qed

end
