(* ===== verification/Calling_Batch.thy ===== *)
theory Calling_Batch
  imports Calling_Layout
begin

text \<open>
  \<^verbatim>\<open>batch_call_original\<close> against \<^verbatim>\<open>call_original\<close>: the shared, snapshot-restored VM and the
  per-case VMs give the same traces under the contract that the batch's documentation states.
\<close>

section \<open>The batched route computes what fresh VMs compute\<close>

text \<open>
  The contract the batch relies on, for a function at \<^verbatim>\<open>addr\<close>.  \<^verbatim>\<open>same\<close> relates VMs that no
  operation tells apart; \<^verbatim>\<open>line v\<close> holds of the VMs that differ from the booted \<^verbatim>\<open>v\<close> in registers
  and memory only, which every step of a case keeps (for \<^verbatim>\<open>addr\<close>: it makes no system call), and
  on which restoring the snapshot of \<^verbatim>\<open>v\<close> gives a VM like \<^verbatim>\<open>v\<close>.
\<close>

definition congruent :: "('vm, 'snap, 'w) qiling \<Rightarrow> ('vm \<Rightarrow> 'vm \<Rightarrow> bool) \<Rightarrow> bool" where
  "congruent Q same =
     ((\<forall>u v. same u v \<longrightarrow> q_stack_address Q u = q_stack_address Q v)
      \<and> (\<forall>u v a b. same u v \<longrightarrow> rel_sum (=) same (q_mem_write Q a b u) (q_mem_write Q a b v))
      \<and> (\<forall>u v a n. same u v \<longrightarrow> q_mem_read Q a n u = q_mem_read Q a n v)
      \<and> (\<forall>u v r x. same u v \<longrightarrow> same (q_reg_write Q r x u) (q_reg_write Q r x v))
      \<and> (\<forall>u v r. same u v \<longrightarrow> q_reg_read Q r u = q_reg_read Q r v)
      \<and> (\<forall>u v a x. same u v \<longrightarrow> rel_sum (=) same (q_stack_write Q a x u) (q_stack_write Q a x v))
      \<and> (\<forall>u v a b n. same u v \<longrightarrow> rel_prod (=) same (q_run Q a b n u) (q_run Q a b n v)))"

definition snapshot_laws ::
    "('vm, 'snap, 'w) qiling \<Rightarrow> int \<Rightarrow> ('vm \<Rightarrow> 'vm \<Rightarrow> bool) \<Rightarrow> ('vm \<Rightarrow> 'vm \<Rightarrow> bool) \<Rightarrow> bool" where
  "snapshot_laws Q addr same line =
     ((\<forall>v. line v v)
      \<and> (\<forall>v u. line v u \<longrightarrow> same v (q_restore Q (q_save Q v) u) \<and> line v (q_restore Q (q_save Q v) u))
      \<and> (\<forall>v u u' a b. line v u \<longrightarrow> q_mem_write Q a b u = Inr u' \<longrightarrow> line v u')
      \<and> (\<forall>v u r x. line v u \<longrightarrow> line v (q_reg_write Q r x u))
      \<and> (\<forall>v u u' a x. line v u \<longrightarrow> q_stack_write Q a x u = Inr u' \<longrightarrow> line v u')
      \<and> (\<forall>v u b n. line v u \<longrightarrow> line v (snd (q_run Q addr b n u))))"

definition boots_alike :: "('vm, 'snap, 'w) qiling \<Rightarrow> bytes \<Rightarrow> ('vm \<Rightarrow> 'vm \<Rightarrow> bool) \<Rightarrow> bool" where
  "boots_alike Q b same = (\<forall>w w'. rel_sum (=) same (fst (boot_vm Q b w)) (fst (boot_vm Q b w')))"

lemma rel_bindE:
  assumes "rel_sum (=) A m m'" and "\<And>a a'. A a a' \<Longrightarrow> rel_sum (=) B (f a) (f' a')"
  shows "rel_sum (=) B (bindE m f) (bindE m' f')"
  using assms by (cases m; cases m') auto

lemma marshal_all_sim:
  assumes "congruent Q same" and "same u v"
  shows "rel_sum (=) (\<lambda>(rs, ptrs, t, u') (rs', ptrs', t', v'). rs = rs' \<and> ptrs = ptrs' \<and> t = t' \<and> same u' v')
    (marshal_all Q ps c tp u) (marshal_all Q ps c tp v)"
  using assms(2)
proof (induction ps arbitrary: tp u v)
  case (Cons p ps)
  have w: "rel_sum (=) same (q_mem_write Q a b u) (q_mem_write Q a b v)" for a b
    using assms(1) Cons.prems by (simp add: congruent_def)
  show ?case
    unfolding marshal_all.simps Let_def
    apply (rule rel_bindE [where A = "(=)"], simp add: sum.rel_eq)
    apply (rule rel_bindE [where A = "(=)"], simp add: sum.rel_eq)
    subgoal for val val' m m'
      apply (cases m; clarsimp)
       apply (rule rel_bindE [OF Cons.IH [OF Cons.prems]], clarsimp)
      apply (rule rel_bindE [OF w])
      apply (erule rel_bindE [OF Cons.IH], clarsimp)
      done
    done
qed simp

lemma set_regs_sim:
  assumes "congruent Q same" and "same u v"
  shows "same (set_regs Q vals u) (set_regs Q vals v)"
proof -
  have "same (fold (\<lambda>(r, x). q_reg_write Q r x) rvs u) (fold (\<lambda>(r, x). q_reg_write Q r x) rvs v)" for rvs
    using assms(2)
  proof (induction rvs arbitrary: u v)
    case (Cons rv rvs)
    have "same (q_reg_write Q (fst rv) (snd rv) u) (q_reg_write Q (fst rv) (snd rv) v)"
      using assms(1) Cons.prems by (simp add: congruent_def)
    with Cons.IH show ?case by (simp add: case_prod_beta)
  qed simp
  then show ?thesis by (simp add: set_regs_def)
qed

lemma enter_case_sim:
  assumes "congruent Q same" and "same u v"
  shows "rel_sum (=) (\<lambda>(ptrs, r, u') (ptrs', r', v'). ptrs = ptrs' \<and> r = r' \<and> same u' v')
    (enter_case Q ps c u) (enter_case Q ps c v)"
proof -
  have sp: "q_stack_address Q u = q_stack_address Q v"
    using assms by (simp add: congruent_def)
  have st: "rel_sum (=) same (q_stack_write Q a x (q_reg_write Q r y (set_regs Q rs u')))
      (q_stack_write Q a x (q_reg_write Q r y (set_regs Q rs v')))" if "same u' v'" for a x r y rs u' v'
    using assms(1) set_regs_sim [OF assms(1) that] by (simp add: congruent_def)
  show ?thesis
    unfolding enter_case_def sp
    by (rule rel_bindE [OF marshal_all_sim [OF assms]]) (auto intro: rel_bindE [OF st])
qed

lemma readback_sim:
  assumes "congruent Q same" and "same u v"
  shows "readback Q ps c ptrs u = readback Q ps c ptrs v"
proof -
  have "q_mem_read Q a n u = q_mem_read Q a n v" for a n
    using assms by (simp add: congruent_def)
  then have "read_param Q p x a u = read_param Q p x a v" for p x a
    by (simp add: read_param_def)
  then show ?thesis by (induction ps) simp_all
qed

lemma finish_case_sim:
  assumes "congruent Q same" and "rel_prod (=) same r s"
  shows "finish_case Q ps c ptrs r = finish_case Q ps c ptrs s"
proof -
  from assms(2) have f: "fst r = fst s" and sm: "same (snd r) (snd s)"
    by (auto simp: rel_prod_sel)
  have "q_reg_read Q g (snd r) = q_reg_read Q g (snd s)" for g
    using assms(1) sm by (simp add: congruent_def)
  with readback_sim [OF assms(1) sm] f show ?thesis
    by (cases r; cases s) (simp add: finish_case_def split: option.splits)
qed

lemma run_case_sim:
  assumes "congruent Q same" and "same u v"
  shows "rel_sum (=) (rel_prod (=) same) (run_case Q addr ps c u) (run_case Q addr ps c v)"
proof -
  have run: "rel_prod (=) same (q_run Q a b n u') (q_run Q a b n v')" if "same u' v'" for a b n u' v'
    using assms(1) that by (simp add: congruent_def)
  show ?thesis
    unfolding run_case_def Let_def
  proof (rule rel_bindE [OF enter_case_sim [OF assms]], clarify)
    fix ptrs r u' v' assume s: "same u' v'"
    note r = run [OF s, of addr SENTINEL TIMEOUT_US]
    show "rel_sum (=) (rel_prod (=) same)
       (bindE (finish_case Q ps c ptrs (q_run Q addr SENTINEL TIMEOUT_US u'))
         (\<lambda>t. Inr (t, snd (q_run Q addr SENTINEL TIMEOUT_US u'))))
       (bindE (finish_case Q ps c ptrs (q_run Q addr SENTINEL TIMEOUT_US v'))
         (\<lambda>t. Inr (t, snd (q_run Q addr SENTINEL TIMEOUT_US v'))))"
      unfolding finish_case_sim [OF assms(1) r]
      by (rule rel_bindE [where A = "(=)"]) (use r in \<open>auto simp: sum.rel_eq rel_prod_sel\<close>)
  qed
qed

lemma run_case_alike:
  assumes "congruent Q same" and "same u v"
  shows "bindE (run_case Q addr ps c u) (\<lambda>(t, _). Inr (g t)) = bindE (run_case Q addr ps c v) (\<lambda>(t, _). Inr (g t))"
  using run_case_sim [OF assms, of addr ps c]
  by (cases "run_case Q addr ps c u"; cases "run_case Q addr ps c v") (auto simp: rel_prod_sel)

lemma snapshot_lawsD:
  assumes "snapshot_laws Q addr same line"
  shows "line v v"
    and "line v u \<Longrightarrow> same v (q_restore Q (q_save Q v) u)"
    and "line v u \<Longrightarrow> line v (q_restore Q (q_save Q v) u)"
    and "line v u \<Longrightarrow> q_mem_write Q a b u = Inr u' \<Longrightarrow> line v u'"
    and "line v u \<Longrightarrow> line v (q_reg_write Q r x u)"
    and "line v u \<Longrightarrow> q_stack_write Q a x u = Inr u' \<Longrightarrow> line v u'"
    and "line v u \<Longrightarrow> line v (snd (q_run Q addr a' n u))"
proof -
  note laws = assms [unfolded snapshot_laws_def]
  show "line v v" by (rule laws [THEN conjunct1, rule_format])
  show "line v u \<Longrightarrow> same v (q_restore Q (q_save Q v) u)" using laws by blast
  show "line v u \<Longrightarrow> line v (q_restore Q (q_save Q v) u)" using laws by blast
  show "line v u \<Longrightarrow> q_mem_write Q a b u = Inr u' \<Longrightarrow> line v u'" using laws by blast
  show "line v u \<Longrightarrow> line v (q_reg_write Q r x u)" using laws by blast
  show "line v u \<Longrightarrow> q_stack_write Q a x u = Inr u' \<Longrightarrow> line v u'" using laws by blast
  show "line v u \<Longrightarrow> line v (snd (q_run Q addr a' n u))" using laws by blast
qed

lemma marshal_all_line:
  assumes "snapshot_laws Q addr same line" and "line v u"
    and "marshal_all Q ps c tp u = Inr (rs, ptrs, t, u')"
  shows "line v u'"
  using assms(2,3)
proof (induction ps arbitrary: tp u rs ptrs)
  case (Cons p ps)
  from Cons.prems(2) show ?case
  proof (cases rule: marshal_all_Cons_Inr)
    case (memory b vm1 rs' ptrs')
    have "line v vm1" by (rule snapshot_lawsD(4) [OF assms(1) Cons.prems(1) memory(2)])
    then show ?thesis by (rule Cons.IH [OF _ memory(3)])
  qed (use Cons in blast)
qed simp

lemma run_case_line:
  assumes laws: "snapshot_laws Q addr same line" and "line v u"
    and "run_case Q addr ps c u = Inr (t, u')"
  shows "line v u'"
proof -
  have regs: "line v (fold (\<lambda>(r, x). q_reg_write Q r x) rvs x)" if "line v x" for x rvs
    using that by (induction rvs arbitrary: x) (auto intro: snapshot_lawsD(5) [OF laws])
  from assms(3) obtain ptrs rsp vm2 where e: "enter_case Q ps c u = Inr (ptrs, rsp, vm2)"
    and u': "u' = snd (q_run Q addr SENTINEL TIMEOUT_US vm2)"
    by (auto simp: run_case_def Let_def bindE_Inr_iff)
  from e have "line v vm2"
  proof (rule enter_caseE)
    fix rs tp vm1
    assume m: "marshal_all Q ps c (q_stack_address Q u) u = Inr (rs, ptrs, tp, vm1)"
      and w: "q_stack_write Q 0 SENTINEL (q_reg_write Q ''rsp'' (entry_rsp tp) (set_regs Q rs vm1)) = Inr vm2"
    have "line v (set_regs Q rs vm1)"
      using regs [OF marshal_all_line [OF laws assms(2) m]] by (simp add: set_regs_def)
    then show "line v vm2" by (rule snapshot_lawsD(6) [OF laws snapshot_lawsD(5) [OF laws] w])
  qed
  then show ?thesis unfolding u' by (rule snapshot_lawsD(7) [OF laws])
qed

lemma snapshot_cases_fresh:
  assumes "congruent Q same" and "snapshot_laws Q addr same line" and "line v u"
  shows "bindE (snapshot_cases Q no_hooks (q_save Q v) addr ps cs u) (\<lambda>(ts, _). Inr ts)
    = mapE (\<lambda>c. bindE (run_case Q addr ps c v) (\<lambda>(t, _). Inr (with_mode ''batched-snapshot'' t))) cs"
  using assms(3)
proof (induction cs arbitrary: u)
  case (Cons c cs)
  let ?r = "q_restore Q (q_save Q v) u"
  have r: "same v ?r" "line v ?r" by (rule snapshot_lawsD(2,3) [OF assms(2) Cons.prems])+
  note sim = run_case_sim [OF assms(1) r(1), of addr ps c]
  show ?case
  proof (cases "run_case Q addr ps c ?r")
    case (Inl e)
    with sim show ?thesis by (cases "run_case Q addr ps c v") (simp_all add: no_hooks_def)
  next
    case (Inr tv)
    then obtain t u1 where tv: "run_case Q addr ps c ?r = Inr (t, u1)" by (cases tv) simp
    with sim obtain v1 where v1: "run_case Q addr ps c v = Inr (t, v1)"
      by (cases "run_case Q addr ps c v") (auto simp: rel_prod_sel)
    from Cons.IH [OF run_case_line [OF assms(2) r(2) tv]] tv v1 show ?thesis
      by (cases "snapshot_cases Q no_hooks (q_save Q v) addr ps cs u1")
        (auto simp: no_hooks_def split: sum.splits)
  qed
qed simp

lemma call_original_boot:
  assumes "congruent Q same" and "boots_alike Q b same" and "length ps \<le> length BAREGS"
    and "fst (boot_vm Q b w') = Inr v"
  shows "fst (call_original Q b addr ps c w) = bindE (run_case Q addr ps c v) (\<lambda>(t, _). Inr t)"
proof -
  have "rel_sum (=) same (fst (boot_vm Q b w')) (fst (boot_vm Q b w))"
    using assms(2) by (simp add: boots_alike_def)
  with assms(4) obtain u where "fst (boot_vm Q b w) = Inr u" "same v u"
    by (cases "fst (boot_vm Q b w)") auto
  with run_case_alike [OF assms(1), of v u addr ps c "\<lambda>t. t"] assms(3) show ?thesis
    by (simp add: call_original_def guard_arity_def case_prod_beta)
qed

lemma fresh_case_alike:
  assumes "congruent Q same" and "boots_alike Q b same" and "length ps \<le> length BAREGS"
  shows "fst (fresh_case Q no_hooks b addr ps c w')
    = bindE (fst (call_original Q b addr ps c w)) (\<lambda>t. Inr (with_mode ''fresh-vm-fallback'' t))"
proof (cases "fst (boot_vm Q b w')")
  case (Inl e)
  have "rel_sum (=) same (fst (boot_vm Q b w')) (fst (boot_vm Q b w))"
    using assms(2) by (simp add: boots_alike_def)
  with Inl have "fst (boot_vm Q b w) = Inl e" by (cases "fst (boot_vm Q b w)") simp_all
  with Inl assms(3) show ?thesis
    by (simp add: fresh_case_def call_original_def guard_arity_def case_prod_beta)
next
  case (Inr v)
  from call_original_boot [OF assms Inr, of addr c w] Inr show ?thesis
    by (cases "run_case Q addr ps c v") (auto simp: fresh_case_def no_hooks_def case_prod_beta)
qed

lemma fresh_cases_alike:
  assumes "congruent Q same" and "boots_alike Q b same" and "length ps \<le> length BAREGS"
  shows "fst (fresh_cases Q no_hooks b addr ps cs w')
    = mapE (\<lambda>c. bindE (fst (call_original Q b addr ps c w)) (\<lambda>t. Inr (with_mode ''fresh-vm-fallback'' t))) cs"
proof (induction cs arbitrary: w')
  case (Cons c cs)
  note one = fresh_case_alike [OF assms, of addr c w' w]
  obtain r w1 where f: "fresh_case Q no_hooks b addr ps c w' = (r, w1)" by fastforce
  show ?case
  proof (cases r)
    case (Inl e)
    with f one have "bindE (fst (call_original Q b addr ps c w)) (\<lambda>t. Inr (with_mode ''fresh-vm-fallback'' t)) = Inl e"
      by simp
    with f Inl show ?thesis by simp
  next
    case (Inr t)
    with f one have "bindE (fst (call_original Q b addr ps c w)) (\<lambda>t. Inr (with_mode ''fresh-vm-fallback'' t)) = Inr t"
      by simp
    with f Inr Cons.IH [of w1] show ?thesis
      by (simp add: case_prod_beta bindE_def)
  qed
qed simp

lemma batch_fresh:
  assumes "congruent Q same" and "snapshot_laws Q addr same line" and "boots_alike Q b same"
    and "length ps \<le> length BAREGS" and "fn_has_syscall T b addr = Inr answer"
  shows "fst (batch_call_original Q T no_hooks b addr ps cs w)
    = mapE (\<lambda>c. bindE (fst (call_original Q b addr ps c w')) (\<lambda>t.
        Inr (with_mode (if answer = Some False then ''batched-snapshot'' else ''fresh-vm-fallback'') t))) cs"
proof (cases "answer = Some False \<and> cs \<noteq> []")
  case False
  with assms(4,5) fresh_cases_alike [OF assms(1,3,4), of addr cs w w'] show ?thesis
    by (auto simp: batch_call_original_def guard_arity_def)
next
  case True
  then have cs: "cs \<noteq> []" and ans: "answer = Some False" by simp_all
  have b: "fst (batch_call_original Q T no_hooks b addr ps cs w)
      = bindE (fst (boot_vm Q b w)) (\<lambda>vm. bindE (snapshot_cases Q no_hooks (q_save Q vm) addr ps cs vm)
          (\<lambda>(ts, _). Inr ts))"
    using cs ans assms(4,5)
    by (simp add: batch_call_original_def guard_arity_def case_prod_beta no_hooks_def)
  show ?thesis
  proof (cases "fst (boot_vm Q b w)")
    case (Inl e)
    have "rel_sum (=) same (fst (boot_vm Q b w)) (fst (boot_vm Q b w'))"
      using assms(3) by (simp add: boots_alike_def)
    with Inl have "fst (boot_vm Q b w') = Inl e" by (cases "fst (boot_vm Q b w')") simp_all
    then have "fst (call_original Q b addr ps c w') = Inl e" for c
      using assms(4) by (simp add: call_original_def guard_arity_def case_prod_beta)
    with b Inl cs show ?thesis by (cases cs) simp_all
  next
    case (Inr v)
    have "bindE (fst (call_original Q b addr ps c w')) (\<lambda>t. Inr (with_mode ''batched-snapshot'' t))
      = bindE (run_case Q addr ps c v) (\<lambda>(t, _). Inr (with_mode ''batched-snapshot'' t))" for c
      unfolding call_original_boot [OF assms(1,3,4) Inr, of addr c w']
      by (cases "run_case Q addr ps c v") auto
    with b Inr ans snapshot_cases_fresh [OF assms(1,2) snapshot_lawsD(1) [OF assms(2)]] show ?thesis
      by simp
  qed
qed

text \<open>
  C9: the batch is call-by-call equivalent to fresh VMs.  If booting the binary always gives
  VMs no operation tells apart and the snapshot covers what the function's code changes, then a
  batch without instrumentation returns, case by case, the trace that \<^verbatim>\<open>call_original\<close> returns on a
  VM of its own (with the route's name added), and raises what the first failing case raises.
  This holds on both routes, whichever \<^verbatim>\<open>_fn_has_syscall\<close> selects.
\<close>

theorem batch_call_original_fresh:
  assumes "congruent Q same" and "snapshot_laws Q addr same line" and "boots_alike Q b same"
    and "length ps \<le> length BAREGS" and "fn_has_syscall T b addr = Inr answer"
  shows "fst (batch_call_original Q T no_hooks b addr ps cs w)
    = mapE (\<lambda>c. bindE (fst (call_original Q b addr ps c w')) (\<lambda>t.
        Inr (with_mode (if answer = Some False then ''batched-snapshot'' else ''fresh-vm-fallback'') t))) cs"
  using assms by (rule batch_fresh)

lemma flat_congruent: "congruent (flat_machine sp code) (=)"
  by (auto simp: congruent_def rel_sum_sel rel_prod_sel)

lemma flat_snapshot: "snapshot_laws (flat_machine sp code) addr (=) (\<lambda>_ _. True)"
  by (simp add: snapshot_laws_def flat_machine_def)

lemma flat_boots: "boots_alike (flat_machine sp code) b (=)"
  by (simp add: boots_alike_def boot_vm_def flat_machine_def)

theorem batch_call_original_fresh_witness:
  "let T = \<lparr>elf_of = (\<lambda>_. \<lparr>text_addr = 4096, text_data = replicate 8 (CHR 0x90),
              elf_symbols = Some [\<lparr>sym_name = ''f'', sym_value = 4096, sym_size = 4, sym_type = ''STT_FUNC''\<rparr>]\<rparr>),
            disasm = (\<lambda>_ a. [\<lparr>in_address = a, in_mnemonic = ''ret'', in_op_str = [], in_operands = [],
              in_jump = False, in_ret = True\<rparr>])\<rparr>;
       Q = flat_machine 4096 (\<lambda>vm. (None, vm\<lparr>fv_regs := (fv_regs vm)(''rip'' := SENTINEL)\<rparr>));
       p = \<lparr>p_name = ''n'', p_kind = I32, p_length_param = None, p_range = (1, 8), p_ret = ''i32''\<rparr>
   in fst (batch_call_original Q T no_hooks [] 4096 [p] [[(''n'', VInt 1)], [(''n'', VInt 2)]] ())
      = mapE (\<lambda>c. bindE (fst (call_original Q [] 4096 [p] c ())) (\<lambda>t. Inr (with_mode ''batched-snapshot'' t)))
          [[(''n'', VInt 1)], [(''n'', VInt 2)]]"
proof -
  let ?T = "\<lparr>elf_of = (\<lambda>_. \<lparr>text_addr = 4096, text_data = replicate 8 (CHR 0x90),
              elf_symbols = Some [\<lparr>sym_name = ''f'', sym_value = 4096, sym_size = 4, sym_type = ''STT_FUNC''\<rparr>]\<rparr>),
            disasm = (\<lambda>_ a. [\<lparr>in_address = a, in_mnemonic = ''ret'', in_op_str = [], in_operands = [],
              in_jump = False, in_ret = True\<rparr>])\<rparr>"
  have "fn_has_syscall ?T [] 4096 = Inr (Some False)"
    by (simp add: fn_has_syscall_def symtab_def function_insns_def Let_def SYSCALL_MNEMONICS_def)
  from batch_call_original_fresh [OF flat_congruent flat_snapshot flat_boots _ this]
  show ?thesis by (simp add: BAREGS_def del: mapE.simps)
qed

end
