(* ===== verification/Scout.thy ===== *)
theory Scout
  imports Calling_Layout
begin

text \<open>
  \<^verbatim>\<open>src/src/reschema/validate/scout.py\<close>: fuzz cases carved from the immediates of the original's
  own code, and how they share the round's envelope with the uniform draws.
\<close>

section \<open>The model\<close>

definition SCOUT_SLICE_MAX :: nat where "SCOUT_SLICE_MAX = 16"

definition THRESH_MNEMONICS :: "string list" where
  "THRESH_MNEMONICS = [''cmp'', ''test'', ''sub'', ''add'', ''imul'']"

definition insn_immediates :: "insn \<Rightarrow> int list" where
  "insn_immediates i =
     (if in_mnemonic i \<in> set THRESH_MNEMONICS
      then map (\<lambda>op. op_imm op mod 2 ^ 32) (filter (\<lambda>op. op_type op = OpImm) (in_operands i))
      else [])"

definition scrape_immediates :: "tools \<Rightarrow> bytes \<Rightarrow> int \<Rightarrow> int \<Rightarrow> int list result" where
  "scrape_immediates T b addr sz =
     (let base = text_addr (elf_of T b); n = int (length (text_data (elf_of T b))); off = addr - base
      in if \<not> (0 \<le> off \<and> off < n) then Inr []
         else let clamped = min sz (n - off)
              in if clamped \<le> 0 then Inr []
                 else bindE (function_insns T b addr clamped) (\<lambda>is.
                        Inr (fromkeys (concat (map insn_immediates is)))))"

definition readings :: "int \<Rightarrow> int list" where
  "readings raw = (if raw < 2 ^ 31 then [raw] else [raw, raw - 2 ^ 32])"

text \<open>
  One parameter of one case: its value, and for a buffer the length its length parameter must
  describe.  \<^verbatim>\<open>raw.to_bytes(4, "little")\<close> of an unsigned 32-bit \<^verbatim>\<open>raw\<close> is the same four bytes as
  the i32 cell with its bits.
\<close>

definition scout_param :: "int \<Rightarrow> int \<Rightarrow> param \<Rightarrow> case_in \<times> int dict \<Rightarrow> case_in \<times> int dict" where
  "scout_param raw needle p s =
     (case p_kind p of
        I32 \<Rightarrow> (AList.update (p_name p) (VInt needle) (fst s), snd s)
      | CString \<Rightarrow> (AList.update (p_name p) (VBytes (pack_i32 raw @ [CHR 0x00])) (fst s), snd s)
      | BufferI32 \<Rightarrow>
          (AList.update (p_name p) (VList [needle]) (fst s),
           (case p_length_param p of
              Some l \<Rightarrow> if l \<noteq> [] then AList.update l 1 (snd s) else snd s
            | None \<Rightarrow> snd s)))"

definition snap_lengths :: "int dict \<Rightarrow> case_in \<Rightarrow> case_in" where
  "snap_lengths lps c = fold (\<lambda>(lp, ln) d. if has_key lp c then AList.update lp (VInt ln) d else d) lps c"

definition scout_case :: "param list \<Rightarrow> int \<Rightarrow> int \<Rightarrow> case_in" where
  "scout_case ps raw needle =
     (let s = fold (scout_param raw needle) ps ([], []) in snap_lengths (snd s) (fst s))"

definition scout_inputs :: "param list \<Rightarrow> int list \<Rightarrow> case_in list" where
  "scout_inputs ps imms =
     concat (map (\<lambda>raw. filter (\<lambda>c. c \<noteq> []) (map (scout_case ps raw) (readings raw))) imms)"

definition scout_slice_budget :: "nat \<Rightarrow> nat" where
  "scout_slice_budget n = min SCOUT_SLICE_MAX (n div 4)"

definition scout_count :: "'a list \<Rightarrow> nat \<Rightarrow> nat" where
  "scout_count scouts n = min (min (scout_slice_budget n) (length scouts)) n"

definition merge_scout_cases :: "'a list \<Rightarrow> 'a list \<Rightarrow> nat \<Rightarrow> 'a list" where
  "merge_scout_cases uniform scouts n =
     (let k = scout_count scouts n in take k scouts @ drop k uniform)"

section \<open>The scrape never stops a round\<close>

lemma scrape_immediates_total: "\<exists>imms. scrape_immediates T b addr sz = Inr imms"
  by (auto simp: scrape_immediates_def Let_def function_insns_def)


section \<open>The envelope\<close>

lemma scout_count_bounds: "scout_count s n \<le> 16" "4 * scout_count s n \<le> n" "scout_count s n \<le> length s"
  by (auto simp: scout_count_def scout_slice_budget_def SCOUT_SLICE_MAX_def)

lemma length_merge_scout_cases:
  "length uniform = n \<Longrightarrow> length (merge_scout_cases uniform scouts n) = n"
  using scout_count_bounds [of scouts n] by (auto simp: merge_scout_cases_def Let_def)

text \<open>
  The scouts never crowd out the declared draws.  A round of \<^verbatim>\<open>n\<close> keeps its length; its first
  \<^verbatim>\<open>k\<close> positions are scouts and every later one is the uniform draw of that position, with
  \<^verbatim>\<open>k\<close> at most 16 and at most a quarter of the round; all scouts are used when they fit.
\<close>

lemma merge_scout_envelope:
  assumes "length uniform = n"
  shows "length (merge_scout_cases uniform scouts n) = n
    \<and> (\<exists>k. k \<le> 16 \<and> 4 * k \<le> n \<and> k \<le> length scouts
         \<and> (length scouts \<le> 16 \<and> 4 * length scouts \<le> n \<longrightarrow> k = length scouts)
         \<and> (\<forall>i < n. merge_scout_cases uniform scouts n ! i = (if i < k then scouts ! i else uniform ! i)))"
proof (intro conjI exI [of _ "scout_count scouts n"] impI allI)
  show "length (merge_scout_cases uniform scouts n) = n"
    by (rule length_merge_scout_cases [OF assms])
  show "scout_count scouts n = length scouts" if "length scouts \<le> 16 \<and> 4 * length scouts \<le> n"
    using that by (auto simp: scout_count_def scout_slice_budget_def SCOUT_SLICE_MAX_def)
  fix i assume "i < n"
  then show "merge_scout_cases uniform scouts n ! i = (if i < scout_count scouts n then scouts ! i else uniform ! i)"
    using assms scout_count_bounds [of scouts n]
    by (auto simp: merge_scout_cases_def Let_def nth_append)
qed (rule scout_count_bounds)+

section \<open>What the scout cases carry\<close>

definition scout_value :: "int \<Rightarrow> int \<Rightarrow> param \<Rightarrow> cval" where
  "scout_value raw needle p =
     (case p_kind p of I32 \<Rightarrow> VInt needle | CString \<Rightarrow> VBytes (pack_i32 raw @ [CHR 0x00])
      | BufferI32 \<Rightarrow> VList [needle])"

definition sized_by :: "param list \<Rightarrow> string \<Rightarrow> bool" where
  "sized_by ps l = (l \<noteq> [] \<and> list_ex (\<lambda>p. p_kind p = BufferI32 \<and> p_length_param p = Some l) ps)"

lemma fst_scout_param: "fst (scout_param raw needle p s) = AList.update (p_name p) (scout_value raw needle p) (fst s)"
  by (simp add: scout_param_def scout_value_def split: kind.split)

lemma snd_scout_param:
  "map_of (snd (scout_param raw needle p s)) l =
     (if p_kind p = BufferI32 \<and> p_length_param p = Some l \<and> l \<noteq> [] then Some 1 else map_of (snd s) l)"
  by (auto simp: scout_param_def split: kind.split option.split)

lemma distinct_snd_scout_param:
  "distinct (map fst (snd s)) \<Longrightarrow> distinct (map fst (snd (scout_param raw needle p s)))"
  by (auto simp: scout_param_def distinct_AList_update split: kind.split option.split)

lemma fold_scout_other:
  "k \<notin> p_name ` set ps \<Longrightarrow> map_of (fst (fold (scout_param raw needle) ps s)) k = map_of (fst s) k"
  by (induction ps arbitrary: s) (simp_all add: fst_scout_param)

lemma fold_scout_value:
  "distinct (map p_name ps) \<Longrightarrow> p \<in> set ps \<Longrightarrow>
   map_of (fst (fold (scout_param raw needle) ps s)) (p_name p) = Some (scout_value raw needle p)"
proof (induction ps arbitrary: s)
  case (Cons q ps)
  show ?case
  proof (cases "p \<in> set ps")
    case True
    with Cons show ?thesis by simp
  next
    case False
    with Cons.prems have [simp]: "q = p" by simp
    from Cons.prems have "p_name p \<notin> p_name ` set ps" by simp
    from fold_scout_other [OF this] show ?thesis by (simp add: fst_scout_param)
  qed
qed simp

lemma fold_scout_lengths:
  "map_of (snd (fold (scout_param raw needle) ps s)) l = (if sized_by ps l then Some 1 else map_of (snd s) l)"
  by (induction ps arbitrary: s) (auto simp: sized_by_def snd_scout_param)

lemma distinct_fold_scout:
  "distinct (map fst (snd s)) \<Longrightarrow> distinct (map fst (snd (fold (scout_param raw needle) ps s)))"
  by (induction ps arbitrary: s) (simp_all add: distinct_snd_scout_param)

lemma map_of_snap_lengths:
  assumes "distinct (map fst lps)"
  shows "map_of (snap_lengths lps c) k =
    (case map_of lps k of Some ln \<Rightarrow> if has_key k c then Some (VInt ln) else map_of c k | None \<Rightarrow> map_of c k)"
proof -
  have "map_of (fold (\<lambda>(lp, ln) d. if has_key lp c then AList.update lp (VInt ln) d else d) lps d) k =
    (case map_of lps k of Some ln \<Rightarrow> if has_key k c then Some (VInt ln) else map_of d k | None \<Rightarrow> map_of d k)" for d
    using assms
  proof (induction lps arbitrary: d)
    case (Cons lp lps)
    then have "map_of lps (fst lp) = None" by (simp add: map_of_eq_None_iff)
    with Cons show ?case by (cases lp) (auto split: option.splits)
  qed simp
  then show ?thesis by (simp add: snap_lengths_def)
qed

lemma scout_case_value:
  assumes "params_ok ps" and "p \<in> set ps"
  shows "map_of (scout_case ps raw needle) (p_name p) =
    Some (if p_kind p = I32 \<and> sized_by ps (p_name p) then VInt 1 else scout_value raw needle p)"
proof -
  let ?s = "fold (scout_param raw needle) ps ([], [])"
  have v: "map_of (fst ?s) (p_name p) = Some (scout_value raw needle p)"
    using assms by (intro fold_scout_value) (simp_all add: params_ok_def)
  have "p_kind p = I32" if "sized_by ps (p_name p)"
  proof -
    from that obtain q where q: "q \<in> set ps" "p_length_param q = Some (p_name p)"
      by (auto simp: sized_by_def list_ex_iff)
    with params_okD(4) [OF assms(1) q(1)] obtain r where "r \<in> set ps" "p_name r = p_name p" "p_kind r = I32"
      by (auto simp: param_ok_def list_ex_iff)
    with same_name_same_param [OF assms(1), of r p] assms(2) show ?thesis by simp
  qed
  then show ?thesis
    using v by (auto simp: scout_case_def Let_def map_of_snap_lengths distinct_fold_scout fold_scout_lengths
        has_key_def)
qed

lemma scout_case_not_empty: "params_ok ps \<Longrightarrow> ps \<noteq> [] \<Longrightarrow> scout_case ps raw needle \<noteq> []"
  using scout_case_value [of ps "hd ps" raw needle] by auto


lemma set_scout_inputs:
  assumes "params_ok ps" and "ps \<noteq> []"
  shows "set (scout_inputs ps imms) = {scout_case ps x y | x y. x \<in> set imms \<and> y \<in> set (readings x)}"
  using scout_case_not_empty [OF assms] by (auto simp: scout_inputs_def)


text \<open>
  C31: an unsigned reading does not fit a buffer cell.  When a declaration has a buffer and the
  original compares with an immediate of 2 to the 31 or more (such as \<^verbatim>\<open>cmp eax, -1\<close>), one of the
  scout cases cannot be marshalled: running it raises on every emulator, address and state.
\<close>

theorem scout_overflow_raises:
  assumes "params_ok ps" and "p \<in> set ps" and "p_kind p = BufferI32"
    and "x \<in> set imms" and "2 ^ 31 \<le> x"
  shows "\<exists>c \<in> set (scout_inputs ps imms). \<forall>addr (vm :: 'vm).
     \<exists>e. run_case (Q :: ('vm, 'snap, 'w) qiling) addr ps c vm = Inl e"
proof (rule bexI)
  let ?c = "scout_case ps x x"
  show "?c \<in> set (scout_inputs ps imms)"
  proof -
    have "ps \<noteq> []" using assms(2) by auto
    then show ?thesis using assms(4,5) by (auto simp: set_scout_inputs [OF assms(1)] readings_def)
  qed
  have "map_of ?c (p_name p) = Some (VList [x])"
    by (simp add: scout_case_value [OF assms(1,2)] scout_value_def assms(3))
  then have none: "placed p ?c = None"
    using assms(3,5) by (simp add: placed_def marshal_def struct_pack_def i32_ok_def)
  show "\<forall>addr (vm :: 'vm). \<exists>e. run_case Q addr ps ?c vm = Inl e"
  proof (intro allI)
    fix addr and vm :: 'vm
    have "enter_case Q ps ?c vm \<noteq> Inr (ptrs, rsp, vm2)" for ptrs rsp vm2
    proof
      assume "enter_case Q ps ?c vm = Inr (ptrs, rsp, vm2)"
      then show False
      proof (rule enter_caseE)
        fix rs tp vm1
        assume m: "marshal_all Q ps ?c (q_stack_address Q vm) vm = Inr (rs, ptrs, tp, vm1)"
        show False using marshal_all_pointer [OF m assms(2)] assms(3) none by simp
      qed
    qed
    then show "\<exists>e. run_case Q addr ps ?c vm = Inl e"
      by (cases "enter_case Q ps ?c vm") (auto simp: run_case_def)
  qed
qed

theorem scout_overflow_raises_witness:
  "let ps = [\<lparr>p_name = ''buf'', p_kind = BufferI32, p_length_param = None, p_range = (- 5, 5), p_ret = ''i32''\<rparr>]
   in \<exists>c \<in> set (scout_inputs ps [4294967295]). \<forall>addr vm.
        \<exists>e. run_case (flat_machine 4096 (Pair None)) addr ps c vm = Inl e"
  unfolding Let_def
  by (rule scout_overflow_raises [where x = 4294967295
        and p = "\<lparr>p_name = ''buf'', p_kind = BufferI32, p_length_param = None, p_range = (- 5, 5), p_ret = ''i32''\<rparr>"])
    (simp_all add: params_ok_def param_ok_def i32_ok_def sizes_buffer_def)


end
