(* ===== verification/Py_Text.thy ===== *)
theory Py_Text
  imports Py_Values
begin

text \<open>
  \<^verbatim>\<open>repr\<close> and \<^verbatim>\<open>str\<close> of the values that reach messages: integers, text, bytes, lists and
  dictionaries.  Which non-ASCII code points print as themselves is the Unicode database's
  answer, a parameter \<^verbatim>\<open>printable\<close>.
\<close>

definition utf8_enc :: "nat \<Rightarrow> str" where
  "utf8_enc n =
     (if n < 128 then [char_of n]
      else if n < 2048 then map char_of [192 + n div 64, 128 + n mod 64]
      else if n < 65536 then map char_of [224 + n div 4096, 128 + n div 64 mod 64, 128 + n mod 64]
      else map char_of [240 + n div 262144, 128 + n div 4096 mod 64, 128 + n div 64 mod 64, 128 + n mod 64])"

definition hex2 :: "nat \<Rightarrow> string" where
  "hex2 n = [digit_char (n div 16 mod 16), digit_char (n mod 16)]"

definition backslash :: char where "backslash = CHR 0x5C"

text \<open>The quote: double when the text has a single quote and no double one.\<close>

definition repr_quote :: "nat list \<Rightarrow> nat" where
  "repr_quote ns = (if 39 \<in> set ns \<and> 34 \<notin> set ns then 34 else 39)"

text \<open>The escapes below 128, shared by \<^verbatim>\<open>str\<close> and \<^verbatim>\<open>bytes\<close>.\<close>

definition repr_ascii :: "nat \<Rightarrow> nat \<Rightarrow> string" where
  "repr_ascii q n =
     (if n = q \<or> n = 92 then [backslash, char_of n]
      else if n = 9 then [backslash, CHR ''t'']
      else if n = 10 then [backslash, CHR ''n'']
      else if n = 13 then [backslash, CHR ''r'']
      else if 32 \<le> n \<and> n < 127 then [char_of n]
      else backslash # CHR ''x'' # hex2 n)"

definition repr_bytes :: "bytes \<Rightarrow> str" where
  "repr_bytes b =
     (let ns = map byte_val b; q = repr_quote ns
      in CHR ''b'' # char_of q # concat (map (repr_ascii q) ns) @ [char_of q])"

definition repr_cp :: "(nat \<Rightarrow> bool) \<Rightarrow> nat \<Rightarrow> nat \<Rightarrow> string" where
  "repr_cp printable q n =
     (if n < 128 then repr_ascii q n
      else if printable n then utf8_enc n
      else if n < 256 then backslash # CHR ''x'' # hex2 n
      else if n < 65536 then backslash # CHR ''u'' # hex4 n
      else backslash # CHR ''U'' # hex4 (n div 65536) @ hex4 (n mod 65536))"

definition repr_str :: "(nat \<Rightarrow> bool) \<Rightarrow> str \<Rightarrow> str" where
  "repr_str printable s =
     (let ns = code_points s; q = repr_quote ns
      in char_of q # concat (map (repr_cp printable q) ns) @ [char_of q])"

definition repr_dict :: "(nat \<Rightarrow> bool) \<Rightarrow> str dict \<Rightarrow> str" where
  "repr_dict printable kvs =
     ''{'' @ join '', '' (map (\<lambda>(k, t). repr_str printable k @ '': '' @ t) kvs) @ ''}''"

primrec py_repr :: "(nat \<Rightarrow> bool) \<Rightarrow> json \<Rightarrow> str" where
  "py_repr U JNull = ''None''"
| "py_repr U (JBool b) = (if b then ''True'' else ''False'')"
| "py_repr U (JInt n) = dec n"
| "py_repr U (JFloat r) = r"
| "py_repr U (JStr s) = repr_str U s"
| "py_repr U (JList xs) = ''['' @ join '', '' (map (py_repr U) xs) @ '']''"
| "py_repr U (JObj kvs) = repr_dict U (map (map_prod id (py_repr U)) kvs)"

definition py_str :: "(nat \<Rightarrow> bool) \<Rightarrow> json \<Rightarrow> str" where
  "py_str U j = (case j of JStr s \<Rightarrow> s | _ \<Rightarrow> py_repr U j)"

text \<open>\<^verbatim>\<open>k in v\<close> and \<^verbatim>\<open>v[k]\<close> for a text key and any decoded value.\<close>

fun infix_of :: "string \<Rightarrow> string \<Rightarrow> bool" where
  "infix_of k [] = (k = [])"
| "infix_of k (c # cs) = (take (length k) (c # cs) = k \<or> infix_of k cs)"

fun contains :: "string \<Rightarrow> json \<Rightarrow> bool result" where
  "contains k (JObj kvs) = Inr (has_key k kvs)"
| "contains k (JList xs) = Inr (JStr k \<in> set xs)"
| "contains k (JStr s) = Inr (infix_of k s)"
| "contains k _ = Inl (TypeError ''argument is not iterable'')"

fun item :: "string \<Rightarrow> json \<Rightarrow> json result" where
  "item k (JObj kvs) = dict_get kvs k"
| "item k _ = Inl (TypeError ''indices must be integers'')"

end
