(* ===== verification/Checks.thy ===== *)
theory Checks
  imports Py_Text
begin

text \<open>
  What the two checkers share: the interface of the Warranted package as far as the checkers use it
  (a check context, contained jobs, verdicts), and \<^verbatim>\<open>candidate_files\<close> of
  \<^verbatim>\<open>src/src/reschema/checks/__init__.py\<close>.  Parameters are collected in \<^verbatim>\<open>platform\<close>: the JSON decoder
  (on bytes and on text, with its exceptions), lossy UTF-8 decoding, the Unicode database, the
  package's two limits, SHA-256, the toolchain's image, the repository's source files and a fresh
  temporary directory.

  The locale \<^verbatim>\<open>gate\<close> is the contract that a checker owes the package; both checkers interpret it.
\<close>

section \<open>The interface\<close>

record job_spec =
  js_image :: str
  js_argv :: "str list"
  js_files :: "bytes dict"
  js_stdin :: bytes
  js_timeout :: nat
  js_memory_mb :: nat
  js_pids :: nat
  js_scratch_mb :: nat

record job_result =
  jr_returncode :: int
  jr_timed_out :: bool
  jr_truncated :: bool
  jr_stdout :: bytes
  jr_stderr :: bytes

type_synonym 'w run_job = "job_spec \<Rightarrow> 'w \<Rightarrow> job_result result \<times> 'w"

record 'w check_ctx =
  cx_candidate :: "bytes dict"
  cx_private :: "bytes dict"
  cx_draw_seed :: "'w \<Rightarrow> int \<times> 'w"
  cx_run_job :: "'w run_job"

record 'w platform =
  pf_loads :: "bytes \<Rightarrow> json result"
  pf_loads_str :: "str \<Rightarrow> json result"
  pf_decode_replace :: "bytes \<Rightarrow> str"
  pf_printable :: "nat \<Rightarrow> bool"
  pf_feedback_limit :: nat
  pf_facts_limit :: nat
  pf_sha256 :: "bytes \<Rightarrow> str"
  pf_image_id :: "'w \<Rightarrow> str result \<times> 'w"
  pf_source :: "string \<Rightarrow> bytes"
  pf_tempdir :: "'w \<Rightarrow> str \<times> 'w"

datatype status = PASSED | REJECTED

record check_verdict =
  cv_status :: status
  cv_feedback :: "json dict"
  cv_facts :: "json list"

type_synonym 'w checked = "(check_verdict result \<times> 'w) option"

section \<open>\<^verbatim>\<open>candidate_files\<close>\<close>

definition FILES :: "string list" where
  "FILES = [''model.c'', ''params.json'', ''cases.json'']"

definition direct_files :: "bytes dict \<Rightarrow> bytes dict" where
  "direct_files cand = List.map_filter (\<lambda>n. map_option (Pair n) (map_of cand n)) FILES"

text \<open>
  \<^verbatim>\<open>Inl\<close> is the reason why the candidate is malformed.  A text is already the bytes of its
  encoding with \<^verbatim>\<open>errors="surrogatepass"\<close>.
\<close>

definition candidate_files :: "'w platform \<Rightarrow> bytes dict \<Rightarrow> str + bytes dict" where
  "candidate_files P cand =
     (let files = direct_files cand in
      case map_of cand ''result.json'' of
        None \<Rightarrow> Inr files
      | Some raw \<Rightarrow>
          (case pf_loads P raw of
             Inl e \<Rightarrow> Inl ''result.json is not JSON''
           | Inr (JObj entries) \<Rightarrow>
               if \<not> (list_all (\<lambda>(n, v). n \<in> set FILES \<and> is_str v) entries)
               then Inl ''result.json maps file names ['model.c', 'params.json', 'cases.json'] to their text''
               else if list_ex (\<lambda>(n, v). has_key n files) entries
               then Inl ''a file is given both in result.json and beside it''
               else Inr (files @ map (map_prod id as_str) entries)
           | Inr _ \<Rightarrow> Inl ''result.json maps file names ['model.c', 'params.json', 'cases.json'] to their text''))"

section \<open>The contract of a checker\<close>

definition accepted_flag :: "check_verdict \<Rightarrow> json option" where
  "accepted_flag v = map_of (cv_feedback v) ''accepted''"

definition verdict_ok :: "check_verdict \<Rightarrow> bool" where
  "verdict_ok v =
     (case cv_status v of
        PASSED \<Rightarrow> accepted_flag v = Some (JBool True) \<and> length (cv_facts v) = 1
      | REJECTED \<Rightarrow> accepted_flag v = Some (JBool False) \<and> cv_facts v = [])"

locale gate =
  fixes check :: "'c \<Rightarrow> 'w \<Rightarrow> 'w checked"
  assumes verdict: "check c w = Some (Inr v, w') \<Longrightarrow> verdict_ok v"
begin

lemma passes_iff_accepted:
  "check c w = Some (Inr v, w') \<Longrightarrow> cv_status v = PASSED \<longleftrightarrow> accepted_flag v = Some (JBool True)"
  using verdict [of c w v w'] by (cases "cv_status v") (auto simp: verdict_ok_def)

lemma fact_iff_passed: "check c w = Some (Inr v, w') \<Longrightarrow> cv_facts v \<noteq> [] \<longleftrightarrow> cv_status v = PASSED"
  using verdict [of c w v w'] by (cases "cv_status v") (auto simp: verdict_ok_def)

end

section \<open>One reading of a candidate\<close>

lemma map_of_direct_files:
  "map_of (direct_files cand) n = (if n \<in> set FILES then map_of cand n else None)"
  by (auto simp: direct_files_def FILES_def List.map_filter_simps split: option.splits)

lemma map_of_as_str: "map_of (map (map_prod id as_str) d) n = map_option as_str (map_of d n)"
  by (induction d) auto

text \<open>
  A candidate has one reading.  Each file of an accepted view is one of the three
  known names, and its content comes either from the candidate directly or from
  \<^verbatim>\<open>result.json\<close>, never from both.
\<close>

lemma candidate_files_single_reading:
  assumes "candidate_files P cand = Inr files" and "map_of files n = Some b"
  shows "n \<in> set FILES \<and>
    (map_of cand n = Some b) \<noteq>
    (\<exists>raw entries. map_of cand ''result.json'' = Some raw \<and> pf_loads P raw = Inr (JObj entries)
       \<and> map_of entries n = Some (JStr b))"
proof (cases "map_of cand ''result.json''")
  case None
  with assms show ?thesis
    by (auto simp: candidate_files_def map_of_direct_files split: if_splits)
next
  case (Some raw)
  with assms(1) obtain entries where l: "pf_loads P raw = Inr (JObj entries)"
    and ok: "list_all (\<lambda>(n, v). n \<in> set FILES \<and> is_str v) entries"
    and no: "\<not> list_ex (\<lambda>(n, v). has_key n (direct_files cand)) entries"
    and fs: "files = direct_files cand @ map (map_prod id as_str) entries"
    by (auto simp: candidate_files_def Let_def split: sum.splits json.splits if_splits)
  show ?thesis
  proof (cases "map_of (direct_files cand) n")
    case direct: (Some c)
    have "map_of entries n = None"
    proof (rule ccontr)
      assume "map_of entries n \<noteq> None"
      then obtain v where "(n, v) \<in> set entries" using map_of_SomeD by fastforce
      with no have "\<not> has_key n (direct_files cand)" by (auto simp: list_ex_iff)
      with direct show False by (simp add: has_key_def)
    qed
    with direct assms(2) fs Some l show ?thesis
      by (auto simp: map_of_direct_files split: if_splits)
  next
    case direct: None
    with assms(2) fs obtain v where v: "map_of entries n = Some v" "b = as_str v"
      by (auto simp: map_add_def map_of_as_str)
    then have "n \<in> set FILES" "is_str v"
      using ok map_of_SomeD [OF v(1)] by (auto simp: list_all_iff)
    with direct v Some l show ?thesis
      by (auto simp: map_of_direct_files is_str_iff)
  qed
qed

definition plain_platform :: "unit platform" where
  "plain_platform =
     \<lparr>pf_loads = (\<lambda>b. if b = ''{}'' then Inr (JObj []) else Inr (JObj [(''model.c'', JStr b)])),
      pf_loads_str = (\<lambda>s. Inr (JStr s)), pf_decode_replace = id, pf_printable = (\<lambda>_. True),
      pf_feedback_limit = 65536, pf_facts_limit = 65536, pf_sha256 = (\<lambda>b. bytes_hex (take 32 b)),
      pf_image_id = (\<lambda>w. (Inr ''image'', w)), pf_source = (\<lambda>_. []),
      pf_tempdir = Pair ''/tmp/check''\<rparr>"

end
