(* ===== verification/Validate_Function.thy ===== *)
theory Validate_Function
  imports Scout Calling_Batch Py_Text
begin

text \<open>
  \<^verbatim>\<open>src/src/reschema/validate/function.py\<close>: differential validation of a candidate function.
  The host's parameters are the emulator and the static tools, the seeded generator
  (\<^verbatim>\<open>random.Random(seed)\<close> as a stream of words), \<^verbatim>\<open>secrets.token_hex\<close> and the Unicode database.
  \<^verbatim>\<open>run_model\<close> is the worker round trip: it takes the job and answers with a decoded object.
  \<^verbatim>\<open>id(case) in declared_ids\<close> is a tag that travels with each case: true for a uniform draw.
\<close>

section \<open>The model\<close>

record ('vm, 'snap, 'w) host =
  ho_qiling :: "('vm, 'snap, 'w) qiling"
  ho_tools :: tools
  ho_printable :: "nat \<Rightarrow> bool"
  ho_random :: "json \<Rightarrow> rng"
  ho_token :: "'w \<Rightarrow> str \<times> 'w"

definition N_FUZZ :: nat where "N_FUZZ = 64"

record fn_verdict =
  vd_ok :: bool
  vd_divergence :: "json dict option"
  vd_compared :: nat
  vd_skipped :: nat
  vd_seed :: "json option"

definition reject_fn :: "json dict \<Rightarrow> nat \<Rightarrow> nat \<Rightarrow> fn_verdict" where
  "reject_fn d compared skipped =
     \<lparr>vd_ok = False, vd_divergence = Some d, vd_compared = compared, vd_skipped = skipped, vd_seed = None\<rparr>"

definition accept_fn :: "nat \<Rightarrow> nat \<Rightarrow> json \<Rightarrow> fn_verdict" where
  "accept_fn compared skipped seed =
     \<lparr>vd_ok = True, vd_divergence = None, vd_compared = compared, vd_skipped = skipped, vd_seed = Some seed\<rparr>"

text \<open>\<^verbatim>\<open>repr\<close> of a case value, and of a memory value of the model's answer.\<close>

datatype gval = GBytes bytes | GJson json

fun of_cval :: "cval \<Rightarrow> gval" where
  "of_cval (VInt i) = GJson (JInt i)"
| "of_cval (VBytes b) = GBytes b"
| "of_cval (VList xs) = GJson (JList (map JInt xs))"

fun repr_gval :: "(nat \<Rightarrow> bool) \<Rightarrow> gval \<Rightarrow> str" where
  "repr_gval U (GBytes b) = repr_bytes b"
| "repr_gval U (GJson j) = py_repr U j"

definition repr_mem :: "(nat \<Rightarrow> bool) \<Rightarrow> gval dict \<Rightarrow> str" where
  "repr_mem U d = repr_dict U (map (map_prod id (repr_gval U)) d)"

definition preview :: "(nat \<Rightarrow> bool) \<Rightarrow> case_in \<Rightarrow> json dict" where
  "preview U c =
     map (map_prod id (\<lambda>v. case v of VInt i \<Rightarrow> JInt i | _ \<Rightarrow> JStr (str_take 80 (repr_gval U (of_cval v))))) c"

fun wire_val :: "cval \<Rightarrow> json" where
  "wire_val (VInt i) = JInt i"
| "wire_val (VBytes b) = JStr (bytes_hex b)"
| "wire_val (VList xs) = JList (map JInt xs)"

definition wire :: "case_in \<Rightarrow> json" where
  "wire c = JObj (map (map_prod id wire_val) c)"

definition crash_text :: "(nat \<Rightarrow> bool) \<Rightarrow> json \<Rightarrow> str result" where
  "crash_text U crash =
     bindE (contains ''signal'' crash) (\<lambda>sg.
       if sg then bindE (item ''signal'' crash) (\<lambda>v. Inr (''signal '' @ py_str U v))
       else bindE (contains ''timeout'' crash) (\<lambda>t.
         Inr (if t then ''timeout'' else py_str U crash)))"

text \<open>Every trace with exit code -1 ends in its fault event.\<close>

definition is_mem_fault :: "fn_trace \<Rightarrow> bool" where
  "is_mem_fault want =
     (ft_exit_code want = - 1 \<and> ft_events want \<noteq> []
      \<and> map_of (ev_extra (last (ft_events want))) ''mem_fault'' = Some (JBool True))"

definition is_void :: "param list \<Rightarrow> bool" where
  "is_void ps = (ps \<noteq> [] \<and> p_ret (hd ps) = ''void'')"

definition kinds_of :: "param list \<Rightarrow> kind dict" where
  "kinds_of ps = rev (map (\<lambda>p. (p_name p, p_kind p)) ps)"

text \<open>
  The model's answer for one case: \<^verbatim>\<open>got["ret"]\<close> and \<^verbatim>\<open>got["mem"]\<close> with the strings decoded.
\<close>

definition decode_mem :: "kind dict \<Rightarrow> string \<times> json \<Rightarrow> (string \<times> gval) result" where
  "decode_mem kinds kv =
     bindE (dict_get kinds (fst kv)) (\<lambda>kd.
       if kd = CString then
         (case snd kv of
            JStr s \<Rightarrow> (case fromhex s of None \<Rightarrow> Inl (ValueError ''non-hexadecimal number'')
                       | Some b \<Rightarrow> Inr (fst kv, GBytes b))
          | _ \<Rightarrow> Inl (TypeError ''fromhex() argument must be str''))
       else Inr (fst kv, GJson (snd kv)))"

definition got_value :: "kind dict \<Rightarrow> json \<Rightarrow> (json \<times> gval dict) result" where
  "got_value kinds got =
     bindE (item ''ret'' got) (\<lambda>r.
     bindE (item ''mem'' got) (\<lambda>m.
       (case m of
          JObj kvs \<Rightarrow> bindE (mapE (decode_mem kinds) kvs) (\<lambda>mem. Inr (r, mem))
        | _ \<Rightarrow> Inl (AttributeError ''items''))))"

text \<open>
  Python's \<^verbatim>\<open>==\<close> between an i32 and a decoded value: booleans are integers, and a float equals
  the integer its \<^verbatim>\<open>repr\<close> shows.
\<close>

fun int_eq :: "int \<Rightarrow> json \<Rightarrow> bool" where
  "int_eq i (JInt k) = (i = k)"
| "int_eq i (JBool b) = (i = (if b then 1 else 0))"
| "int_eq i (JFloat t) = (t = dec i @ ''.0'' \<or> (i = 0 \<and> t = ''-0.0''))"
| "int_eq i _ = False"

fun val_eq :: "cval \<Rightarrow> gval \<Rightarrow> bool" where
  "val_eq (VBytes b) (GBytes b') = (b = b')"
| "val_eq (VList xs) (GJson (JList ys)) = list_all2 int_eq xs ys"
| "val_eq (VInt i) (GJson j) = int_eq i j"
| "val_eq _ _ = False"

definition mem_eq :: "cval dict \<Rightarrow> gval dict \<Rightarrow> bool" where
  "mem_eq want got =
     (list_all (\<lambda>k. has_key k want) (map fst got)
      \<and> list_all (\<lambda>k. case (map_of want k, map_of got k) of (Some v, Some g) \<Rightarrow> val_eq v g | _ \<Rightarrow> False)
          (map fst want))"

definition mismatch :: "(nat \<Rightarrow> bool) \<Rightarrow> case_in \<Rightarrow> string \<Rightarrow> str \<Rightarrow> str \<Rightarrow> json \<Rightarrow> json dict" where
  "mismatch U c field want got seed =
     [(''input'', JObj (preview U c)), (''field'', JStr field), (''expected'', JStr want),
      (''actual'', JStr got), (''seed'', seed)]"

text \<open>One case of the comparison loop: \<^verbatim>\<open>None\<close> when it agrees, else the divergence.\<close>

definition compare_case ::
    "(nat \<Rightarrow> bool) \<Rightarrow> param list \<Rightarrow> json \<Rightarrow> case_in \<Rightarrow> fn_trace \<Rightarrow> json \<Rightarrow> json dict option result" where
  "compare_case U ps seed c want got =
     bindE (contains ''crash'' got) (\<lambda>crashed.
       if crashed then
         bindE (item ''crash'' got) (\<lambda>cr.
         bindE (crash_text U cr) (\<lambda>txt. Inr (Some (mismatch U c ''crash'' ''no crash'' txt seed))))
       else
         bindE (got_value (kinds_of ps) got) (\<lambda>(r, mem).
           if \<not> mem_eq (ft_mem want) mem then
             Inr (Some (mismatch U c ''mem'' (str_take 400 (repr_mem U (map (map_prod id of_cval) (ft_mem want))))
               (str_take 400 (repr_mem U mem)) seed))
           else if \<not> is_void ps \<and> \<not> int_eq (ft_ret want) r then
             Inr (Some (mismatch U c ''ret'' (str_take 400 (dec (ft_ret want))) (str_take 400 (py_str U r)) seed))
           else Inr None))"

fun compare_all ::
    "(nat \<Rightarrow> bool) \<Rightarrow> param list \<Rightarrow> json \<Rightarrow> nat \<Rightarrow> (case_in \<times> fn_trace) list \<Rightarrow> json list \<Rightarrow> nat
     \<Rightarrow> fn_verdict result" where
  "compare_all U ps seed skipped ((c, want) # kept) (got # res) n =
     bindE (compare_case U ps seed c want got) (\<lambda>d.
       (case d of
          Some dv \<Rightarrow> Inr (reject_fn dv (Suc n) skipped)
        | None \<Rightarrow> compare_all U ps seed skipped kept res (Suc n)))"
| "compare_all U ps seed skipped _ _ n = Inr (accept_fn n skipped seed)"

text \<open>The guard on the worker's result list.\<close>

definition results_ok :: "json option \<Rightarrow> nat \<Rightarrow> bool result" where
  "results_ok res n =
     (case res of
        Some (JList gs) \<Rightarrow>
          if length gs = n then Inr True
          else if 0 < length gs \<and> length gs < n then contains ''crash'' (last gs)
          else Inr False
      | _ \<Rightarrow> Inr False)"

definition job_of :: "str \<Rightarrow> string \<Rightarrow> param list \<Rightarrow> case_in list \<Rightarrow> json dict" where
  "job_of src func ps cs =
     [(''mode'', JStr ''validate''), (''c_source'', JStr src), (''fname'', JStr func),
      (''params'', JList (map to_json ps)), (''cases'', JList (map wire cs))]"

definition judge_results ::
    "(nat \<Rightarrow> bool) \<Rightarrow> param list \<Rightarrow> json \<Rightarrow> nat \<Rightarrow> (case_in \<times> fn_trace) list \<Rightarrow> json dict \<Rightarrow> fn_verdict result" where
  "judge_results U ps seed skipped kept r =
     (if has_key ''stage'' r then Inr (reject_fn r 0 0)
      else
        bindE (results_ok (map_of r ''results'') (length kept)) (\<lambda>ok.
          if \<not> ok then
            Inr (reject_fn [(''stage'', JStr ''worker''),
              (''detail'', JStr (''worker results malformed for '' @ decn (length kept) @ '' cases''))] 0 skipped)
          else (case map_of r ''results'' of
                  Some (JList gs) \<Rightarrow> compare_all U ps seed skipped kept gs 0
                | _ \<Rightarrow> Inr (accept_fn 0 skipped seed))))"

definition em_dash :: str where
  "em_dash = [CHR 0xE2, CHR 0x80, CHR 0x94]"

definition spec_reject :: "str \<Rightarrow> json \<Rightarrow> nat \<Rightarrow> fn_verdict" where
  "spec_reject detail seed skipped =
     reject_fn [(''stage'', JStr ''spec''), (''detail'', JStr detail), (''seed'', seed)] 0 skipped"

definition mem_fault_detail :: "(nat \<Rightarrow> bool) \<Rightarrow> nat \<Rightarrow> nat \<Rightarrow> case_in \<Rightarrow> str" where
  "mem_fault_detail U n m c =
     ''original faulted on '' @ decn n @ '' of '' @ decn m @ '' declared fuzz case(s) with a memory fault ''
     @ em_dash @ '' e.g. '' @ py_repr U (JObj (preview U c))
     @ ''. The declared spec drives the original into invalid memory: either a parameter it dereferences is declared as a scalar (declare it buffer_i32 or cstring), or a declared range admits values it cannot handle, such as an index past a table (narrow that range)''"

text \<open>From the originals' traces on: survivors, floors, one worker round trip, comparison.\<close>

definition kept_cases :: "(bool \<times> case_in) list \<Rightarrow> fn_trace list \<Rightarrow> ((bool \<times> case_in) \<times> fn_trace) list" where
  "kept_cases cases wants = filter (\<lambda>(c, w). ft_exit_code w \<noteq> - 1) (zip cases wants)"

definition distinct_inputs :: "((bool \<times> case_in) \<times> fn_trace) list \<Rightarrow> string list" where
  "distinct_inputs kept =
     remdups (map (\<lambda>((d, c), w). dumps_sorted (wire c)) (filter (\<lambda>((d, c), w). d) kept))"

type_synonym 'w worker = "json dict \<Rightarrow> 'w \<Rightarrow> json dict result \<times> 'w"

definition judge ::
    "(nat \<Rightarrow> bool) \<Rightarrow> string \<Rightarrow> param list \<Rightarrow> str \<Rightarrow> json \<Rightarrow> nat \<Rightarrow> 'w worker
     \<Rightarrow> (bool \<times> case_in) list \<Rightarrow> fn_trace list \<Rightarrow> 'w \<Rightarrow> fn_verdict result \<times> 'w" where
  "judge U func ps src seed n run_model cases wants w =
     (let kept = kept_cases cases wants;
          skipped = length cases - length kept;
          mem_faults = map (snd \<circ> fst) (filter (\<lambda>((d, c), want). d \<and> is_mem_fault want) (zip cases wants));
          distinct = distinct_inputs kept
      in if kept = [] then
           (Inr (reject_fn [(''stage'', JStr ''skip-starvation''),
              (''detail'', JStr (''original faulted on all '' @ decn n @ '' fuzz cases'')), (''seed'', seed)] 0 skipped), w)
         else if mem_faults \<noteq> [] then
           (Inr (spec_reject (mem_fault_detail U (length mem_faults) (length (filter fst cases)) (hd mem_faults))
              seed skipped), w)
         else if length distinct < 2 then
           (Inr (spec_reject (''spec admits '' @ decn (length distinct) @ '' distinct surviving input(s) over ''
              @ decn n @ '' draws (need >=2) '' @ em_dash @ '' declare at least one varying parameter'') seed skipped), w)
         else
           (case run_model (job_of src func ps (map (snd \<circ> fst) kept)) w of
              (r, w') \<Rightarrow>
                (bindE r (judge_results U ps seed skipped (map (map_prod snd id) kept)), w')))"

text \<open>The merged round, each case with its tag, and the scrape's window (\<^verbatim>\<open>size or 0x400\<close>).\<close>

definition round_cases :: "param list \<Rightarrow> nat \<Rightarrow> case_in list \<Rightarrow> int list \<Rightarrow> (bool \<times> case_in) list" where
  "round_cases ps n uniform imms =
     merge_scout_cases (map (Pair True) uniform) (map (Pair False) (scout_inputs ps imms)) n"

definition window :: "int option \<Rightarrow> int" where
  "window sz = (case sz of Some s \<Rightarrow> if s = 0 then 1024 else s | None \<Rightarrow> 1024)"

definition validate_cases ::
    "('vm, 'snap, 'w) host \<Rightarrow> bytes \<Rightarrow> int \<Rightarrow> string \<Rightarrow> param list \<Rightarrow> str \<Rightarrow> json \<Rightarrow> nat \<Rightarrow> int option
     \<Rightarrow> 'w worker \<Rightarrow> case_in list \<Rightarrow> 'w \<Rightarrow> fn_verdict result \<times> 'w" where
  "validate_cases H b addr func ps src seed n sz run_model uniform w =
     (case scrape_immediates (ho_tools H) b addr (window sz) of
        Inl e \<Rightarrow> (Inl e, w)
      | Inr imms \<Rightarrow>
          (let cases = round_cases ps n uniform imms
           in case batch_call_original (ho_qiling H) (ho_tools H) no_hooks b addr ps (map snd cases) w of
                (Inl e, w') \<Rightarrow> (Inl e, w')
              | (Inr wants, w') \<Rightarrow>
                  judge (ho_printable H) func ps src seed n run_model cases wants w'))"

definition effective_seed :: "('vm, 'snap, 'w) host \<Rightarrow> json option \<Rightarrow> 'w \<Rightarrow> json \<times> 'w" where
  "effective_seed H seed w =
     (case seed of Some s \<Rightarrow> (s, w) | None \<Rightarrow> (case ho_token H w of (t, w1) \<Rightarrow> (JStr t, w1)))"

text \<open>A scalar-only void compares nothing.\<close>

definition compares_nothing :: "param list \<Rightarrow> bool" where
  "compares_nothing ps = (is_void ps \<and> \<not> list_ex (\<lambda>p. p_kind p \<in> {BufferI32, CString}) ps)"

text \<open>\<^verbatim>\<open>None\<close> means that the draw of the inputs does not come back.\<close>

definition validate_function ::
    "('vm, 'snap, 'w) host \<Rightarrow> bytes \<Rightarrow> int \<Rightarrow> string \<Rightarrow> param list \<Rightarrow> str \<Rightarrow> json option \<Rightarrow> nat \<Rightarrow> int option
     \<Rightarrow> 'w worker \<Rightarrow> 'w \<Rightarrow> (fn_verdict result \<times> 'w) option" where
  "validate_function H b addr func ps src seed n sz run_model w =
     (if length ps > length BAREGS then
        Some (Inr (reject_fn [(''stage'', JStr ''arity''),
          (''detail'', JStr (decn (length ps) @ '' params exceed '' @ decn (length BAREGS)
             @ '' register-passed args''))] 0 0), w)
      else if compares_nothing ps then
        Some (Inr (reject_fn [(''stage'', JStr ''spec''),
          (''detail'', JStr (''ret '' @ [CHR 0x22] @ ''void'' @ [CHR 0x22] @ '' requires >=1 memory-channel param (buffer_i32/cstring); scalar-only compares nothing''))] 0 0), w)
      else
        (case effective_seed H seed w of (eff, w1) \<Rightarrow>
           (case gen_inputs ps n (ho_random H eff) of
              None \<Rightarrow> None
            | Some (Inl e, _) \<Rightarrow> Some (Inl e, w1)
            | Some (Inr uniform, _) \<Rightarrow>
                Some (validate_cases H b addr func ps src eff n sz run_model uniform w1))))"

end
