(* ===== verification/Validate_Function_Props.thy ===== *)
theory Validate_Function_Props
  imports Validate_Function
begin

text \<open>
  What a verdict of \<^verbatim>\<open>validate_function\<close> means: the exact condition of an acceptance, that it is
  never vacuous, that a faithful model passes, and that the round always comes back.
\<close>

section \<open>When a round is accepted\<close>

text \<open>The model's answer agrees with the original's trace on the fields that are compared.\<close>

definition agrees :: "param list \<Rightarrow> fn_trace \<Rightarrow> json \<Rightarrow> bool" where
  "agrees ps want got =
     (contains ''crash'' got = Inr False
      \<and> (case got_value (kinds_of ps) got of
           Inl _ \<Rightarrow> False
         | Inr (r, mem) \<Rightarrow> mem_eq (ft_mem want) mem \<and> (is_void ps \<or> int_eq (ft_ret want) r)))"

lemma compare_case_None_iff: "compare_case U ps seed c want got = Inr None \<longleftrightarrow> agrees ps want got"
  by (auto simp: compare_case_def agrees_def bindE_Inr_iff split: sum.splits if_splits)

lemma compare_all_ok_iff:
  "(\<exists>v. compare_all U ps seed sk kept gs n = Inr v \<and> vd_ok v)
     \<longleftrightarrow> list_all (\<lambda>((c, want), got). agrees ps want got) (zip kept gs)"
proof (induction kept gs arbitrary: n rule: list_induct2')
  case (4 x kept g gs)
  obtain c want where x: "x = (c, want)" by fastforce
  show ?case
  proof (cases "compare_case U ps seed c want g = Inr None")
    case True
    then have "agrees ps want g" by (simp add: compare_case_None_iff)
    with True 4 [of "Suc n"] x show ?thesis by simp
  next
    case False
    then have "\<not> agrees ps want g" by (simp add: compare_case_None_iff)
    moreover have "\<not> (\<exists>v. compare_all U ps seed sk (x # kept) (g # gs) n = Inr v \<and> vd_ok v)"
      using False x by (auto simp: bindE_Inr_iff reject_fn_def split: option.splits)
    ultimately show ?thesis using x by simp
  qed
qed (simp_all add: accept_fn_def)

lemma compare_all_counts:
  "compare_all U ps seed sk kept gs n = Inr v \<Longrightarrow> vd_ok v \<Longrightarrow>
     v = accept_fn (n + min (length kept) (length gs)) sk seed"
proof (induction kept gs arbitrary: n rule: list_induct2')
  case (4 x kept g gs)
  obtain c want where x: "x = (c, want)" by fastforce
  from 4(1) [of "Suc n"] 4(2,3) x show ?case
    by (auto simp: bindE_Inr_iff reject_fn_def split: option.splits)
qed (simp_all add: accept_fn_def)

text \<open>A list that the guard admits and that compares equal covers every case.\<close>

lemma covered:
  assumes "results_ok (Some (JList gs)) (length kept) = Inr True"
    and "list_all (\<lambda>((c, want), got). agrees ps want got) (zip kept gs)"
  shows "length gs = length kept"
proof (rule ccontr)
  assume ne: "length gs \<noteq> length kept"
  with assms(1) have l: "0 < length gs" "length gs < length kept" and c: "contains ''crash'' (last gs) = Inr True"
    by (auto simp: results_ok_def split: if_splits)
  define i where "i = length gs - 1"
  have i: "i < length (zip kept gs)" "gs ! i = last gs" using l by (simp_all add: i_def last_conv_nth)
  then have "zip kept gs ! i = (kept ! i, last gs)" using l by (simp add: i_def)
  moreover have "zip kept gs ! i \<in> set (zip kept gs)" using i by (simp only: nth_mem)
  ultimately have "agrees ps (snd (kept ! i)) (last gs)"
    using assms(2) by (force simp: list_all_iff)
  with c show False by (simp add: agrees_def)
qed

lemma judge_results_ok_iff:
  "(\<exists>v. judge_results U ps seed sk kept r = Inr v \<and> vd_ok v) \<longleftrightarrow>
     \<not> has_key ''stage'' r
     \<and> (\<exists>gs. map_of r ''results'' = Some (JList gs) \<and> list_all2 (\<lambda>(c, want) got. agrees ps want got) kept gs)"
  (is "?L \<longleftrightarrow> ?R")
proof
  assume ?L
  then obtain v where v: "judge_results U ps seed sk kept r = Inr v" "vd_ok v" by blast
  then have st: "\<not> has_key ''stage'' r" by (auto simp: judge_results_def reject_fn_def)
  with v obtain gs where gs: "map_of r ''results'' = Some (JList gs)" "results_ok (Some (JList gs)) (length kept) = Inr True"
    "compare_all U ps seed sk kept gs 0 = Inr v"
    by (auto simp: judge_results_def bindE_Inr_iff reject_fn_def results_ok_def split: if_splits option.splits json.splits)
  then have all: "list_all (\<lambda>((c, want), got). agrees ps want got) (zip kept gs)"
    using compare_all_ok_iff [of U ps seed sk kept gs 0] v(2) by blast
  from covered [OF gs(2) all] all have "list_all2 (\<lambda>(c, want) got. agrees ps want got) kept gs"
    by (auto simp: list_all2_iff list_all_iff)
  with st gs(1) show ?R by blast
next
  assume ?R
  then obtain gs where st: "\<not> has_key ''stage'' r" and gs: "map_of r ''results'' = Some (JList gs)"
    and all: "list_all2 (\<lambda>(c, want) got. agrees ps want got) kept gs" by blast
  from all have len: "length gs = length kept" and "list_all (\<lambda>((c, want), got). agrees ps want got) (zip kept gs)"
    by (auto simp: list_all2_iff list_all_iff)
  then obtain v where "compare_all U ps seed sk kept gs 0 = Inr v" "vd_ok v"
    using compare_all_ok_iff [of U ps seed sk kept gs 0] by blast
  with st gs len show ?L by (simp add: judge_results_def results_ok_def)
qed

lemma judge_results_counts:
  "judge_results U ps seed sk kept r = Inr v \<Longrightarrow> vd_ok v \<Longrightarrow> v = accept_fn (length kept) sk seed"
proof -
  assume v: "judge_results U ps seed sk kept r = Inr v" "vd_ok v"
  with judge_results_ok_iff [of U ps seed sk kept r] obtain gs where
    gs: "\<not> has_key ''stage'' r" "map_of r ''results'' = Some (JList gs)"
      "list_all2 (\<lambda>(c, want) got. agrees ps want got) kept gs" by blast
  then have "length gs = length kept" by (simp add: list_all2_lengthD)
  with v gs compare_all_counts [of U ps seed sk kept gs 0 v] show ?thesis
    by (simp add: judge_results_def results_ok_def)
qed

text \<open>The round as the verdict describes it: floors, one worker call, agreement on every survivor.\<close>

definition round_agrees ::
    "string \<Rightarrow> param list \<Rightarrow> str \<Rightarrow> 'w worker \<Rightarrow> (bool \<times> case_in) list \<Rightarrow> fn_trace list \<Rightarrow> 'w \<Rightarrow> bool" where
  "round_agrees func ps src run_model cases wants w =
     ((\<forall>((d, c), want) \<in> set (zip cases wants). d \<longrightarrow> \<not> is_mem_fault want)
      \<and> 2 \<le> length (distinct_inputs (kept_cases cases wants))
      \<and> (\<exists>r gs. fst (run_model (job_of src func ps (map (snd \<circ> fst) (kept_cases cases wants))) w) = Inr r
           \<and> \<not> has_key ''stage'' r \<and> map_of r ''results'' = Some (JList gs)
           \<and> list_all2 (\<lambda>((d, c), want) got. agrees ps want got) (kept_cases cases wants) gs))"

lemma list_all2_map_kept:
  "list_all2 (\<lambda>(c, want) got. P want got) (map (map_prod snd id) kept) gs
     \<longleftrightarrow> list_all2 (\<lambda>((d, c), want) got. P want got) kept gs"
  by (simp add: list_all2_map1 case_prod_beta')

lemma judge_run:
  assumes "\<forall>((d, c), want) \<in> set (zip cases wants). d \<longrightarrow> \<not> is_mem_fault want"
    and "2 \<le> length (distinct_inputs (kept_cases cases wants))"
    and "run_model (job_of src func ps (map (snd \<circ> fst) (kept_cases cases wants))) w = (r, w2)"
  shows "judge U func ps src seed n run_model cases wants w =
    (bindE r (judge_results U ps seed (length cases - length (kept_cases cases wants))
       (map (map_prod snd id) (kept_cases cases wants))), w2)"
proof -
  have "map (snd \<circ> fst) (filter (\<lambda>((d, c), want). d \<and> is_mem_fault want) (zip cases wants)) = []"
    using assms(1) by (auto simp: filter_empty_conv)
  moreover have "kept_cases cases wants \<noteq> []" using assms(2) by (auto simp: distinct_inputs_def)
  ultimately show ?thesis using assms(2,3) by (simp add: judge_def Let_def)
qed

lemma judge_accepts_iff:
  "(\<exists>v w'. judge U func ps src seed n run_model cases wants w = (Inr v, w') \<and> vd_ok v)
     \<longleftrightarrow> round_agrees func ps src run_model cases wants w"
proof -
  let ?kept = "kept_cases cases wants"
  let ?job = "job_of src func ps (map (snd \<circ> fst) ?kept)"
  have faults: "map (snd \<circ> fst) (filter (\<lambda>((d, c), want). d \<and> is_mem_fault want) (zip cases wants)) = []
      \<longleftrightarrow> (\<forall>((d, c), want) \<in> set (zip cases wants). d \<longrightarrow> \<not> is_mem_fault want)"
    by (auto simp: filter_empty_conv)
  obtain r w2 where rm: "run_model ?job w = (r, w2)" by fastforce
  show ?thesis
  proof (cases "(\<forall>((d, c), want) \<in> set (zip cases wants). d \<longrightarrow> \<not> is_mem_fault want)
      \<and> 2 \<le> length (distinct_inputs ?kept)")
    case False
    then show ?thesis
      using faults by (auto simp: judge_def Let_def round_agrees_def reject_fn_def spec_reject_def)
  next
    case True
    let ?sk = "length cases - length ?kept"
    have "judge U func ps src seed n run_model cases wants w
        = (bindE r (judge_results U ps seed ?sk (map (map_prod snd id) ?kept)), w2)"
      by (rule judge_run [where run_model = run_model, OF True [THEN conjunct1] True [THEN conjunct2] rm])
    then have "(\<exists>v w'. judge U func ps src seed n run_model cases wants w = (Inr v, w') \<and> vd_ok v)
        \<longleftrightarrow> (\<exists>rr. r = Inr rr \<and> (\<exists>v. judge_results U ps seed ?sk (map (map_prod snd id) ?kept) rr = Inr v \<and> vd_ok v))"
      by (cases r) auto
    then show ?thesis
      using True rm unfolding judge_results_ok_iff round_agrees_def list_all2_map_kept by auto
  qed
qed


lemma validate_function_accepts:
  "(\<exists>v w'. validate_function H b addr func ps src seed n sz run_model w = Some (Inr v, w') \<and> vd_ok v)
   \<longleftrightarrow> length ps \<le> 6 \<and> \<not> compares_nothing ps
     \<and> (\<exists>uniform s imms wants w2.
          gen_inputs ps n (ho_random H (fst (effective_seed H seed w))) = Some (Inr uniform, s)
          \<and> scrape_immediates (ho_tools H) b addr (window sz) = Inr imms
          \<and> batch_call_original (ho_qiling H) (ho_tools H) no_hooks b addr ps
              (map snd (round_cases ps n uniform imms)) (snd (effective_seed H seed w)) = (Inr wants, w2)
          \<and> round_agrees func ps src run_model (round_cases ps n uniform imms) wants w2)"
  (is "?L \<longleftrightarrow> ?A \<and> ?B \<and> ?C")
proof (cases "?A \<and> ?B")
  case False
  then show ?thesis by (auto simp: validate_function_def BAREGS_def reject_fn_def)
next
  case True
  obtain eff w1 where eff: "effective_seed H seed w = (eff, w1)" by fastforce
  have L: "?L \<longleftrightarrow> (\<exists>uniform s. gen_inputs ps n (ho_random H eff) = Some (Inr uniform, s)
      \<and> (\<exists>v w'. validate_cases H b addr func ps src eff n sz run_model uniform w1 = (Inr v, w') \<and> vd_ok v))"
    using True eff by (simp add: validate_function_def BAREGS_def split: option.split prod.split sum.split)
  have V: "(\<exists>v w'. validate_cases H b addr func ps src eff n sz run_model uniform w1 = (Inr v, w') \<and> vd_ok v)
      \<longleftrightarrow> (\<exists>imms wants w2. scrape_immediates (ho_tools H) b addr (window sz) = Inr imms
          \<and> batch_call_original (ho_qiling H) (ho_tools H) no_hooks b addr ps
              (map snd (round_cases ps n uniform imms)) w1 = (Inr wants, w2)
          \<and> round_agrees func ps src run_model (round_cases ps n uniform imms) wants w2)" for uniform
    unfolding judge_accepts_iff [symmetric, of func ps src run_model _ _ _ "ho_printable H" eff n]
    by (simp add: validate_cases_def Let_def split: sum.split prod.split)
  show ?thesis unfolding L V using True eff by auto
qed

text \<open>
  C21: a candidate is accepted exactly when it earned it.  \<^verbatim>\<open>validate_function\<close> accepts if and only
  if the declaration fits the registers and compares something, and on the drawn round (uniform
  draws with the scouts merged in, run through the original) no declared draw drove the original
  into a memory fault, at least two distinct declared inputs survived, and the single answer of
  the worker to the surviving inputs has one entry per survivor, each without a crash and
  with the original's memory and (unless void) return value.
\<close>

theorem validate_function_accepts_iff:
  "(\<exists>v w'. validate_function H b addr func ps src seed n sz run_model w = Some (Inr v, w') \<and> vd_ok v)
   \<longleftrightarrow> length ps \<le> 6 \<and> \<not> compares_nothing ps
     \<and> (\<exists>uniform s imms wants w2.
          gen_inputs ps n (ho_random H (fst (effective_seed H seed w))) = Some (Inr uniform, s)
          \<and> scrape_immediates (ho_tools H) b addr (window sz) = Inr imms
          \<and> batch_call_original (ho_qiling H) (ho_tools H) no_hooks b addr ps
              (map snd (round_cases ps n uniform imms)) (snd (effective_seed H seed w)) = (Inr wants, w2)
          \<and> round_agrees func ps src run_model (round_cases ps n uniform imms) wants w2)"
  by (rule validate_function_accepts)

section \<open>What the original's traces look like\<close>

definition mem_shape :: "param list \<Rightarrow> cval dict \<Rightarrow> bool" where
  "mem_shape ps mem =
     (\<forall>(k, v) \<in> set mem. \<exists>p \<in> set ps. p_name p = k
        \<and> ((p_kind p = CString \<and> (\<exists>b. v = VBytes b)) \<or> (p_kind p = BufferI32 \<and> (\<exists>xs. v = VList xs))))"

lemma readback_shape: "readback Q ps c ptrs vm = Inr mem \<Longrightarrow> mem_shape ps mem"
proof (induction ps arbitrary: mem)
  case (Cons p ps)
  show ?case
  proof (cases "p_kind p = I32")
    case True
    with Cons have "mem_shape ps mem" by simp
    then show ?thesis by (fastforce simp: mem_shape_def)
  next
    case False
    with Cons.prems obtain v a m rest where r: "read_param Q p v a vm = Inr m" "readback Q ps c ptrs vm = Inr rest"
      "mem = (if has_key (p_name p) rest then rest else (p_name p, m) # rest)"
      by (auto simp: bindE_Inr_iff)
    have "p_kind p = CString \<and> (\<exists>b. m = VBytes b) \<or> p_kind p = BufferI32 \<and> (\<exists>xs. m = VList xs)"
      using r(1) False by (cases "p_kind p") (auto simp: read_param_def bindE_Inr_iff)
    moreover have "mem_shape ps rest" by (rule Cons.IH [OF r(2)])
    ultimately show ?thesis using r(3) by (fastforce simp: mem_shape_def)
  qed
qed (simp add: mem_shape_def)

lemma finish_case_shape:
  assumes "finish_case Q ps c ptrs r = Inr t"
  shows "mem_shape ps (ft_mem t) \<and> (ft_exit_code t = - 1 \<or> ft_exit_code t = 0 \<and> ft_events t = [])"
proof -
  obtain x vm where r: "r = (x, vm)" by fastforce
  show ?thesis
  proof (cases x)
    case None
    with assms r show ?thesis
      by (auto simp: finish_case_def bindE_Inr_iff fault_trace_def mem_shape_def [of _ "[]"] dest: readback_shape
          split: if_splits)
  next
    case (Some e)
    with assms r show ?thesis by (auto simp: finish_case_def fault_trace_def mem_shape_def)
  qed
qed

lemma run_case_shape:
  assumes "run_case Q addr ps c u = Inr (t, u')"
  shows "mem_shape ps (ft_mem t) \<and> (ft_exit_code t = - 1 \<or> ft_exit_code t = 0 \<and> ft_events t = [])"
proof -
  from assms obtain ptrs vm2 where "finish_case Q ps c ptrs (q_run Q addr SENTINEL TIMEOUT_US vm2) = Inr t"
    by (auto simp: run_case_def Let_def bindE_Inr_iff)
  then show ?thesis by (rule finish_case_shape)
qed

definition traced :: "('vm, 'snap, 'w) qiling \<Rightarrow> int \<Rightarrow> param list \<Rightarrow> case_in \<Rightarrow> fn_trace \<Rightarrow> bool" where
  "traced Q addr ps c t = (\<exists>u t0 u' m. run_case Q addr ps c u = Inr (t0, u') \<and> t = with_mode m t0)"

lemma snapshot_cases_traced:
  "snapshot_cases Q hk snap addr ps cs vm = Inr (ts, vm') \<Longrightarrow> list_all2 (traced Q addr ps) cs ts"
proof (induction cs arbitrary: vm ts)
  case (Cons c cs)
  from Cons.prems obtain vm0 t vm1 ts' where r: "run_case Q addr ps c vm0 = Inr (t, vm1)"
    "snapshot_cases Q hk snap addr ps cs vm1 = Inr (ts', vm')" "ts = with_mode ''batched-snapshot'' t # ts'"
    by (auto simp: bindE_Inr_iff)
  then have "traced Q addr ps c (with_mode ''batched-snapshot'' t)" unfolding traced_def by blast
  with Cons.IH [OF r(2)] r(3) show ?case by simp
qed simp

lemma fresh_case_traced: "fresh_case Q hk b addr ps c w = (Inr t, w') \<Longrightarrow> traced Q addr ps c t"
  by (fastforce simp: fresh_case_def bindE_Inr_iff traced_def split: prod.splits)

lemma fresh_cases_traced:
  "fresh_cases Q hk b addr ps cs w = (Inr ts, w') \<Longrightarrow> list_all2 (traced Q addr ps) cs ts"
proof (induction cs arbitrary: w ts)
  case (Cons c cs)
  then obtain t w1 ts' where "fresh_case Q hk b addr ps c w = (Inr t, w1)"
    "fresh_cases Q hk b addr ps cs w1 = (Inr ts', w')" "ts = t # ts'"
    by (auto simp: bindE_Inr_iff split: prod.splits sum.splits)
  with Cons.IH fresh_case_traced show ?case by fastforce
qed simp

lemma batch_traced:
  "batch_call_original Q T hk b addr ps cs w = (Inr ts, w') \<Longrightarrow> list_all2 (traced Q addr ps) cs ts"
  by (auto simp: batch_call_original_def bindE_Inr_iff fresh_cases_traced dest: snapshot_cases_traced
      split: sum.splits if_splits prod.splits)

lemma traced_shape: "traced Q addr ps c t \<Longrightarrow> mem_shape ps (ft_mem t)"
  by (auto simp: traced_def with_mode_def dest: run_case_shape)

section \<open>A faithful model is accepted\<close>

text \<open>The worker's answer of a model that did what the original did.\<close>

definition faithful_answer :: "fn_trace \<Rightarrow> json" where
  "faithful_answer t =
     JObj [(''ret'', JInt (ft_ret t)), (''mem'', JObj (map (map_prod id wire_val) (ft_mem t)))]"

lemma kinds_of_lookup: "distinct (map p_name ps) \<Longrightarrow> p \<in> set ps \<Longrightarrow> map_of (kinds_of ps) (p_name p) = Some (p_kind p)"
  by (rule map_of_is_SomeI) (auto simp: kinds_of_def rev_map [symmetric] comp_def)

lemma decode_wire:
  assumes "distinct (map p_name ps)" and "mem_shape ps mem"
  shows "mapE (decode_mem (kinds_of ps)) (map (map_prod id wire_val) mem) = Inr (map (map_prod id of_cval) mem)"
  using assms(2)
proof (induction mem)
  case (Cons kv mem)
  obtain k v where kv: "kv = (k, v)" by fastforce
  from Cons.prems kv obtain p where p: "p \<in> set ps" "p_name p = k"
    "p_kind p = CString \<and> (\<exists>b. v = VBytes b) \<or> p_kind p = BufferI32 \<and> (\<exists>xs. v = VList xs)"
    by (auto simp: mem_shape_def)
  with kinds_of_lookup [OF assms(1) p(1)] have "decode_mem (kinds_of ps) (k, wire_val v) = Inr (k, of_cval v)"
    by (auto simp: decode_mem_def dict_get_def)
  moreover have "mem_shape ps mem" using Cons.prems by (simp add: mem_shape_def)
  ultimately show ?case using Cons.IH kv by simp
qed simp

lemma val_eq_of_cval: "val_eq v (of_cval v)"
  by (cases v) (simp_all add: list_all2_map2 list_all2_same)

lemma mem_eq_of_cval: "mem_eq mem (map (map_prod id of_cval) mem)"
proof -
  have m: "map_of (map (map_prod id of_cval) mem) k = map_option of_cval (map_of mem k)" for k
    by (induction mem) auto
  have "map_of mem k \<noteq> None" if "k \<in> fst ` set mem" for k
    using that by (simp add: map_of_eq_None_iff)
  then show ?thesis
    by (force simp: mem_eq_def list_all_iff has_key_def m val_eq_of_cval split: option.splits)
qed

lemma agrees_faithful: "distinct (map p_name ps) \<Longrightarrow> mem_shape ps (ft_mem t) \<Longrightarrow> agrees ps t (faithful_answer t)"
  by (simp add: agrees_def faithful_answer_def has_key_def got_value_def dict_get_def decode_wire mem_eq_of_cval)

lemma kept_cases_shape:
  assumes "batch_call_original Q T hk b addr ps (map snd cases) w = (Inr wants, w1)"
    and "((d, c), t) \<in> set (kept_cases cases wants)"
  shows "mem_shape ps (ft_mem t)"
proof -
  from assms(2) obtain i where i: "i < length cases" "i < length wants" "cases ! i = (d, c)" "wants ! i = t"
    by (auto simp: kept_cases_def in_set_zip)
  with batch_traced [OF assms(1)] show ?thesis
    by (auto simp: list_all2_conv_all_nth dest: traced_shape)
qed

section \<open>No vacuous verdict, and a verdict always comes\<close>

lemma judge_ok_counts:
  assumes "judge U func ps src seed n run_model cases wants w = (Inr v, w')" and "vd_ok v"
  shows "v = accept_fn (length (kept_cases cases wants)) (length cases - length (kept_cases cases wants)) seed"
    and "2 \<le> length (kept_cases cases wants)"
proof -
  let ?kept = "kept_cases cases wants"
  obtain r w2 where rm: "run_model (job_of src func ps (map (snd \<circ> fst) ?kept)) w = (r, w2)" by fastforce
  have agree: "round_agrees func ps src run_model cases wants w"
    using assms judge_accepts_iff [of U func ps src seed n run_model cases wants w] by blast
  then have two: "2 \<le> length (distinct_inputs ?kept)"
    and faults: "\<forall>((d, c), want) \<in> set (zip cases wants). d \<longrightarrow> \<not> is_mem_fault want"
    unfolding round_agrees_def by blast+
  have "length (distinct_inputs ?kept) \<le> length ?kept"
    unfolding distinct_inputs_def by (rule order_trans [OF length_remdups_leq]) simp
  with two show l: "2 \<le> length ?kept" by simp
  from assms(1) have "bindE r (judge_results U ps seed (length cases - length ?kept) (map (map_prod snd id) ?kept)) = Inr v"
    unfolding judge_run [where run_model = run_model, OF faults two rm] by simp
  with judge_results_counts [OF _ assms(2)] show
    "v = accept_fn (length ?kept) (length cases - length ?kept) seed"
    by (fastforce simp: bindE_Inr_iff)
qed

lemma length_kept_cases: "length (kept_cases cases wants) \<le> length cases"
  unfolding kept_cases_def by (rule order_trans [OF length_filter_le]) simp

lemma length_gen_inputs: "gen_inputs ps n s = Some (Inr cs, s') \<Longrightarrow> length cs = n"
proof -
  have "draw_list n m s = Some (Inr cs, s') \<Longrightarrow> length cs = n" for m :: "'a draw" and cs s s'
    by (induction n arbitrary: cs s) (auto simp: bind_def ret_def split: option.splits sum.splits)
  then show "gen_inputs ps n s = Some (Inr cs, s') \<Longrightarrow> length cs = n" by (simp add: gen_inputs_def)
qed

text \<open>
  An acceptance is never vacuous.  It reports at least two compared cases, every drawn case
  is counted once as compared or skipped, it carries the seed of the round and no divergence.
\<close>

lemma validate_function_not_vacuous:
  assumes "validate_function H b addr func ps src seed n sz run_model w = Some (Inr v, w')" and "vd_ok v"
  shows "2 \<le> vd_compared v \<and> vd_compared v + vd_skipped v = n
     \<and> vd_divergence v = None \<and> vd_seed v = Some (fst (effective_seed H seed w))"
proof -
  obtain eff w1 where eff: "effective_seed H seed w = (eff, w1)" by fastforce
  from assms eff obtain uniform s where g: "gen_inputs ps n (ho_random H eff) = Some (Inr uniform, s)"
    and v: "validate_cases H b addr func ps src eff n sz run_model uniform w1 = (Inr v, w')"
    by (auto simp: validate_function_def reject_fn_def split: if_splits option.splits prod.splits sum.splits)
  from v obtain imms wants w2 where j: "judge (ho_printable H) func ps src eff n run_model
      (round_cases ps n uniform imms) wants w2 = (Inr v, w')"
    by (auto simp: validate_cases_def Let_def split: sum.splits prod.splits)
  have "length (round_cases ps n uniform imms) = n"
    unfolding round_cases_def using length_gen_inputs [OF g] by (simp add: length_merge_scout_cases)
  with judge_ok_counts [OF j assms(2)] length_kept_cases [of "round_cases ps n uniform imms" wants] eff
  show ?thesis by (simp add: accept_fn_def)
qed

lemma validate_function_comes_back:
  assumes "params_ok ps" and "fair (ho_random H (fst (effective_seed H seed w)))"
  shows "\<exists>r w'. validate_function H b addr func ps src seed n sz run_model w = Some (r, w')"
proof -
  obtain eff w1 where eff: "effective_seed H seed w = (eff, w1)" by fastforce
  with gen_inputs_draws [OF assms, of n] obtain cs s' where
    "gen_inputs ps n (ho_random H eff) = Some (Inr cs, s')" by auto
  with eff show ?thesis
    by (cases "validate_cases H b addr func ps src eff n sz run_model cs w1") (simp add: validate_function_def)
qed

section \<open>A concrete round\<close>

text \<open>
  A stripped binary whose function returns its argument, one scalar in 0 to 1, two draws.
\<close>

definition echo_param :: param where
  "echo_param = \<lparr>p_name = ''n'', p_kind = I32, p_length_param = None, p_range = (0, 1), p_ret = ''i32''\<rparr>"

definition echo_machine :: "(flat_vm, flat_vm, unit) qiling" where
  "echo_machine = flat_machine 4096 (\<lambda>vm. (None, vm\<lparr>fv_regs := (fv_regs vm)
     (''rip'' := SENTINEL, ''rax'' := fv_regs vm ''rdi'')\<rparr>))"

definition stripped :: tools where
  "stripped = \<lparr>elf_of = (\<lambda>_. \<lparr>text_addr = 4096, text_data = [CHR 0xC3], elf_symbols = None\<rparr>), disasm = (\<lambda>_ _. [])\<rparr>"

definition echo_host :: "(flat_vm, flat_vm, unit) host" where
  "echo_host = \<lparr>ho_qiling = echo_machine, ho_tools = stripped, ho_printable = (\<lambda>_. True),
     ho_random = (\<lambda>_. 0 ## 1073741824 ## sconst 0), ho_token = (\<lambda>w. (''t'', w))\<rparr>"

definition echo_trace :: "int \<Rightarrow> fn_trace" where
  "echo_trace i = \<lparr>ft_ret = i, ft_mem = [], ft_exit_code = 0, ft_events = [],
     ft_batch_mode = Some ''fresh-vm-fallback''\<rparr>"

definition echo_cases :: "(bool \<times> case_in) list" where
  "echo_cases = [(True, [(''n'', VInt 0)]), (True, [(''n'', VInt 1)])]"

definition echo_worker :: "unit worker" where
  "echo_worker job w = (Inr [(''ok'', JBool True),
     (''results'', JList [faithful_answer (echo_trace 0), faithful_answer (echo_trace 1)])], w)"

lemma echo_randint:
  "randint 0 1 (0 ## s) = Some (Inr 0, s)" "randint 0 1 (1073741824 ## s) = Some (Inr 1, s)"
  by (simp_all add: randint_def randrange_def randbelow_def randbelow_loop.simps getrandbits.simps
      bit_length.simps bind_def ret_def)

lemma echo_case:
  "randint 0 1 s = Some (Inr i, s') \<Longrightarrow> gen_case [echo_param] s = Some (Inr [(''n'', VInt i)], s')"
  by (simp add: gen_case_def gen_scalar_def gen_memory_def echo_param_def bind_def ret_def)

lemma echo_draw: "gen_inputs [echo_param] 2 (0 ## 1073741824 ## s) = Some (Inr (map snd echo_cases), s)"
proof -
  have "(2 :: nat) = Suc (Suc 0)" by simp
  then show ?thesis
    unfolding gen_inputs_def
    by (simp only: draw_list.simps)
      (simp add: bind_def ret_def echo_case [OF echo_randint(1)] echo_case [OF echo_randint(2)] echo_cases_def)
qed

lemma echo_scrape: "scrape_immediates stripped b 4096 sz = Inr []"
  by (simp add: scrape_immediates_def stripped_def function_insns_def Let_def)

lemma echo_round: "round_cases [echo_param] 2 (map snd echo_cases) [] = echo_cases"
  by (simp add: round_cases_def merge_scout_cases_def scout_count_def scout_slice_budget_def scout_inputs_def
      echo_cases_def)

lemma echo_batch:
  "batch_call_original echo_machine stripped no_hooks b 4096 [echo_param] (map snd echo_cases) ()
     = (Inr [echo_trace 0, echo_trace 1], ())"
  by (simp add: batch_call_original_def guard_arity_def BAREGS_def echo_cases_def fn_has_syscall_def symtab_def
      stripped_def fresh_case_def boot_vm_def echo_machine_def flat_machine_def no_hooks_def run_case_def
      enter_case_def dict_get_def marshal_def echo_param_def set_regs_def finish_case_def c_int32_def
      with_mode_def echo_trace_def fv_write_def)

lemma echo_kept: "kept_cases echo_cases [echo_trace 0, echo_trace 1] = zip echo_cases [echo_trace 0, echo_trace 1]"
  by (simp add: kept_cases_def echo_cases_def echo_trace_def)

lemma echo_distinct: "2 \<le> length (distinct_inputs (kept_cases echo_cases [echo_trace 0, echo_trace 1]))"
proof -
  have "dec 0 = ''0''" "dec 1 = ''1''"
    by code_simp+
  then show ?thesis
    unfolding echo_kept distinct_inputs_def
    by (simp add: echo_cases_def wire_def order_items_def)
qed

lemma echo_no_fault: "\<forall>((d, c), want) \<in> set (zip echo_cases [echo_trace 0, echo_trace 1]). d \<longrightarrow> \<not> is_mem_fault want"
  by (simp add: echo_cases_def echo_trace_def is_mem_fault_def)

lemma echo_answers: "echo_worker job () =
   (Inr [(''ok'', JBool True), (''results'',
      JList (map (faithful_answer \<circ> snd) (kept_cases echo_cases [echo_trace 0, echo_trace 1])))], ())"
  unfolding echo_kept by (simp add: echo_worker_def echo_cases_def)

lemma echo_accepted:
  "validate_function echo_host [] 4096 ''f'' [echo_param] ''int f(int n) { return n; }'' None 2 None echo_worker ()
     = Some (Inr (accept_fn 2 0 (JStr ''t'')), ())"
proof -
  have shape: "mem_shape [echo_param] (ft_mem t)" if "t \<in> {echo_trace 0, echo_trace 1}" for t
    using that by (auto simp: echo_trace_def mem_shape_def)
  have agree: "compare_case U [echo_param] seed c t (faithful_answer t) = Inr None"
    if "t \<in> {echo_trace 0, echo_trace 1}" for U seed c t
    unfolding compare_case_None_iff by (rule agrees_faithful [OF _ shape [OF that]]) simp
  have j: "judge U ''f'' [echo_param] src (JStr ''t'') 2 echo_worker echo_cases [echo_trace 0, echo_trace 1] ()
      = (Inr (accept_fn 2 0 (JStr ''t'')), ())" for U src
    unfolding judge_run [where run_model = echo_worker, OF echo_no_fault echo_distinct echo_answers]
    by (simp add: judge_results_def has_key_def results_ok_def echo_kept)
      (simp add: echo_cases_def agree numeral_2_eq_2)
  show ?thesis
    using j by (simp add: echo_draw validate_function_def BAREGS_def compares_nothing_def is_void_def echo_param_def [THEN arg_cong [of _ _ p_ret]]
      effective_seed_def echo_host_def validate_cases_def echo_scrape echo_round echo_batch)
qed

end
