(* ===== verification/Function_Fuzz.thy ===== *)
theory Function_Fuzz
  imports Checks Validate_Function_Props
begin

text \<open>
  \<^verbatim>\<open>src/src/reschema/checks/function_fuzz.py\<close>: the checker of one function.  The declaration is
  parsed and typed here, the model runs in a contained job, and the job's output is shape-checked
  as the candidate's claim before \<^verbatim>\<open>validate_function\<close> compares it with the original.
\<close>

section \<open>Limits and rejections\<close>

definition CAP :: nat where "CAP = 4096"
definition CASE_TIMEOUT_S :: nat where "CASE_TIMEOUT_S = 5"

text \<open>
  \<^verbatim>\<open>str(e)\<close>: a \<^verbatim>\<open>KeyError\<close> shows the \<^verbatim>\<open>repr\<close> of its key.  The byte and position that a decoding
  error reports are not part of its model, so its text stops before them.
\<close>

fun exn_text :: "(nat \<Rightarrow> bool) \<Rightarrow> exn \<Rightarrow> str" where
  "exn_text U (ValueError m) = m"
| "exn_text U (KeyError m) = repr_str U m"
| "exn_text U (TypeError m) = m"
| "exn_text U (IndexError m) = m"
| "exn_text U (AttributeError m) = m"
| "exn_text U (NotImplementedError m) = m"
| "exn_text U (AssertionError m) = m"
| "exn_text U (RuntimeError m) = m"
| "exn_text U UnicodeDecodeError = '''utf-8' codec can't decode''"
| "exn_text U (StructError m) = m"
| "exn_text U (EmulatorError c m) = m"
| "exn_text U (FileNotFoundError m) = m"

text \<open>\<^verbatim>\<open>except (LookupError, ValueError, TypeError, RecursionError)\<close>; recursion is a \<^verbatim>\<open>RuntimeError\<close>.\<close>

fun spec_error :: "exn \<Rightarrow> bool" where
  "spec_error (ValueError m) = True"
| "spec_error (KeyError m) = True"
| "spec_error (TypeError m) = True"
| "spec_error (IndexError m) = True"
| "spec_error (RuntimeError m) = True"
| "spec_error UnicodeDecodeError = True"
| "spec_error _ = False"

definition reject_ff :: "'w platform \<Rightarrow> json dict \<Rightarrow> check_verdict" where
  "reject_ff P feedback =
     (let out = (''accepted'', JBool False) # feedback;
          capped = (''accepted'', JBool False)
                     # map (map_prod id (\<lambda>v. JStr (str_take CAP (py_str (pf_printable P) v)))) feedback
      in \<lparr>cv_status = REJECTED,
          cv_feedback = (if length (dumps (JObj out)) > pf_feedback_limit P div 2 then capped else out),
          cv_facts = []\<rparr>)"

section \<open>\<^verbatim>\<open>_params\<close>\<close>

definition letter :: "char \<Rightarrow> bool" where
  "letter c = ((65 \<le> byte_val c \<and> byte_val c < 91) \<or> (97 \<le> byte_val c \<and> byte_val c < 123) \<or> c = CHR ''_'')"

definition name_ok :: "str \<Rightarrow> bool" where
  "name_ok s =
     (case s of
        [] \<Rightarrow> False
      | c # r \<Rightarrow> letter c \<and> length r \<le> 63
          \<and> list_all (\<lambda>d. letter d \<or> (48 \<le> byte_val d \<and> byte_val d < 58)) r)"

definition param_error :: "raw_param \<Rightarrow> str \<Rightarrow> 'a result" where
  "param_error r why = Inl (ValueError (''param '' @ repr_str (\<lambda>_. True) (as_str (rp_name r)) @ '': '' @ why))"

definition check_field :: "str list \<Rightarrow> raw_param \<Rightarrow> unit result" where
  "check_field scalars r =
     (let (lo, hi) = rp_range r in
      if \<not> (is_int lo \<and> is_int hi \<and> - (2 ^ 31) \<le> as_int lo \<and> as_int lo \<le> as_int hi \<and> as_int hi < 2 ^ 31)
      then param_error r ''range [lo, hi] i32s''
      else if rp_ret r \<notin> {JStr ''i32'', JStr ''void''} then param_error r ''ret must be i32 or void''
      else if rp_length_param r \<noteq> JNull
              \<and> (\<not> is_str (rp_length_param r) \<or> as_str (rp_length_param r) \<notin> set scalars)
      then param_error r ''length_param must name an i32''
      else Inr ())"

definition check_params :: "raw_param list \<Rightarrow> param list result" where
  "check_params rs =
     (let name = (\<lambda>r. as_str (rp_name r));
          scalars = map name (filter (\<lambda>r. rp_kind r = I32) rs);
          sizing = map rp_length_param rs
      in if \<not> list_all (\<lambda>r. is_str (rp_name r) \<and> name_ok (name r)) rs
         then Inl (ValueError ''param names must be C identifiers of at most 64 chars'')
         else if \<not> distinct (map name rs) then Inl (ValueError ''param names must be unique'')
         else bindE (mapE (check_field scalars) rs) (\<lambda>_.
           (case find (\<lambda>r. JStr (name r) \<in> set sizing \<and> as_int (snd (rp_range r)) > MAX_BUFFER_LEN) rs of
              Some r \<Rightarrow> param_error r ''sizes a buffer, range must stay <= 32''
            | None \<Rightarrow> Inr (map typed rs))))"

fun is_obj :: "json \<Rightarrow> bool" where
  "is_obj (JObj _) = True"
| "is_obj _ = False"

definition params_of :: "'w platform \<Rightarrow> bytes \<Rightarrow> param list result" where
  "params_of P raw =
     bindE (pf_loads P raw) (\<lambda>specs.
       (case specs of
          JList ds \<Rightarrow>
            if list_all is_obj ds then bindE (mapE (from_json \<circ> json_dict) ds) check_params
            else Inl (ValueError ''params.json must be a list of param objects'')
        | _ \<Rightarrow> Inl (ValueError ''params.json must be a list of param objects'')))"

section \<open>The claim\<close>

fun keys_are :: "string list \<Rightarrow> json \<Rightarrow> bool" where
  "keys_are ks (JObj kvs) = (set (map fst kvs) = set ks)"
| "keys_are ks _ = False"

definition mem_kinds :: "param list \<Rightarrow> kind dict" where
  "mem_kinds ps = rev (map (\<lambda>p. (p_name p, p_kind p)) (filter (\<lambda>p. p_kind p \<noteq> I32) ps))"

definition mem_value_ok :: "kind option \<Rightarrow> json \<Rightarrow> bool" where
  "mem_value_ok k v =
     (if k = Some CString then (case v of JStr s \<Rightarrow> fromhex s \<noteq> None | _ \<Rightarrow> False)
      else (case v of JList xs \<Rightarrow> list_all is_int xs | _ \<Rightarrow> False))"

definition value_ok :: "kind dict \<Rightarrow> json \<Rightarrow> bool" where
  "value_ok mem got =
     (keys_are [''ret'', ''mem''] got
      \<and> (case (map_of (json_dict got) ''ret'', map_of (json_dict got) ''mem'') of
           (Some (JInt _), Some (JObj m)) \<Rightarrow>
             set (map fst m) = set (map fst mem)
             \<and> list_all (\<lambda>(n, v). mem_value_ok (map_of mem n) v) m
         | _ \<Rightarrow> False))"

definition crash_claim :: "(nat \<Rightarrow> bool) \<Rightarrow> json \<Rightarrow> json" where
  "crash_claim U c =
     (if (case c of JObj [(''timeout'', v)] \<Rightarrow> int_eq 1 v | _ \<Rightarrow> False)
         \<or> (keys_are [''signal''] c \<and> (case map_of (json_dict c) ''signal'' of Some (JInt _) \<Rightarrow> True | _ \<Rightarrow> False))
      then c
      else JObj [(''error'', JStr (str_take 200 (py_str U c)))])"

definition worker_stage :: "str \<Rightarrow> json dict" where
  "worker_stage detail = [(''stage'', JStr ''worker''), (''detail'', JStr detail)]"

text \<open>The last entry of a claim: a crash in its capped form, a value, or nothing that counts.\<close>

definition claim_last :: "(nat \<Rightarrow> bool) \<Rightarrow> kind dict \<Rightarrow> bool \<Rightarrow> json \<Rightarrow> json option" where
  "claim_last U mem short l =
     (if keys_are [''crash''] l
      then map_option (\<lambda>c. JObj [(''crash'', crash_claim U c)]) (map_of (json_dict l) ''crash'')
      else if short \<or> \<not> value_ok mem l then None
      else Some l)"

definition claim :: "(nat \<Rightarrow> bool) \<Rightarrow> json \<Rightarrow> param list \<Rightarrow> nat \<Rightarrow> json dict" where
  "claim U out ps n =
     (case out of
        JObj d \<Rightarrow>
          if has_key ''stage'' d then
            List.map_filter (\<lambda>k. map_option (\<lambda>v. (k, JStr (str_take CAP (py_str U v)))) (map_of d k))
              [''stage'', ''detail'', ''stderr'']
          else
            (case map_of d ''results'' of
               Some (JList res) \<Rightarrow>
                 (let mem = mem_kinds ps in
                  if res \<noteq> [] \<and> length res \<le> n then
                    (case claim_last U mem (length res < n) (last res) of
                       Some l \<Rightarrow>
                         if list_all (value_ok mem) (butlast res) then [(''results'', JList (butlast res @ [l]))]
                         else worker_stage (''worker results malformed for '' @ decn n @ '' cases'')
                     | None \<Rightarrow> worker_stage (''worker results malformed for '' @ decn n @ '' cases''))
                  else worker_stage (''worker results malformed for '' @ decn n @ '' cases''))
             | _ \<Rightarrow> worker_stage (''worker results malformed for '' @ decn n @ '' cases''))
      | _ \<Rightarrow> worker_stage ''worker output is not an object'')"

section \<open>The job\<close>

definition job_cases :: "json dict \<Rightarrow> nat" where
  "job_cases job = (case map_of job ''cases'' of Some (JList cs) \<Rightarrow> length cs | _ \<Rightarrow> 0)"

definition worker_spec :: "'w platform \<Rightarrow> str \<Rightarrow> json dict \<Rightarrow> job_spec" where
  "worker_spec P img job =
     \<lparr>js_image = img,
      js_argv = [''env'', ''TMPDIR=/work'', ''python'', ''native_worker.py''],
      js_files = [(''native_worker.py'', pf_source P ''driver/native_worker.py''),
                  (''spec.py'', pf_source P ''driver/spec.py'')],
      js_stdin = dumps (JObj job),
      js_timeout = 120 + job_cases job * (CASE_TIMEOUT_S + 2),
      js_memory_mb = 1024, js_pids = 128, js_scratch_mb = 64\<rparr>"

definition worker_job :: "'w platform \<Rightarrow> 'w run_job \<Rightarrow> json dict \<Rightarrow> 'w \<Rightarrow> job_result result \<times> 'w" where
  "worker_job P run_job job w =
     (case pf_image_id P w of
        (Inl e, w1) \<Rightarrow> (Inl e, w1)
      | (Inr img, w1) \<Rightarrow> run_job (worker_spec P img job) w1)"

text \<open>\<^verbatim>\<open>s[-n:]\<close> in code points.\<close>

definition str_last :: "nat \<Rightarrow> str \<Rightarrow> str" where
  "str_last n s = drop (length (str_take (str_len s - n) s)) s"

definition py_bool :: "bool \<Rightarrow> str" where
  "py_bool b = (if b then ''True'' else ''False'')"

text \<open>The parameters of a job are host-built: \<^verbatim>\<open>to_json\<close> of declared ones.\<close>

definition job_params :: "json dict \<Rightarrow> param list result" where
  "job_params job =
     (case map_of job ''params'' of
        Some (JList ds) \<Rightarrow> bindE (mapE (from_json \<circ> json_dict) ds) (\<lambda>rs. Inr (map typed rs))
      | _ \<Rightarrow> Inl (KeyError ''params''))"

definition job_model :: "'w platform \<Rightarrow> 'w run_job \<Rightarrow> 'w worker" where
  "job_model P run_job job w =
     (case worker_job P run_job job w of
        (Inl e, w1) \<Rightarrow> (Inl e, w1)
      | (Inr r, w1) \<Rightarrow>
          (if jr_returncode r \<noteq> 0 \<or> jr_timed_out r \<or> jr_truncated r then
             Inr (worker_stage (''job rc='' @ dec (jr_returncode r) @ '' timed_out='' @ py_bool (jr_timed_out r)
               @ '' truncated='' @ py_bool (jr_truncated r) @ '': ''
               @ str_last CAP (pf_decode_replace P (jr_stderr r))))
           else
             (case pf_loads P (jr_stdout r) of
                Inl e \<Rightarrow> Inr (worker_stage ''worker output is not JSON'')
              | Inr out \<Rightarrow> bindE (job_params job) (\<lambda>ps. Inr (claim (pf_printable P) out ps (job_cases job)))), w1))"

section \<open>\<^verbatim>\<open>FunctionFuzz.check\<close>\<close>

record fn_task =
  tk_name :: string
  tk_addr :: int
  tk_size :: "int option"

text \<open>\<^verbatim>\<open>json.loads(ctx.private["task.json"])["function"]\<close> and the fields the checker reads of it (here at once).\<close>

definition task_function :: "'w platform \<Rightarrow> bytes dict \<Rightarrow> fn_task result" where
  "task_function P priv =
     bindE (dict_get priv ''task.json'') (\<lambda>raw.
     bindE (pf_loads P raw) (\<lambda>t.
     bindE (item ''function'' t) (\<lambda>fn.
     bindE (item ''name'' fn) (\<lambda>nm.
     bindE (item ''addr'' fn) (\<lambda>ad.
     bindE (item ''size'' fn) (\<lambda>sz.
       (case (nm, ad) of
          (JStr n, JInt a) \<Rightarrow>
            Inr \<lparr>tk_name = n, tk_addr = a, tk_size = (case sz of JInt s \<Rightarrow> Some s | _ \<Rightarrow> None)\<rparr>
        | _ \<Rightarrow> Inl (TypeError ''function entry''))))))))"

definition fn_fact :: "'w platform \<Rightarrow> bytes dict \<Rightarrow> fn_task \<Rightarrow> param list \<Rightarrow> str \<Rightarrow> json" where
  "fn_fact P files fn ps src =
     (let fact = JObj [(''function'', JStr (tk_name fn)), (''params'', JList (map to_json ps)), (''source'', JStr src)]
      in if length (dumps_indent False (JList [fact])) > pf_facts_limit P div 2
         then JObj [(''function'', JStr (tk_name fn)),
                    (''params_sha256'', JStr (pf_sha256 P (get_default files ''params.json'' []))),
                    (''source_sha256'', JStr (pf_sha256 P (get_default files ''model.c'' [])))]
         else fact)"

definition accept_ff :: "'w platform \<Rightarrow> bytes dict \<Rightarrow> fn_task \<Rightarrow> param list \<Rightarrow> str \<Rightarrow> fn_verdict \<Rightarrow> check_verdict" where
  "accept_ff P files fn ps src v =
     \<lparr>cv_status = PASSED,
      cv_feedback = [(''accepted'', JBool True), (''compared'', JInt (int (vd_compared v))),
                     (''skipped'', JInt (int (vd_skipped v)))],
      cv_facts = [fn_fact P files fn ps src]\<rparr>"

definition missing_files :: "bytes dict \<Rightarrow> string list" where
  "missing_files files = filter (\<lambda>n. \<not> has_key n files) [''model.c'', ''params.json'']"

text \<open>The declaration and the source, or why they are no candidate.\<close>

definition declared :: "'w platform \<Rightarrow> bytes dict \<Rightarrow> (param list \<times> str) result" where
  "declared P files =
     bindE (params_of P (get_default files ''params.json'' [])) (\<lambda>ps.
     bindE (decode (get_default files ''model.c'' [])) (\<lambda>src. Inr (ps, src)))"

definition spec_feedback :: "str \<Rightarrow> json dict" where
  "spec_feedback detail = [(''reason'', JStr ''spec''), (''detail'', JStr detail)]"

definition judge_declared ::
    "('vm, 'snap, 'w) host \<Rightarrow> 'w platform \<Rightarrow> nat \<Rightarrow> 'w check_ctx \<Rightarrow> fn_task \<Rightarrow> bytes dict \<Rightarrow> param list \<Rightarrow> str \<Rightarrow> 'w
     \<Rightarrow> 'w checked" where
  "judge_declared H P n ctx fn files ps src w =
     (case dict_get (cx_private ctx) ''binary'' of
        Inl e \<Rightarrow> Some (Inl e, w)
      | Inr b \<Rightarrow>
          (case cx_draw_seed ctx w of (seed, w1) \<Rightarrow>
             (case validate_function H b (tk_addr fn) (tk_name fn) ps src (Some (JInt seed)) n (tk_size fn)
                     (job_model P (cx_run_job ctx)) w1 of
                None \<Rightarrow> None
              | Some (Inl e, w2) \<Rightarrow> Some (Inl e, w2)
              | Some (Inr v, w2) \<Rightarrow>
                  Some (Inr (if vd_ok v then accept_ff P files fn ps src v
                             else reject_ff P [(''divergence'',
                                   (case vd_divergence v of Some d \<Rightarrow> JObj d | None \<Rightarrow> JNull))]), w2))))"

definition function_fuzz ::
    "('vm, 'snap, 'w) host \<Rightarrow> 'w platform \<Rightarrow> nat \<Rightarrow> 'w check_ctx \<Rightarrow> 'w \<Rightarrow> 'w checked" where
  "function_fuzz H P n ctx w =
     (case task_function P (cx_private ctx) of
        Inl e \<Rightarrow> Some (Inl e, w)
      | Inr fn \<Rightarrow>
          (case candidate_files P (cx_candidate ctx) of
             Inl why \<Rightarrow> Some (Inr (reject_ff P (spec_feedback why)), w)
           | Inr files \<Rightarrow>
               if missing_files files \<noteq> [] then
                 Some (Inr (reject_ff P (spec_feedback
                   (''missing '' @ py_repr (pf_printable P) (JList (map JStr (missing_files files)))))), w)
               else if has_key ''cases.json'' files then
                 Some (Inr (reject_ff P (spec_feedback ''cases.json belongs to program tasks'')), w)
               else
                 (case declared P files of
                    Inl e \<Rightarrow>
                      Some (if spec_error e
                            then Inr (reject_ff P (spec_feedback (str_take CAP (exn_text (pf_printable P) e))))
                            else Inl e, w)
                  | Inr (ps, src) \<Rightarrow> judge_declared H P n ctx fn files ps src w)))"

end
