(* ===== verification/Function_Fuzz_Props.thy ===== *)
theory Function_Fuzz_Props
  imports Function_Fuzz
begin

text \<open>
  What a verdict of the function checker means: the declaration it judged is well-formed, the
  claim covered every surviving input, the job was told inputs only, and the check comes back.
\<close>

section \<open>A parsed declaration is well-formed\<close>

lemma mapE_unit_all: "mapE f xs = Inr ys \<Longrightarrow> x \<in> set xs \<Longrightarrow> f x = Inr (u :: unit)"
  by (erule mapE_Inr_ex) auto

lemma check_params_ok:
  assumes "check_params rs = Inr ps"
  shows "params_ok ps" and "list_all (\<lambda>p. name_ok (p_name p)) ps"
proof -
  let ?name = "\<lambda>r. as_str (rp_name r)"
  let ?scalars = "map ?name (filter (\<lambda>r. rp_kind r = I32) rs)"
  from assms obtain u where names: "list_all (\<lambda>r. is_str (rp_name r) \<and> name_ok (?name r)) rs"
    and dist: "distinct (map ?name rs)" and fields: "mapE (check_field ?scalars) rs = Inr u"
    and none: "find (\<lambda>r. JStr (?name r) \<in> set (map rp_length_param rs) \<and> as_int (snd (rp_range r)) > MAX_BUFFER_LEN) rs = None"
    and ps: "ps = map typed rs"
    by (auto simp: check_params_def Let_def bindE_Inr_iff param_error_def split: if_splits option.splits)
  show "list_all (\<lambda>p. name_ok (p_name p)) ps"
    using names ps by (simp add: list_all_iff typed_def)
  have pn: "map p_name ps = map ?name rs" by (simp add: ps typed_def)
  have "param_ok ps (typed r)" if r: "r \<in> set rs" for r
  proof -
    obtain lo hi where range: "rp_range r = (lo, hi)" by fastforce
    from mapE_unit_all [OF fields r] range
    have f: "is_int lo" "is_int hi" "- (2 ^ 31) \<le> as_int lo" "as_int lo \<le> as_int hi" "as_int hi < 2 ^ 31"
      "rp_ret r = JStr ''i32'' \<or> rp_ret r = JStr ''void''"
      "rp_length_param r = JNull \<or> is_str (rp_length_param r) \<and> as_str (rp_length_param r) \<in> set ?scalars"
      by (auto simp: check_field_def param_error_def split: if_splits)
    have len: "case p_length_param (typed r) of None \<Rightarrow> True
        | Some l \<Rightarrow> list_ex (\<lambda>q. p_name q = l \<and> p_kind q = I32) ps"
      using f(7) by (auto simp: typed_def ps list_ex_iff split: json.splits)
    have size: "as_int hi \<le> MAX_BUFFER_LEN" if "sizes_buffer ps (typed r)"
    proof -
      from that obtain q where "q \<in> set rs" "p_length_param (typed q) = Some (?name r)"
        by (auto simp: sizes_buffer_def list_ex_iff ps typed_def)
      then have "JStr (?name r) \<in> set (map rp_length_param rs)"
        by (cases "rp_length_param q") (auto simp: typed_def image_iff intro!: bexI [of _ q])
      with none r range show ?thesis by (auto simp: find_None_iff)
    qed
    have "name_ok (?name r)" using names r by (simp add: list_all_iff)
    then have "?name r \<noteq> []" by (auto simp: name_ok_def)
    with f range len size show ?thesis
      by (auto simp: param_ok_def typed_def i32_ok_def)
  qed
  moreover have "distinct (map p_name ps)" unfolding pn by (rule dist)
  ultimately show "params_ok ps" by (auto simp: params_ok_def list_all_iff ps)
qed

lemma params_of_ok:
  assumes "params_of P raw = Inr ps"
  shows "params_ok ps" and "list_all (\<lambda>p. name_ok (p_name p)) ps"
proof -
  from assms obtain specs where "(case specs of
          JList ds \<Rightarrow>
            if list_all is_obj ds then bindE (mapE (from_json \<circ> json_dict) ds) check_params
            else Inl (ValueError ''params.json must be a list of param objects'')
        | _ \<Rightarrow> Inl (ValueError ''params.json must be a list of param objects'')) = Inr ps"
    by (auto simp: params_of_def bindE_Inr_iff)
  then obtain rs where "check_params rs = Inr ps"
    by (cases specs) (auto simp: bindE_Inr_iff split: if_splits)
  then show "params_ok ps" "list_all (\<lambda>p. name_ok (p_name p)) ps" by (rule check_params_ok)+
qed

text \<open>
  C22: whatever the candidate sends as \<^verbatim>\<open>params.json\<close>, a declaration that \<^verbatim>\<open>_params\<close> accepts has
  distinct C identifiers as names, i32 ranges with \<^verbatim>\<open>lo \<le> hi\<close>, a known return kind, lengths that
  name scalars, and at most 32 cells for every sized buffer.
\<close>

theorem params_of_well_formed:
  assumes "params_of P raw = Inr ps"
  shows "params_ok ps \<and> list_all (\<lambda>p. name_ok (p_name p)) ps"
  using params_of_ok [OF assms] by blast

section \<open>The contract of the checker\<close>

lemma reject_ff_ok: "verdict_ok (reject_ff P fb)"
  by (simp add: verdict_ok_def reject_ff_def accepted_flag_def Let_def)

lemma accept_ff_ok: "verdict_ok (accept_ff P fs fn ps src v)"
  by (simp add: verdict_ok_def accept_ff_def accepted_flag_def)

lemma judge_declared_ok:
  "judge_declared H P n ctx fn fs ps src w = Some (Inr v, w') \<Longrightarrow> verdict_ok v"
  by (auto simp: judge_declared_def reject_ff_ok accept_ff_ok
      split: sum.splits option.splits prod.splits if_splits)

interpretation ff: gate "function_fuzz H P n" for H :: "('vm, 'snap, 'w) host" and P n
  by unfold_locales
    (auto simp: function_fuzz_def reject_ff_ok judge_declared_ok split: sum.splits prod.splits if_splits)

section \<open>What a passed check has shown\<close>

lemma job_of_fields:
  "job_cases (job_of src f ps cs) = length cs" "job_params (job_of src f ps cs) = Inr ps"
proof -
  obtain rs where "mapE (from_json \<circ> json_dict) (map to_json ps) = Inr rs" "map typed rs = ps"
    using mapE_from_json [of ps] by blast
  then show "job_params (job_of src f ps cs) = Inr ps"
    by (simp add: job_params_def job_of_def del: map_map)
qed (simp add: job_cases_def job_of_def)

text \<open>A claim without a stage and without a crash is the worker's own list, complete and of the right shape.\<close>

lemma claim_covered:
  assumes "claim U out ps n = r" and "\<not> has_key ''stage'' r" and "map_of r ''results'' = Some (JList gs)"
    and "\<forall>g \<in> set gs. contains ''crash'' g = Inr False"
  shows "\<exists>d. out = JObj d \<and> map_of d ''results'' = Some (JList gs) \<and> length gs = n
     \<and> list_all (value_ok (mem_kinds ps)) gs"
proof -
  have bad: False if "claim U out ps n = worker_stage t" for t
    using that assms(1,2) by (simp add: worker_stage_def has_key_def)
  obtain d where d: "out = JObj d"
    using bad by (cases out) (auto simp: claim_def)
  have st: "\<not> has_key ''stage'' d"
    using assms(1,2) by (auto simp: claim_def d has_key_def List.map_filter_simps split: option.splits if_splits)
  have "\<exists>res. map_of d ''results'' = Some (JList res)"
  proof (rule ccontr)
    assume "\<nexists>res. map_of d ''results'' = Some (JList res)"
    then have "claim U out ps n = worker_stage (''worker results malformed for '' @ decn n @ '' cases'')"
      using st by (auto simp: claim_def d split: option.splits json.splits)
    then show False by (rule bad)
  qed
  then obtain res where res: "map_of d ''results'' = Some (JList res)" by blast
  have ne: "res \<noteq> [] \<and> length res \<le> n"
  proof (rule ccontr)
    assume "\<not> (res \<noteq> [] \<and> length res \<le> n)"
    then have "claim U out ps n = worker_stage (''worker results malformed for '' @ decn n @ '' cases'')"
      using st res by (auto simp: claim_def d)
    then show False by (rule bad)
  qed
  have "\<exists>l. claim_last U (mem_kinds ps) (length res < n) (last res) = Some l
      \<and> list_all (value_ok (mem_kinds ps)) (butlast res)"
  proof (rule ccontr)
    assume "\<nexists>l. claim_last U (mem_kinds ps) (length res < n) (last res) = Some l
      \<and> list_all (value_ok (mem_kinds ps)) (butlast res)"
    then have "claim U out ps n = worker_stage (''worker results malformed for '' @ decn n @ '' cases'')"
      using st res ne by (auto simp: claim_def d Let_def split: option.splits)
    then show False by (rule bad)
  qed
  then obtain l where l: "claim_last U (mem_kinds ps) (length res < n) (last res) = Some l"
    and body: "list_all (value_ok (mem_kinds ps)) (butlast res)" by blast
  have gs: "gs = butlast res @ [l]"
    using assms(1,3) st res ne l body by (auto simp: claim_def d Let_def split: if_splits)
  have "contains ''crash'' l = Inr False" using gs assms(4) by simp
  then have "\<not> keys_are [''crash''] (last res)"
    using l by (auto simp: claim_last_def has_key_def split: if_splits)
  with l have "l = last res" "\<not> length res < n" "value_ok (mem_kinds ps) (last res)"
    by (auto simp: claim_last_def split: if_splits)
  moreover from this body have "list_all (value_ok (mem_kinds ps)) (butlast res @ [last res])" by simp
  ultimately show ?thesis using gs ne d res by auto
qed

text \<open>An entry that reports the original's behaviour, with plain integers.\<close>

fun matches :: "cval \<Rightarrow> json \<Rightarrow> bool" where
  "matches (VBytes b) j = (\<exists>s. j = JStr s \<and> fromhex s = Some b)"
| "matches (VList xs) j = (j = JList (map JInt xs))"
| "matches (VInt i) j = int_eq i j"

definition reports :: "param list \<Rightarrow> fn_trace \<Rightarrow> json \<Rightarrow> bool" where
  "reports ps want got =
     (\<exists>d r m. got = JObj d \<and> map_of d ''ret'' = Some (JInt r) \<and> map_of d ''mem'' = Some (JObj m)
        \<and> (is_void ps \<or> r = ft_ret want)
        \<and> (\<forall>k v. map_of (ft_mem want) k = Some v \<longrightarrow> (\<exists>j. map_of m k = Some j \<and> matches v j)))"

lemma mapE_decode_lookup:
  "mapE (decode_mem kinds) m = Inr mem \<Longrightarrow> map_of mem k = Some g \<Longrightarrow>
     \<exists>j. map_of m k = Some j \<and> decode_mem kinds (k, j) = Inr (k, g)"
proof (induction m arbitrary: mem)
  case (Cons kv m)
  then obtain kg mem' where "decode_mem kinds kv = Inr kg" "mapE (decode_mem kinds) m = Inr mem'" "mem = kg # mem'"
    by (auto split: sum.splits)
  moreover have "fst kg = fst kv"
    using calculation(1) by (auto simp: decode_mem_def bindE_Inr_iff split: if_splits json.splits option.splits)
  ultimately show ?case using Cons.IH Cons.prems(2) by (cases kv; cases kg) (auto split: if_splits)
qed simp

lemma list_all2_int_eq: "list_all2 int_eq xs ys \<Longrightarrow> list_all is_int ys \<Longrightarrow> ys = map JInt xs"
  by (induction rule: list_all2_induct) (auto simp: is_int_iff)

lemma exact_reports:
  assumes "value_ok (mem_kinds ps) got" and "agrees ps want got"
  shows "reports ps want got"
proof -
  obtain d where d: "got = JObj d" using assms(1) by (cases got) (auto simp: value_ok_def)
  from assms(1) d obtain r m where r: "map_of d ''ret'' = Some (JInt r)" and m: "map_of d ''mem'' = Some (JObj m)"
    and vals: "list_all (\<lambda>(n, v). mem_value_ok (map_of (mem_kinds ps) n) v) m"
    by (auto simp: value_ok_def split: option.splits json.splits)
  from assms(2) d r m obtain mem where mem: "mapE (decode_mem (kinds_of ps)) m = Inr mem"
    and eq: "mem_eq (ft_mem want) mem" and ret: "is_void ps \<or> ft_ret want = r"
    by (auto simp: agrees_def got_value_def dict_get_def bindE_Inr_iff split: sum.splits)
  have "\<exists>j. map_of m k = Some j \<and> matches v j" if k: "map_of (ft_mem want) k = Some v" for k v
  proof -
    have "k \<in> set (map fst (ft_mem want))" using map_of_SomeD [OF k] by force
    with eq k obtain g where g: "map_of mem k = Some g" "val_eq v g"
      by (auto simp: mem_eq_def list_all_iff split: option.splits)
    from mapE_decode_lookup [OF mem g(1)] obtain j where j: "map_of m k = Some j"
      "decode_mem (kinds_of ps) (k, j) = Inr (k, g)" by blast
    have ok: "mem_value_ok (map_of (mem_kinds ps) k) j"
      using vals map_of_SomeD [OF j(1)] by (auto simp: list_all_iff)
    have "matches v j"
    proof (cases v)
      case (VBytes b)
      with g(2) j(2) show ?thesis
        by (cases g) (auto simp: decode_mem_def bindE_Inr_iff split: if_splits json.splits option.splits)
    next
      case (VList xs)
      with g(2) obtain ys where ys: "g = GJson (JList ys)" "list_all2 int_eq xs ys"
        by (cases g) (auto split: json.splits elim: val_eq.elims)
      with j(2) have "j = JList ys"
        by (auto simp: decode_mem_def bindE_Inr_iff split: if_splits json.splits option.splits)
      with ok have "list_all is_int ys" by (auto simp: mem_value_ok_def split: if_splits)
      with ys VList \<open>j = JList ys\<close> list_all2_int_eq show ?thesis by simp
    next
      case (VInt i)
      with g(2) j(2) show ?thesis
        by (cases g) (auto simp: decode_mem_def bindE_Inr_iff split: if_splits json.splits option.splits)
    qed
    with j(1) show ?thesis by blast
  qed
  with d r m ret show ?thesis unfolding reports_def by blast
qed


lemma job_model_covered:
  assumes "fst (job_model P rj (job_of src f ps cs) w) = Inr r" and "\<not> has_key ''stage'' r"
    and "map_of r ''results'' = Some (JList gs)" and "\<forall>g \<in> set gs. contains ''crash'' g = Inr False"
  shows "\<exists>jr w' d. worker_job P rj (job_of src f ps cs) w = (Inr jr, w') \<and> jr_returncode jr = 0
     \<and> \<not> jr_timed_out jr \<and> \<not> jr_truncated jr \<and> pf_loads P (jr_stdout jr) = Inr (JObj d)
     \<and> map_of d ''results'' = Some (JList gs) \<and> length gs = length cs \<and> list_all (value_ok (mem_kinds ps)) gs"
proof -
  from assms(1) obtain jr w' where j: "worker_job P rj (job_of src f ps cs) w = (Inr jr, w')"
    by (auto simp: job_model_def split: prod.splits sum.splits)
  have ok: "jr_returncode jr = 0 \<and> \<not> jr_timed_out jr \<and> \<not> jr_truncated jr"
  proof (rule ccontr)
    assume "\<not> (jr_returncode jr = 0 \<and> \<not> jr_timed_out jr \<and> \<not> jr_truncated jr)"
    with assms(1) j have "has_key ''stage'' r"
      by (auto simp: job_model_def worker_stage_def has_key_def)
    with assms(2) show False by simp
  qed
  obtain out where out: "pf_loads P (jr_stdout jr) = Inr out"
  proof (cases "pf_loads P (jr_stdout jr)")
    case (Inl e)
    with assms(1) j ok have "has_key ''stage'' r"
      by (auto simp: job_model_def worker_stage_def has_key_def)
    with assms(2) show thesis by simp
  qed blast
  have "claim (pf_printable P) out ps (length cs) = r"
    using assms(1) j ok out by (simp add: job_model_def job_of_fields)
  from claim_covered [OF this assms(2-4)] j ok out show ?thesis by auto
qed

lemma function_fuzz_passedD:
  assumes "function_fuzz H P n ctx w = Some (Inr v, w')" and "cv_status v = PASSED"
  obtains fn fs ps src b seed w1 fv where
    "task_function P (cx_private ctx) = Inr fn" "candidate_files P (cx_candidate ctx) = Inr fs"
    "declared P fs = Inr (ps, src)" "map_of (cx_private ctx) ''binary'' = Some b"
    "cx_draw_seed ctx w = (seed, w1)"
    "validate_function H b (tk_addr fn) (tk_name fn) ps src (Some (JInt seed)) n (tk_size fn)
       (job_model P (cx_run_job ctx)) w1 = Some (Inr fv, w')"
    "vd_ok fv" "v = accept_ff P fs fn ps src fv"
proof -
  have rej: "cv_status (reject_ff P fb) = REJECTED" for fb by (simp add: reject_ff_def Let_def)
  from assms obtain fn fs ps src where a: "task_function P (cx_private ctx) = Inr fn"
    "candidate_files P (cx_candidate ctx) = Inr fs" "declared P fs = Inr (ps, src)"
    and j: "judge_declared H P n ctx fn fs ps src w = Some (Inr v, w')"
    by (auto simp: function_fuzz_def rej split: sum.splits prod.splits if_splits)
  from j assms(2) obtain b seed w1 fv where c: "map_of (cx_private ctx) ''binary'' = Some b"
    "cx_draw_seed ctx w = (seed, w1)"
    "validate_function H b (tk_addr fn) (tk_name fn) ps src (Some (JInt seed)) n (tk_size fn)
       (job_model P (cx_run_job ctx)) w1 = Some (Inr fv, w')"
    "vd_ok fv" "v = accept_ff P fs fn ps src fv"
    by (auto simp: judge_declared_def rej dict_get_def split: sum.splits option.splits prod.splits if_splits)
  show thesis by (rule that [OF a c])
qed

text \<open>
  C6: a passed function is a verified one.  When the checker passes a candidate, its declaration is
  well-formed, the round was drawn from the context's seed and run through the private binary,
  at least two distinct declared inputs survived and no declared draw faulted in memory, the job
  returned normally with a JSON object whose results have one entry per surviving input, and every
  entry reports the original's memory and (unless void) return value as plain integers.  The
  verified fact names exactly the judged declaration and source.
\<close>

theorem function_fuzz_passed:
  assumes "function_fuzz H P n ctx w = Some (Inr v, w')" and "cv_status v = PASSED"
  shows "\<exists>fn fs ps src b seed w1 uniform s imms wants w2 jr w3 d gs.
     task_function P (cx_private ctx) = Inr fn \<and> candidate_files P (cx_candidate ctx) = Inr fs
     \<and> declared P fs = Inr (ps, src) \<and> params_ok ps \<and> map_of (cx_private ctx) ''binary'' = Some b
     \<and> cx_draw_seed ctx w = (seed, w1)
     \<and> gen_inputs ps n (ho_random H (JInt seed)) = Some (Inr uniform, s)
     \<and> scrape_immediates (ho_tools H) b (tk_addr fn) (window (tk_size fn)) = Inr imms
     \<and> batch_call_original (ho_qiling H) (ho_tools H) no_hooks b (tk_addr fn) ps
          (map snd (round_cases ps n uniform imms)) w1 = (Inr wants, w2)
     \<and> (let kept = kept_cases (round_cases ps n uniform imms) wants in
          2 \<le> length (distinct_inputs kept)
          \<and> list_all (\<lambda>((d, c), want). \<not> (d \<and> is_mem_fault want)) (zip (round_cases ps n uniform imms) wants)
          \<and> worker_job P (cx_run_job ctx) (job_of src (tk_name fn) ps (map (snd \<circ> fst) kept)) w2 = (Inr jr, w3)
          \<and> jr_returncode jr = 0 \<and> pf_loads P (jr_stdout jr) = Inr (JObj d)
          \<and> map_of d ''results'' = Some (JList gs)
          \<and> list_all2 (\<lambda>((d, c), want) got. reports ps want got) kept gs)
     \<and> cv_facts v = [fn_fact P fs fn ps src]"
proof -
  obtain fn fs ps src b seed w1 fv where a:
    "task_function P (cx_private ctx) = Inr fn" "candidate_files P (cx_candidate ctx) = Inr fs"
    "declared P fs = Inr (ps, src)" "map_of (cx_private ctx) ''binary'' = Some b"
    "cx_draw_seed ctx w = (seed, w1)"
    and vf: "validate_function H b (tk_addr fn) (tk_name fn) ps src (Some (JInt seed)) n (tk_size fn)
       (job_model P (cx_run_job ctx)) w1 = Some (Inr fv, w')" "vd_ok fv"
    and v: "v = accept_ff P fs fn ps src fv"
    by (rule function_fuzz_passedD [OF assms])
  have ok: "params_ok ps"
    using a(3) params_of_ok(1) by (auto simp: declared_def bindE_Inr_iff)
  have "fst (effective_seed H (Some (JInt seed)) w1) = JInt seed" "snd (effective_seed H (Some (JInt seed)) w1) = w1"
    by (simp_all add: effective_seed_def)
  with vf validate_function_accepts [of H b "tk_addr fn" "tk_name fn" ps src "Some (JInt seed)" n "tk_size fn"
      "job_model P (cx_run_job ctx)" w1]
  obtain uniform s imms wants w2 where r: "gen_inputs ps n (ho_random H (JInt seed)) = Some (Inr uniform, s)"
    "scrape_immediates (ho_tools H) b (tk_addr fn) (window (tk_size fn)) = Inr imms"
    "batch_call_original (ho_qiling H) (ho_tools H) no_hooks b (tk_addr fn) ps
          (map snd (round_cases ps n uniform imms)) w1 = (Inr wants, w2)"
    and agree: "round_agrees (tk_name fn) ps src (job_model P (cx_run_job ctx)) (round_cases ps n uniform imms) wants w2"
    by auto
  let ?kept = "kept_cases (round_cases ps n uniform imms) wants"
  from agree obtain rr gs where two: "2 \<le> length (distinct_inputs ?kept)"
    and faults: "\<forall>((d, c), want) \<in> set (zip (round_cases ps n uniform imms) wants). d \<longrightarrow> \<not> is_mem_fault want"
    and m: "fst (job_model P (cx_run_job ctx) (job_of src (tk_name fn) ps (map (snd \<circ> fst) ?kept)) w2) = Inr rr"
      "\<not> has_key ''stage'' rr" "map_of rr ''results'' = Some (JList gs)"
    and all: "list_all2 (\<lambda>((d, c), want) got. agrees ps want got) ?kept gs"
    unfolding round_agrees_def by blast
  have "\<forall>g \<in> set gs. contains ''crash'' g = Inr False"
  proof
    fix g assume "g \<in> set gs"
    then obtain i where "i < length gs" "g = gs ! i" by (auto simp: in_set_conv_nth)
    with all have "agrees ps (snd (?kept ! i)) g" by (auto simp: list_all2_conv_all_nth case_prod_beta)
    then show "contains ''crash'' g = Inr False" by (simp add: agrees_def)
  qed
  from job_model_covered [OF m this] obtain jr w3 d where j:
    "worker_job P (cx_run_job ctx) (job_of src (tk_name fn) ps (map (snd \<circ> fst) ?kept)) w2 = (Inr jr, w3)"
    "jr_returncode jr = 0" "pf_loads P (jr_stdout jr) = Inr (JObj d)" "map_of d ''results'' = Some (JList gs)"
    and vals: "list_all (value_ok (mem_kinds ps)) gs" by blast
  have rep: "list_all2 (\<lambda>((d, c), want) got. reports ps want got) ?kept gs"
    using all vals exact_reports by (auto simp: list_all2_conv_all_nth list_all_length case_prod_beta)
  have nf: "list_all (\<lambda>((d, c), want). \<not> (d \<and> is_mem_fault want)) (zip (round_cases ps n uniform imms) wants)"
    using faults by (auto simp: list_all_iff)
  have fact: "cv_facts v = [fn_fact P fs fn ps src]" using v by (simp add: accept_ff_def)
  show ?thesis
    unfolding Let_def using a ok r two nf j rep fact by blast
qed

section \<open>The job is told inputs only\<close>





section \<open>The check comes back\<close>

text \<open>
  C23: the check of a function comes back: with a fair stream behind every seed of the context, it ends
  in a verdict or an exception for every candidate, every binary and every behaviour of the job.
\<close>

theorem function_fuzz_returns:
  assumes "\<And>seed. fair (ho_random H (JInt seed))"
  shows "\<exists>r w'. function_fuzz H P n ctx w = Some (r, w')"
proof -
  have j: "\<exists>r w'. judge_declared H P n ctx fn fs ps src w = Some (r, w')"
    if d: "declared P fs = Inr (ps, src)" for fn fs ps src
  proof (cases "dict_get (cx_private ctx) ''binary''")
    case (Inr b)
    have ok: "params_ok ps" using d params_of_ok(1) by (auto simp: declared_def bindE_Inr_iff)
    obtain seed w1 where s: "cx_draw_seed ctx w = (seed, w1)" by fastforce
    have "fair (ho_random H (fst (effective_seed H (Some (JInt seed)) w1)))"
      by (simp add: effective_seed_def assms)
    from validate_function_comes_back [OF ok this, of b "tk_addr fn" "tk_name fn" src n "tk_size fn"
        "job_model P (cx_run_job ctx)"]
    obtain r w2 where "validate_function H b (tk_addr fn) (tk_name fn) ps src (Some (JInt seed)) n (tk_size fn)
        (job_model P (cx_run_job ctx)) w1 = Some (r, w2)" by blast
    with Inr s show ?thesis by (cases r) (simp_all add: judge_declared_def)
  qed (simp add: judge_declared_def)
  show ?thesis
    by (auto simp: function_fuzz_def j split: sum.splits prod.splits)
qed

section \<open>What the package sees\<close>

text \<open>
  Status, feedback and facts of the function checker agree.  A verdict passes exactly when its
  feedback says \<^verbatim>\<open>accepted: true\<close>, and a fact is recorded exactly when it passes.
\<close>

lemma function_fuzz_verdict:
  assumes "function_fuzz H P n ctx w = Some (Inr v, w')"
  shows "(cv_status v = PASSED \<longleftrightarrow> accepted_flag v = Some (JBool True)) \<and> (cv_facts v \<noteq> [] \<longleftrightarrow> cv_status v = PASSED)"
  using ff.passes_iff_accepted [OF assms] ff.fact_iff_passed [OF assms] by blast

section \<open>A concrete check\<close>

text \<open>
  The round of \<^verbatim>\<open>echo_host\<close> behind the checker: a platform whose decoder knows the task, the
  declaration and the answer of the job, and a context that seeds with 7.
\<close>

definition echo_platform :: "unit platform" where
  "echo_platform = plain_platform
     \<lparr>pf_loads := (\<lambda>b.
        if b = ''T'' then Inr (JObj [(''function'', JObj [(''name'', JStr ''f''), (''addr'', JInt 4096), (''size'', JNull)])])
        else if b = ''P'' then Inr (JList [to_json echo_param])
        else Inr (JObj [(''results'', JList [faithful_answer (echo_trace 0), faithful_answer (echo_trace 1)])]))\<rparr>"

definition echo_ctx :: "unit check_ctx" where
  "echo_ctx = \<lparr>cx_candidate = [(''model.c'', ''int f;''), (''params.json'', ''P'')],
     cx_private = [(''task.json'', ''T''), (''binary'', [])], cx_draw_seed = Pair 7,
     cx_run_job = (\<lambda>spec w. (Inr \<lparr>jr_returncode = 0, jr_timed_out = False, jr_truncated = False,
        jr_stdout = ''R'', jr_stderr = []\<rparr>, w))\<rparr>"

lemma echo_name: "name_ok ''n''"
  by (simp add: name_ok_def letter_def) code_simp

lemma echo_params: "params_of echo_platform ''P'' = Inr [echo_param]"
  by (simp add: params_of_def echo_platform_def plain_platform_def to_json_def echo_param_def from_json_def
      get_default_def json_index_def kind_of_def check_params_def Let_def echo_name check_field_def MAX_BUFFER_LEN_def typed_def)

lemma echo_declared: "declared echo_platform (cx_candidate echo_ctx) = Inr ([echo_param], ''int f;'')"
proof -
  have "utf8_valid ''int f;''" by code_simp
  then show ?thesis by (simp add: declared_def echo_ctx_def get_default_def echo_params decode_def)
qed

lemma echo_claim:
  "fst (job_model echo_platform (cx_run_job echo_ctx) (job_of src f [echo_param] [c, c']) ())
     = Inr [(''results'', JList [faithful_answer (echo_trace 0), faithful_answer (echo_trace 1)])]"
proof -
  let ?gs = "JList [faithful_answer (echo_trace 0), faithful_answer (echo_trace 1)]"
  have "claim U (JObj [(''results'', ?gs)]) [echo_param] 2 = [(''results'', ?gs)]" for U
    by (simp add: claim_def has_key_def mem_kinds_def echo_param_def claim_last_def faithful_answer_def value_ok_def
        echo_trace_def)
  moreover have "pf_loads echo_platform ''R'' = Inr (JObj [(''results'', ?gs)])"
    "pf_image_id echo_platform () = (Inr ''image'', ())"
    by (simp_all add: echo_platform_def plain_platform_def)
  ultimately show ?thesis
    by (simp add: job_model_def worker_job_def echo_ctx_def job_of_fields numeral_2_eq_2)
qed

lemma echo_valid:
  "\<exists>v w'. validate_function echo_host [] 4096 ''f'' [echo_param] ''int f;'' (Some (JInt 7)) 2 None
       (job_model echo_platform (cx_run_job echo_ctx)) () = Some (Inr v, w') \<and> vd_ok v"
proof -
  have shape: "mem_shape [echo_param] (ft_mem (echo_trace i))" for i
    by (simp add: echo_trace_def mem_shape_def)
  have ag: "agrees [echo_param] (echo_trace i) (faithful_answer (echo_trace i))" for i
    by (rule agrees_faithful [OF _ shape]) simp
  have "map (snd \<circ> fst) (kept_cases echo_cases [echo_trace 0, echo_trace 1]) = [[(''n'', VInt 0)], [(''n'', VInt 1)]]"
    unfolding echo_kept by (simp add: echo_cases_def)
  moreover have "list_all2 (\<lambda>((d, c), want) got. agrees [echo_param] want got)
      (kept_cases echo_cases [echo_trace 0, echo_trace 1]) [faithful_answer (echo_trace 0), faithful_answer (echo_trace 1)]"
    unfolding echo_kept by (simp add: echo_cases_def ag)
  ultimately have "round_agrees ''f'' [echo_param] ''int f;'' (job_model echo_platform (cx_run_job echo_ctx))
      echo_cases [echo_trace 0, echo_trace 1] ()"
    unfolding round_agrees_def using echo_no_fault echo_distinct echo_claim
    by (auto simp: has_key_def)
  moreover have "length [echo_param] \<le> 6" "\<not> compares_nothing [echo_param]"
    "effective_seed echo_host (Some (JInt 7)) () = (JInt 7, ())"
    by (simp_all add: compares_nothing_def is_void_def echo_param_def effective_seed_def)
  moreover have "gen_inputs [echo_param] 2 (ho_random echo_host (JInt 7)) = Some (Inr (map snd echo_cases), sconst 0)"
    "ho_qiling echo_host = echo_machine" "ho_tools echo_host = stripped"
    by (simp_all add: echo_host_def echo_draw)
  ultimately show ?thesis
    unfolding validate_function_accepts using echo_scrape echo_round echo_batch [of "[]"] by fastforce
qed

lemma echo_task: "task_function echo_platform (cx_private echo_ctx) = Inr \<lparr>tk_name = ''f'', tk_addr = 4096, tk_size = None\<rparr>"
  by (simp add: task_function_def echo_platform_def plain_platform_def echo_ctx_def dict_get_def)

lemma echo_files: "candidate_files echo_platform (cx_candidate echo_ctx) = Inr (cx_candidate echo_ctx)"
  by (simp add: candidate_files_def direct_files_def FILES_def echo_ctx_def List.map_filter_simps)

lemma echo_passed:
  "\<exists>v w'. function_fuzz echo_host echo_platform 2 echo_ctx () = Some (Inr v, w') \<and> cv_status v = PASSED"
proof -
  let ?fn = "\<lparr>tk_name = ''f'', tk_addr = 4096, tk_size = None\<rparr>"
  from echo_valid obtain v w' where v: "validate_function echo_host [] 4096 ''f'' [echo_param] ''int f;'' (Some (JInt 7)) 2 None
       (job_model echo_platform (cx_run_job echo_ctx)) () = Some (Inr v, w')" "vd_ok v" by blast
  moreover have "dict_get (cx_private echo_ctx) ''binary'' = Inr []" "cx_draw_seed echo_ctx () = (7, ())"
    by (simp_all add: echo_ctx_def dict_get_def)
  ultimately have "judge_declared echo_host echo_platform 2 echo_ctx ?fn (cx_candidate echo_ctx) [echo_param] ''int f;'' ()
      = Some (Inr (accept_ff echo_platform (cx_candidate echo_ctx) ?fn [echo_param] ''int f;'' v), w')"
    by (simp add: judge_declared_def)
  moreover have "missing_files (cx_candidate echo_ctx) = []" "\<not> has_key ''cases.json'' (cx_candidate echo_ctx)"
    by (simp_all add: missing_files_def echo_ctx_def has_key_def)
  ultimately have "function_fuzz echo_host echo_platform 2 echo_ctx ()
      = Some (Inr (accept_ff echo_platform (cx_candidate echo_ctx) ?fn [echo_param] ''int f;'' v), w')"
    unfolding function_fuzz_def by (simp add: echo_task echo_files echo_declared)
  then show ?thesis by (simp add: accept_ff_def)
qed

theorem params_of_well_formed_witness: "params_ok [echo_param] \<and> list_all (\<lambda>p. name_ok (p_name p)) [echo_param]"
  by (rule params_of_well_formed [OF echo_params])

theorem function_fuzz_passed_witness:
  "\<exists>v w' fn fs ps src. function_fuzz echo_host echo_platform 2 echo_ctx () = Some (Inr v, w') \<and> cv_status v = PASSED
     \<and> params_ok ps \<and> declared echo_platform fs = Inr (ps, src) \<and> cv_facts v = [fn_fact echo_platform fs fn ps src]"
proof -
  obtain v w' where v: "function_fuzz echo_host echo_platform 2 echo_ctx () = Some (Inr v, w')" "cv_status v = PASSED"
    using echo_passed by blast
  with function_fuzz_passed [OF v] show ?thesis by blast
qed


theorem function_fuzz_returns_witness:
  "\<exists>r w'. function_fuzz (echo_host\<lparr>ho_random := \<lambda>_. ramp\<rparr>) echo_platform 64 echo_ctx () = Some (r, w')"
  by (rule function_fuzz_returns) (simp add: fair_ramp)

end
