(* ===== verification/Validate_Program.thy ===== *)
theory Validate_Program
  imports Canonical Py_Random Py_Text
begin

text \<open>
  \<^verbatim>\<open>src/src/reschema/validate/program.py\<close>: the observable channel, \<^verbatim>\<open>compare\<close> with its dependency
  slices, the streams of hidden inputs and the hidden suite.
\<close>

section \<open>Observables\<close>

definition HIDDEN_N :: nat where "HIDDEN_N = 8"

definition INPUT_MODE :: "string dict" where
  "INPUT_MODE = [(''check'', ''stdin''), (''filewrite'', ''stdin-bytes''), (''pkfmt'', ''stdin-bytes'')]"

record verdict =
  pv_ok :: bool
  pv_reason :: string
  pv_divergence :: "json dict option"

definition OBS :: "string list" where
  "OBS = [''write'', ''writev'', ''exit_group'']"

definition ADDR_PREFIX :: string where "ADDR_PREFIX = ''ADDR_''"

text \<open>\<^verbatim>\<open>decode("latin-1")\<close>: one code point per byte.\<close>

definition latin1 :: "bytes \<Rightarrow> str" where
  "latin1 b = concat (map (\<lambda>c. utf8_enc (byte_val c)) b)"

definition shown :: "str \<Rightarrow> str result" where
  "shown h = (case fromhex h of None \<Rightarrow> Inl (ValueError ''non-hexadecimal number'') | Some b \<Rightarrow> Inr (latin1 b))"

definition starts_with :: "string \<Rightarrow> string \<Rightarrow> bool" where
  "starts_with p s = (take (length p) s = p)"

definition wild_addr :: "event \<Rightarrow> event" where
  "wild_addr e = e\<lparr>ev_args := map (\<lambda>a. if starts_with ADDR_PREFIX a then ''ADDR_*'' else a) (ev_args e)\<rparr>"

definition obs_events :: "trace \<Rightarrow> event list" where
  "obs_events t = map wild_addr (filter (\<lambda>e. ev_sc e \<in> set OBS) (tr_events t))"

section \<open>Dependency slices\<close>

definition OPEN_FAMILY :: "string list" where
  "OPEN_FAMILY = [''openat'', ''open'', ''creat'']"

record fd_walk =
  fw_map :: table
  fw_fds :: table
  fw_pending :: bool

definition fd_step :: "fd_walk \<Rightarrow> event \<Rightarrow> fd_walk" where
  "fd_step st e =
     (if ev_sc e \<in> set OPEN_FAMILY \<and> ev_phase e = ''enter'' then
        st\<lparr>fw_pending := write_intent (ev_sc e) (ev_args e)\<rparr>
      else if ev_sc e \<in> set OPEN_FAMILY \<and> ev_phase e = ''exit'' then
        (case hex_result (ev_result e) of
           Some res \<Rightarrow>
             (if fw_pending st then
                (let (m, tok) = mapper ''FD'' (fw_map st) res
                 in st\<lparr>fw_map := m, fw_fds := setdefault (fw_fds st) res tok\<rparr>)
              else st)
         | None \<Rightarrow> st)\<lparr>fw_pending := False\<rparr>
      else st)"

definition fd_table :: "event list \<Rightarrow> table" where
  "fd_table evs = fw_fds (foldl fd_step \<lparr>fw_map = [], fw_fds = [], fw_pending = False\<rparr> evs)"

definition opener_step :: "str \<Rightarrow> event list \<times> event option \<Rightarrow> event \<Rightarrow> event list \<times> event option" where
  "opener_step literal s e =
     (if ev_sc e \<in> set OPEN_FAMILY \<and> ev_phase e = ''enter'' then
        (fst s, if write_intent (ev_sc e) (ev_args e) then Some e else None)
      else if ev_sc e \<in> set OPEN_FAMILY \<and> ev_phase e = ''exit'' \<and> ev_result e = Some (JStr literal) then
        (case snd s of Some enter \<Rightarrow> ([enter, e], Some enter) | None \<Rightarrow> s)
      else s)"

definition last6 :: "'a list \<Rightarrow> 'a list" where
  "last6 xs = drop (length xs - 6) xs"

definition chain :: "event list \<Rightarrow> str \<Rightarrow> str \<Rightarrow> event list option" where
  "chain evs literal fd =
     (let ch = fst (foldl (opener_step literal) ([], None) evs)
               @ filter (\<lambda>e. ev_sc e \<in> {''write'', ''writev''} \<and> ev_args e \<noteq> [] \<and> hd (ev_args e) = fd) evs
      in if ch = [] then None else Some (last6 ch))"

text \<open>\<^verbatim>\<open>{v: k for k, v in table.items()}.get(fd, fd)\<close>: the last entry of a value wins.\<close>

definition literal_of :: "table \<Rightarrow> str \<Rightarrow> str" where
  "literal_of tab fd = get_default (rev (map (\<lambda>(k, v). (v, k)) tab)) fd fd"

definition dep_slice :: "trace \<Rightarrow> nat \<Rightarrow> event list option" where
  "dep_slice t i =
     (let evs = tr_events t in
      if i < length evs then
        (case ev_args (evs ! i) of
           [] \<Rightarrow> None
         | fd # _ \<Rightarrow> chain (take (Suc i) evs) (literal_of (fd_table evs) fd) fd)
      else None)"

definition dep_slice_for_files :: "trace \<Rightarrow> event list option" where
  "dep_slice_for_files t =
     (let tab = fd_table (tr_events t) in
      if tab = [] then None else chain (tr_events t) (fst (last tab)) (snd (last tab)))"

section \<open>\<^verbatim>\<open>compare\<close>\<close>

definition event_json :: "event \<Rightarrow> json" where
  "event_json e =
     JObj ([(''phase'', JStr (ev_phase e)), (''sc'', JStr (ev_sc e)), (''args'', JList (map JStr (ev_args e)))]
           @ (case ev_result e of Some r \<Rightarrow> [(''result'', r)] | None \<Rightarrow> []) @ ev_extra e)"

definition io_json :: "trace \<Rightarrow> json result" where
  "io_json t =
     bindE (shown (tr_stdout t)) (\<lambda>so.
     bindE (shown (tr_stderr t)) (\<lambda>se.
       Inr (JObj [(''stdout'', JStr (tr_stdout t)), (''stderr'', JStr (tr_stderr t)),
                  (''exit_code'', JInt (tr_exit_code t)), (''stdout_decoded'', JStr so),
                  (''stderr_decoded'', JStr se)])))"

definition same_io :: "trace \<Rightarrow> trace \<Rightarrow> bool" where
  "same_io tr got =
     (tr_stdout got = tr_stdout tr \<and> tr_stderr got = tr_stderr tr \<and> tr_exit_code got = tr_exit_code tr)"

definition files_json :: "str dict \<Rightarrow> json" where
  "files_json d = JObj (map (map_prod id JStr) d)"

definition slice_item :: "event list option \<Rightarrow> json dict" where
  "slice_item sl = (case sl of None \<Rightarrow> [] | Some evs \<Rightarrow> if evs = [] then [] else [(''dep_slice'', JList (map event_json evs))])"

text \<open>The first index at which two event lists differ, within the shorter one.\<close>

fun first_diff :: "event list \<Rightarrow> event list \<Rightarrow> nat option" where
  "first_diff (e # te) (a # ge) = (if event_eq a e then map_option Suc (first_diff te ge) else Some 0)"
| "first_diff _ _ = None"

definition obs_indices :: "trace \<Rightarrow> nat list" where
  "obs_indices t = filter (\<lambda>j. ev_sc (tr_events t ! j) \<in> set OBS) [0..<length (tr_events t)]"

definition reject_pv :: "string \<Rightarrow> json dict \<Rightarrow> verdict" where
  "reject_pv reason d = \<lparr>pv_ok = False, pv_reason = reason, pv_divergence = Some d\<rparr>"

text \<open>One pair: \<^verbatim>\<open>None\<close> when it agrees.\<close>

definition compare_pair :: "trace \<Rightarrow> trace \<Rightarrow> verdict option result" where
  "compare_pair tr got =
     (let argv = JList (map JStr (drop 1 (tr_argv tr)));
          ge = obs_events got; te = obs_events tr
      in if \<not> same_io tr got then
           bindE (io_json tr) (\<lambda>want. bindE (io_json got) (\<lambda>act.
             Inr (Some (reject_pv ''io-mismatch''
               ([(''argv'', argv), (''expected'', want), (''actual'', act)]
                @ (if tr_exit_code got = - 1 \<and> tr_events got \<noteq> []
                   then [(''actual_fault'', event_json (last (tr_events got)))] else []))))))
         else if \<not> dict_eq (tr_files_written got) (tr_files_written tr) then
           Inr (Some (reject_pv ''files-mismatch''
             ([(''argv'', argv), (''expected'', files_json (tr_files_written tr)),
               (''actual'', files_json (tr_files_written got))] @ slice_item (dep_slice_for_files tr))))
         else
           (case first_diff te ge of
              Some i \<Rightarrow>
                Inr (Some (reject_pv ''event-divergence''
                  ([(''argv'', argv), (''first_diverging_event_index'', JInt (int i)),
                    (''expected'', event_json (te ! i)), (''actual'', event_json (ge ! i))]
                   @ slice_item (dep_slice tr (obs_indices tr ! i)))))
            | None \<Rightarrow>
                if length ge \<noteq> length te then
                  Inr (Some (reject_pv ''event-length''
                    [(''argv'', argv), (''expected_len'', JInt (int (length te))),
                     (''actual_len'', JInt (int (length ge)))]))
                else Inr None))"

fun compare :: "trace list \<Rightarrow> trace list \<Rightarrow> verdict result" where
  "compare (tr # trs) (got # gots) =
     bindE (compare_pair tr got) (\<lambda>d. case d of Some v \<Rightarrow> Inr v | None \<Rightarrow> compare trs gots)"
| "compare _ _ = Inr \<lparr>pv_ok = True, pv_reason = [], pv_divergence = None\<rparr>"

section \<open>Hidden inputs\<close>

definition ascii_letters :: string where
  "ascii_letters = ''abcdefghijklmnopqrstuvwxyzABCDEFGHIJKLMNOPQRSTUVWXYZ''"
definition digits :: string where "digits = ''0123456789''"

text \<open>\<^verbatim>\<open>string.punctuation\<close>: the ASCII graphic characters that are no letter and no digit.\<close>

definition punctuation :: string where
  "punctuation = map char_of ([33..<48] @ [58..<65] @ [91..<97] @ [123..<127])"

definition CHARSET :: string where
  "CHARSET = ascii_letters @ digits @ filter (\<lambda>c. byte_val c \<noteq> 34 \<and> byte_val c \<noteq> 92) punctuation"

definition byte_list :: "int list \<Rightarrow> bytes" where
  "byte_list xs = map (\<lambda>x. char_of (nat x)) xs"

text \<open>One record of a packet: the type, the declared length in two bytes, the payload.\<close>

definition pkfmt_record :: "bool \<Rightarrow> int list draw" where
  "pkfmt_record is_last =
     bind (randint 0 6) (\<lambda>ln.
     bind (if is_last
           then bind random53 (\<lambda>x. if below_0_18 x then bind (randint 8 32) (\<lambda>d. ret (ln + d)) else ret ln)
           else ret ln) (\<lambda>declared.
     bind (choice [0x20, 0x30]) (\<lambda>ty.
     bind (draw_list (nat ln) (randrange 0 256)) (\<lambda>payload.
       ret ([ty, declared mod 256, declared div 256 mod 256] @ payload)))))"

fun pkfmt_records :: "nat \<Rightarrow> int list draw" where
  "pkfmt_records 0 = ret []"
| "pkfmt_records (Suc m) = bind (pkfmt_record (m = 0)) (\<lambda>r. bind (pkfmt_records m) (\<lambda>rs. ret (r @ rs)))"

definition pkfmt_grammar_packet :: "bytes draw" where
  "pkfmt_grammar_packet =
     bind random53 (\<lambda>x.
     bind (choice [2, 3, 3, 4, 4, 5]) (\<lambda>ver.
     bind (randint 0 2) (\<lambda>n.
     bind (pkfmt_records (nat n)) (\<lambda>rs.
       ret (byte_list ([if below_0_15 x then 0x4E else 0xB1, 0x5A, ver, n] @ rs))))))"

definition SEED_GRAMMARS :: "string \<Rightarrow> bytes draw option" where
  "SEED_GRAMMARS name = (if name = ''pkfmt'' then Some pkfmt_grammar_packet else None)"

text \<open>The body of \<^verbatim>\<open>hidden_input_stream\<close>'s loop without the grammar: one uniform draw.\<close>

definition byte_body :: "bytes draw" where
  "byte_body =
     bind (randint 4 48) (\<lambda>ln.
     bind (draw_list (nat ln) (randrange 0 256)) (\<lambda>body.
     bind (sample2 (length body)) (\<lambda>(nul, hi).
     bind (randrange 0x80 0x100) (\<lambda>v.
       ret (byte_list (body[nul := 0, hi := v]))))))"

definition uniform_input :: "string \<Rightarrow> (str list \<times> bytes) draw" where
  "uniform_input mode =
     (if mode = ''stdin-bytes'' then bind byte_body (\<lambda>b. ret ([], b))
      else
        bind (randint 1 24) (\<lambda>n.
        bind (draw_list (nat n) (choice CHARSET)) (\<lambda>s.
          ret (if mode = ''argv'' then ([s], []) else ([], s @ [CHR 0x0A])))))"

text \<open>One element of \<^verbatim>\<open>hidden_input_stream\<close>.\<close>

definition hidden_input :: "string \<Rightarrow> bytes draw option \<Rightarrow> (str list \<times> bytes) draw" where
  "hidden_input mode grammar =
     (case grammar of
        None \<Rightarrow> uniform_input mode
      | Some g \<Rightarrow> bind random53 (\<lambda>x. if below_0_6 x then bind g (\<lambda>b. ret ([], b)) else uniform_input mode))"

definition record_stable :: "'w emulator \<Rightarrow> binary \<Rightarrow> str list \<Rightarrow> bytes \<Rightarrow> 'w \<Rightarrow> trace option result \<times> 'w" where
  "record_stable emu b argv stdin w =
     (let (r1, w1) = record_trace emu b argv stdin w;
          (r2, w2) = record_trace emu b argv stdin w1
      in (bindE (canonicalize r1) (\<lambda>a. bindE (canonicalize r2) (\<lambda>a2.
            Inr (if trace_eq a a2 then Some a else None))), w2))"

definition usable :: "trace option \<Rightarrow> bool" where
  "usable t = (case t of None \<Rightarrow> False | Some x \<Rightarrow> tr_exit_code x \<noteq> - 1)"

text \<open>
  The loop over \<^verbatim>\<open>zip(stream, range(10 * HIDDEN_N))\<close>: an input is drawn before the attempts are
  found to be exhausted, and before the suite is found to be full.  \<^verbatim>\<open>None\<close>: a draw does not
  come back.
\<close>

fun hidden_loop ::
    "'w emulator \<Rightarrow> binary \<Rightarrow> (str list \<times> bytes) draw \<Rightarrow> nat \<Rightarrow> (str list \<times> str) list \<Rightarrow> trace list \<Rightarrow> rng \<Rightarrow> 'w
     \<Rightarrow> (trace list result \<times> 'w) option" where
  "hidden_loop emu b next 0 known fresh s w =
     (case next s of None \<Rightarrow> None | Some (Inl e, _) \<Rightarrow> Some (Inl e, w) | Some (Inr _, _) \<Rightarrow> Some (Inr fresh, w))"
| "hidden_loop emu b next (Suc k) known fresh s w =
     (case next s of
        None \<Rightarrow> None
      | Some (Inl e, _) \<Rightarrow> Some (Inl e, w)
      | Some (Inr (argv, stdin), s') \<Rightarrow>
          if length fresh = HIDDEN_N then Some (Inr fresh, w)
          else if (argv, bytes_hex stdin) \<in> set known then hidden_loop emu b next k known fresh s' w
          else
            (case record_stable emu b argv stdin w of
               (Inl e, w') \<Rightarrow> Some (Inl e, w')
             | (Inr t, w') \<Rightarrow>
                 hidden_loop emu b next k ((argv, bytes_hex stdin) # known)
                   (if usable t then fresh @ [the t] else fresh) s' w'))"

definition input_key :: "trace \<Rightarrow> str list \<times> str" where
  "input_key t = (drop 1 (tr_argv t), tr_stdin_hex t)"

definition hidden_suite ::
    "'w emulator \<Rightarrow> (str \<Rightarrow> rng) \<Rightarrow> binary \<Rightarrow> string \<Rightarrow> trace list \<Rightarrow> str \<Rightarrow> 'w \<Rightarrow> (trace list result \<times> 'w) option" where
  "hidden_suite emu random b seed_name rec hidden_seed w =
     hidden_loop emu b
       (hidden_input (get_default INPUT_MODE seed_name ''argv'')
          (if seed_name = [] then None else SEED_GRAMMARS seed_name))
       (10 * HIDDEN_N) (map input_key rec) [] (random hidden_seed) w"

end
