(* ===== verification/Validate_Program_Props.thy ===== *)
theory Validate_Program_Props
  imports Validate_Program
begin

text \<open>
  What \<^verbatim>\<open>compare\<close> decides, what a dependency slice may contain, and what the hidden suite and
  its inputs are like.
\<close>

section \<open>\<^verbatim>\<open>compare\<close>\<close>

definition same_observables :: "trace \<Rightarrow> trace \<Rightarrow> bool" where
  "same_observables tr got =
     (same_io tr got \<and> dict_eq (tr_files_written got) (tr_files_written tr)
      \<and> list_all2 (\<lambda>e a. event_eq a e) (obs_events tr) (obs_events got))"

lemma first_diff_None_iff:
  "first_diff te ge = None \<and> length ge = length te \<longleftrightarrow> list_all2 (\<lambda>e a. event_eq a e) te ge"
  by (induction te ge rule: first_diff.induct) auto

lemma first_diff_None_prefix:
  "first_diff te ge = None \<Longrightarrow> j < length te \<Longrightarrow> j < length ge \<Longrightarrow> event_eq (ge ! j) (te ! j)"
proof (induction te ge arbitrary: j rule: first_diff.induct)
  case (1 e te a ge)
  then show ?case by (cases j) (auto split: if_splits)
qed auto

lemma first_diff_Some:
  "first_diff te ge = Some i \<Longrightarrow> i < length te \<and> i < length ge \<and> \<not> event_eq (ge ! i) (te ! i)
     \<and> (\<forall>j < i. event_eq (ge ! j) (te ! j))"
proof (induction te ge arbitrary: i rule: first_diff.induct)
  case (1 e te a ge)
  then show ?case by (auto simp: nth_Cons split: if_splits nat.splits)
qed auto

lemma compare_pair_None_iff: "compare_pair tr got = Inr None \<longleftrightarrow> same_observables tr got"
  using first_diff_None_iff [of "obs_events tr" "obs_events got"]
  by (auto simp: compare_pair_def same_observables_def Let_def bindE_Inr_iff split: option.splits)

lemma compare_pair_rejects: "compare_pair tr got = Inr (Some v) \<Longrightarrow> \<not> pv_ok v"
  by (auto simp: compare_pair_def Let_def bindE_Inr_iff reject_pv_def split: if_splits option.splits)

lemma compare_ok_iff:
  "(\<exists>v. compare trs gots = Inr v \<and> pv_ok v) \<longleftrightarrow> list_all (\<lambda>(tr, got). same_observables tr got) (zip trs gots)"
proof (induction trs gots rule: compare.induct)
  case (1 tr trs got gots)
  show ?case
  proof (cases "compare_pair tr got = Inr None")
    case True
    then have "same_observables tr got" by (simp add: compare_pair_None_iff)
    with True 1 show ?thesis by simp
  next
    case False
    then have "\<not> same_observables tr got" by (simp add: compare_pair_None_iff)
    moreover have "\<not> (\<exists>v. compare (tr # trs) (got # gots) = Inr v \<and> pv_ok v)"
      using False compare_pair_rejects [of tr got] by (auto simp: bindE_Inr_iff split: option.splits)
    ultimately show ?thesis by simp
  qed
qed simp_all

text \<open>
  C32: the program gate accepts exactly equal behaviour.  \<^verbatim>\<open>compare\<close> accepts if and only if every
  pair of a stored and a replayed trace has the same output streams, exit code and files, and
  the same sequence of write and exit events up to address tokens.
\<close>

theorem compare_accepts_iff:
  "(\<exists>v. compare trs gots = Inr v \<and> pv_ok v) \<longleftrightarrow> list_all (\<lambda>(tr, got). same_observables tr got) (zip trs gots)"
  by (rule compare_ok_iff)

text \<open>The reasons of a rejected pair, in the order in which they are tried.\<close>

definition explains :: "trace \<Rightarrow> trace \<Rightarrow> verdict \<Rightarrow> bool" where
  "explains tr got v =
     (if \<not> same_io tr got then pv_reason v = ''io-mismatch''
      else if \<not> dict_eq (tr_files_written got) (tr_files_written tr) then pv_reason v = ''files-mismatch''
      else
        (\<exists>i. pv_reason v = ''event-divergence''
           \<and> Option.bind (pv_divergence v) (\<lambda>d. map_of d ''first_diverging_event_index'') = Some (JInt (int i))
           \<and> i < length (obs_events tr) \<and> i < length (obs_events got)
           \<and> \<not> event_eq (obs_events got ! i) (obs_events tr ! i)
           \<and> (\<forall>j < i. event_eq (obs_events got ! j) (obs_events tr ! j)))
        \<or> (pv_reason v = ''event-length'' \<and> length (obs_events got) \<noteq> length (obs_events tr)
           \<and> (\<forall>j < length (obs_events tr). j < length (obs_events got) \<longrightarrow>
                event_eq (obs_events got ! j) (obs_events tr ! j))))"

lemma compare_pair_explains: "compare_pair tr got = Inr (Some v) \<Longrightarrow> explains tr got v"
  using first_diff_None_prefix [of "obs_events tr" "obs_events got"]
  by (auto simp: compare_pair_def explains_def Let_def bindE_Inr_iff reject_pv_def
      dest: first_diff_Some split: if_splits option.splits)

text \<open>
  A rejection names the first divergence.  When \<^verbatim>\<open>compare\<close> rejects, some pair differs, all
  pairs before it agree, and the reason is the first channel that differs on it: streams and exit
  code, then files, then the first differing event (whose index is reported), then the length.
\<close>

lemma compare_first_divergence:
  assumes "compare trs gots = Inr v" and "\<not> pv_ok v"
  shows "\<exists>i < min (length trs) (length gots). (\<forall>j < i. same_observables (trs ! j) (gots ! j))
     \<and> \<not> same_observables (trs ! i) (gots ! i) \<and> explains (trs ! i) (gots ! i) v"
  using assms
proof (induction trs gots rule: compare.induct)
  case (1 tr trs got gots)
  from 1(2) obtain d where d: "compare_pair tr got = Inr d"
    "(case d of Some v \<Rightarrow> Inr v | None \<Rightarrow> compare trs gots) = Inr v"
    by (auto simp: bindE_Inr_iff)
  show ?case
  proof (cases d)
    case None
    with d have "same_observables tr got" "compare trs gots = Inr v" by (simp_all flip: compare_pair_None_iff)
    with 1(1) 1(3) obtain i where i: "i < min (length trs) (length gots)"
      "\<forall>j < i. same_observables (trs ! j) (gots ! j)" "\<not> same_observables (trs ! i) (gots ! i)"
      "explains (trs ! i) (gots ! i) v" by blast
    have "same_observables ((tr # trs) ! j) ((got # gots) ! j)" if "j < Suc i" for j
      using that i(2) \<open>same_observables tr got\<close> by (cases j) auto
    with i show ?thesis by (intro exI [of _ "Suc i"]) auto
  next
    case (Some v')
    with d have v: "compare_pair tr got = Inr (Some v)" by simp
    then have "\<not> same_observables tr got" by (simp flip: compare_pair_None_iff)
    with compare_pair_explains [OF v] show ?thesis by (intro exI [of _ 0]) auto
  qed
qed auto

section \<open>Slices\<close>

lemma last6: "length (last6 xs) \<le> 6" "set (last6 xs) \<subseteq> set xs" "xs \<noteq> [] \<Longrightarrow> last6 xs \<noteq> [] \<and> last (last6 xs) = last xs"
proof -
  show "length (last6 xs) \<le> 6" "set (last6 xs) \<subseteq> set xs"
    by (auto simp: last6_def dest: in_set_dropD)
  assume "xs \<noteq> []"
  then have "length xs - 6 < length xs" by (cases xs) simp_all
  then show "last6 xs \<noteq> [] \<and> last (last6 xs) = last xs" by (simp add: last6_def last_drop)
qed

lemma opener_step_set:
  assumes "set (fst s) \<subseteq> A" "set_option (snd s) \<subseteq> A" "e \<in> A"
  shows "set (fst (opener_step l s e)) \<subseteq> A \<and> set_option (snd (opener_step l s e)) \<subseteq> A"
  using assms by (auto simp: opener_step_def split: option.splits)

lemma openers_subset: "set (fst (foldl (opener_step l) ([], None) evs)) \<subseteq> set evs"
proof -
  have "set (fst (foldl (opener_step l) s evs)) \<subseteq> A"
    if "set (fst s) \<subseteq> A" "set_option (snd s) \<subseteq> A" "set evs \<subseteq> A" for s evs A
    using that
  proof (induction evs arbitrary: s)
    case (Cons e evs)
    then show ?case using opener_step_set [of s A e l] by simp
  qed simp
  from this [of "([], None)" "set evs" evs] show ?thesis by simp
qed

lemma chain_Some:
  assumes "chain evs literal fd = Some sl"
  shows "sl \<noteq> []" and "length sl \<le> 6" and "set sl \<subseteq> set evs"
proof -
  let ?w = "filter (\<lambda>e. ev_sc e \<in> {''write'', ''writev''} \<and> ev_args e \<noteq> [] \<and> hd (ev_args e) = fd) evs"
  define ch where "ch = fst (foldl (opener_step literal) ([], None) evs) @ ?w"
  have ch: "ch = fst (foldl (opener_step literal) ([], None) evs) @ ?w" "ch \<noteq> []" "sl = last6 ch"
    using assms unfolding chain_def Let_def ch_def [symmetric] by (simp_all add: ch_def split: if_splits)
  show "sl \<noteq> []" using last6(3) [OF ch(2)] ch(3) by simp
  show "length sl \<le> 6" using last6(1) [of ch] ch(3) by simp
  have "set ch \<subseteq> set evs" using openers_subset [of literal evs] ch(1) by auto
  then show "set sl \<subseteq> set evs" using last6(2) [of ch] ch(3) by blast
qed

text \<open>
  A dependency slice is short and ends at its focus.  It has one to six events, all of the
  stored trace up to the diverging event, and when that event is a write it is the last of them.
\<close>

lemma dep_slice_bounded:
  assumes "dep_slice t i = Some sl"
  shows "sl \<noteq> [] \<and> length sl \<le> 6 \<and> set sl \<subseteq> set (take (Suc i) (tr_events t))
     \<and> (ev_sc (tr_events t ! i) \<in> {''write'', ''writev''} \<longrightarrow> last sl = tr_events t ! i)"
proof -
  let ?evs = "tr_events t"
  from assms obtain fd as where i: "i < length ?evs" and fd: "ev_args (?evs ! i) = fd # as"
    and ch: "chain (take (Suc i) ?evs) (literal_of (fd_table ?evs) fd) fd = Some sl"
    by (auto simp: dep_slice_def Let_def split: if_splits list.splits)
  have "last sl = ?evs ! i" if w: "ev_sc (?evs ! i) \<in> {''write'', ''writev''}"
  proof -
    let ?P = "\<lambda>e. ev_sc e \<in> {''write'', ''writev''} \<and> ev_args e \<noteq> [] \<and> hd (ev_args e) = fd"
    have "filter ?P (take (Suc i) ?evs) = filter ?P (take i ?evs) @ [?evs ! i]"
      using i w fd by (simp add: take_Suc_conv_app_nth)
    then show ?thesis
      using ch unfolding chain_def Let_def by (auto simp: last6(3))
  qed
  with chain_Some [OF ch] show ?thesis by blast
qed

section \<open>Sample traces\<close>

definition sample_trace :: "str \<Rightarrow> event list \<Rightarrow> trace" where
  "sample_trace out evs =
     \<lparr>tr_argv = [''prog'', ''x''], tr_stdin_hex = [], tr_stdout = out, tr_stderr = [], tr_exit_code = 0,
      tr_files_written = [], tr_events = evs\<rparr>"

definition sample_write :: "str \<Rightarrow> str \<Rightarrow> event" where
  "sample_write fd n = mk_event ''enter'' ''write'' [fd, ''ADDR_0'', n]"

lemma sync_write_intent: "write_intent ''openat'' [''0xffffff9c'', ''out'', ''0x101041'']"
  by (simp add: write_intent_def OPEN_FLAGS_def py_index_def Let_def int_base16_def strip_space_def ascii_space_def
      byte_val_def hex_val_def wants_write_def)

lemma plain_token: "abspath_len s = None \<Longrightarrow> CHR ''/'' \<notin> set s \<Longrightarrow> sub_paths m s = (m, s)"
proof (induction s)
  case (Cons c s)
  have "abspath_len s = None" using Cons.prems by (cases s) (auto simp: abspath_len_def segments.simps)
  with Cons show ?case by (simp add: sub_paths.simps [of m "c # s"])
qed (simp add: sub_paths.simps)

lemma no_slash_token: "CHR ''/'' \<notin> set s \<Longrightarrow> sub_paths m s = (m, s)"
  by (rule plain_token) (cases s; auto simp: abspath_len_def segments.simps)

text \<open>
  The slicer misses synchronous opens.  \<^verbatim>\<open>_fd_table\<close> walks canonical events, where a flag word of
  six or more hex digits (\<^verbatim>\<open>O_WRONLY|O_CREAT|O_SYNC\<close>) has become an address token, so the open
  counts as read-only there although \<^verbatim>\<open>canonicalize\<close> itself numbered its descriptor.
\<close>

lemma fd_table_misses_sync_open:
  "let raw = [mk_event ''enter'' ''openat'' [''0xffffff9c'', ''out'', ''0x101041''],
              (mk_event ''exit'' ''openat'' [''0xffffff9c'', ''out'', ''0x101041''])\<lparr>ev_result := Some (JStr ''0x3'')\<rparr>,
              mk_event ''enter'' ''write'' [''0x3'', ''0x55554444'', ''0x2'']];
       canonical = snd (canon_events canon_init raw)
   in fd_table raw = [(''0x3'', ''FD_0'')] \<and> fd_table canonical = []
      \<and> map ev_args canonical = [[''ADDR_0'', ''out'', ''ADDR_1''], [''ADDR_0'', ''out'', ''ADDR_1''],
                                  [''FD_0'', ''ADDR_2'', ''0x2'']]"
proof -
  define raw where "raw = [mk_event ''enter'' ''openat'' [''0xffffff9c'', ''out'', ''0x101041''],
              (mk_event ''exit'' ''openat'' [''0xffffff9c'', ''out'', ''0x101041''])\<lparr>ev_result := Some (JStr ''0x3'')\<rparr>,
              mk_event ''enter'' ''write'' [''0x3'', ''0x55554444'', ''0x2'']]"
  define canonical where "canonical = [mk_event ''enter'' ''openat'' [''ADDR_0'', ''out'', ''ADDR_1''],
              (mk_event ''exit'' ''openat'' [''ADDR_0'', ''out'', ''ADDR_1''])\<lparr>ev_result := Some (JStr ''0x3'')\<rparr>,
              mk_event ''enter'' ''write'' [''FD_0'', ''ADDR_2'', ''0x2'']]"
  have numbers: "dec 0 = ''0''" "dec 1 = ''1''" "dec 2 = ''2''" by code_simp+
  have addr: "is_addr ''0xffffff9c''" "is_addr ''0x101041''" "is_addr ''0x55554444''"
    "\<not> is_addr ''out''" "\<not> is_addr ''0x3''" "\<not> is_addr ''0x2''" "\<not> is_addr ''FD_0''" by code_simp+
  have "fd_table raw = [(''0x3'', ''FD_0'')]"
    by (simp add: raw_def fd_table_def fd_step_def mk_event_def OPEN_FAMILY_def sync_write_intent hex_result_def
        mapper_def setdefault_def numbers Let_def)
  moreover have "snd (canon_events canon_init raw) = canonical"
    by (simp add: raw_def canonical_def canon_init_def canon_event_def track_open_def mk_event_def is_open_def OPEN_FLAGS_def
        sync_write_intent hex_result_def mapper_def setdefault_def numbers carry_fd_def FD_CARRIERS_def canon_token_def
        addr no_slash_token canon_result_def Let_def)
  moreover have "fd_table canonical = []" unfolding canonical_def by code_simp
  ultimately show ?thesis
    unfolding Let_def raw_def [symmetric] by (simp add: canonical_def mk_event_def)
qed

section \<open>The draws\<close>

definition corner_bytes :: "bytes \<Rightarrow> bool" where
  "corner_bytes b =
     (4 \<le> length b \<and> length b \<le> 48 \<and> CHR 0x00 \<in> set b \<and> list_ex (\<lambda>c. 128 \<le> byte_val c) b)"

lemma char_of_zero: "char_of (0 :: nat) = CHR 0x00"
  by (simp add: char_of_def)

lemma yields_byte_body: "yields byte_body corner_bytes"
  unfolding byte_body_def
proof (rule yields_bind [OF yields_randint])
  fix ln :: int assume ln: "4 \<le> ln \<and> ln \<le> 48"
  show "yields (bind (draw_list (nat ln) (randrange 0 256)) (\<lambda>body. bind (sample2 (length body)) (\<lambda>(nul, hi).
          bind (randrange 128 256) (\<lambda>v. ret (byte_list (body[nul := 0, hi := v])))))) corner_bytes"
  proof (rule yields_bind [OF yields_draw_list [OF yields_randrange]])
    fix body :: "int list" assume b: "length body = nat ln \<and> list_all (\<lambda>x. 0 \<le> x \<and> x < 256) body"
    have two: "2 \<le> length body" using b ln by auto
    show "yields (bind (sample2 (length body)) (\<lambda>(nul, hi).
          bind (randrange 128 256) (\<lambda>v. ret (byte_list (body[nul := 0, hi := v]))))) corner_bytes"
    proof (rule yields_bind [OF yields_sample2 [OF two]], clarify)
      fix nul hi assume i: "nul < length body" "hi < length body" "nul \<noteq> hi"
      show "yields (bind (randrange 128 256) (\<lambda>v. ret (byte_list (body[nul := 0, hi := v])))) corner_bytes"
      proof (rule yields_bind [OF yields_randrange], simp, rule yields_ret)
        fix v :: int assume v: "128 \<le> v \<and> v < 256"
        let ?b = "byte_list (body[nul := 0, hi := v])"
        have at: "?b ! nul = CHR 0x00" "?b ! hi = char_of (nat v)" and l: "length ?b = length body"
          using i by (simp_all add: byte_list_def char_of_zero)
        have "?b ! nul \<in> set ?b" "?b ! hi \<in> set ?b" by (rule nth_mem, simp add: l i)+
        moreover have "byte_val (char_of (nat v)) = nat v" by (rule byte_val_char_of) (use v in auto)
        ultimately show "corner_bytes ?b"
          unfolding at using l
          using b ln v unfolding corner_bytes_def list_ex_iff by (intro conjI bexI [of _ "char_of (nat v)"]) auto
      qed
    qed
  qed simp
qed simp

lemma returns_byte_body: "returns byte_body"
  unfolding byte_body_def
proof (rule returns_bind_yields [OF returns_randint yields_randint])
  fix ln :: int assume ln: "4 \<le> ln \<and> ln \<le> 48"
  show "returns (bind (draw_list (nat ln) (randrange 0 256)) (\<lambda>body. bind (sample2 (length body)) (\<lambda>(nul, hi).
          bind (randrange 128 256) (\<lambda>v. ret (byte_list (body[nul := 0, hi := v]))))))"
  proof (rule returns_bind_yields [OF returns_draw_list [OF returns_randrange] yields_draw_list [OF yields_randrange]])
    fix body :: "int list" assume "length body = nat ln \<and> list_all (\<lambda>x. 0 \<le> x \<and> x < 256) body"
    then have "length body < 2 ^ 32" using ln by auto
    then show "returns (bind (sample2 (length body)) (\<lambda>(nul, hi).
          bind (randrange 128 256) (\<lambda>v. ret (byte_list (body[nul := 0, hi := v])))))"
      by (auto intro!: returns_bind returns_sample2 returns_randrange split: prod.split)
  qed simp_all
qed simp_all

lemma CHARSET_nonempty: "CHARSET \<noteq> []"
  by (simp add: CHARSET_def ascii_letters_def)

lemma length_CHARSET: "length CHARSET \<le> 2 ^ 32"
proof -
  have "length (filter P punctuation) \<le> 32" for P
    by (rule order_trans [OF length_filter_le]) (simp add: punctuation_def)
  then show ?thesis by (simp add: CHARSET_def ascii_letters_def digits_def le_trans [of _ 32])
qed

lemma yields_True: "yields m P \<Longrightarrow> yields m (\<lambda>_. True)"
  by (rule yields_mono) simp_all

lemma yields_uniform_input:
  "yields (uniform_input mode) (\<lambda>(argv, stdin). mode = ''stdin-bytes'' \<longrightarrow> argv = [] \<and> corner_bytes stdin)"
  unfolding uniform_input_def
  by (auto intro!: yields_bind [OF yields_byte_body] yields_bind [OF yields_True [OF yields_randint]]
      yields_bind [OF yields_True [OF yields_draw_list [OF yields_choice [OF CHARSET_nonempty]]]])

lemma returns_uniform_input: "returns (uniform_input mode)"
  unfolding uniform_input_def
  by (auto intro!: returns_bind returns_byte_body returns_randint returns_draw_list returns_choice length_CHARSET)


section \<open>Packets\<close>

text \<open>
  \<^verbatim>\<open>records_ok n body\<close>: \<^verbatim>\<open>n\<close> records, each a type, a two-byte length and a payload of that length;
  only the last may declare more than the bytes that are left, by 8 to 32.
\<close>

fun records_ok :: "nat \<Rightarrow> int list \<Rightarrow> bool" where
  "records_ok 0 body = (body = [])"
| "records_ok (Suc m) body =
     (\<exists>ty declared payload rest.
        body = [ty, declared mod 256, declared div 256 mod 256] @ payload @ rest
        \<and> ty \<in> {0x20, 0x30} \<and> length payload \<le> 6 \<and> list_all (\<lambda>x. 0 \<le> x \<and> x < 256) payload
        \<and> (declared = int (length payload)
           \<or> (m = 0 \<and> int (length payload) + 8 \<le> declared \<and> declared \<le> int (length payload) + 32))
        \<and> records_ok m rest)"

definition record_shape :: "bool \<Rightarrow> int list \<Rightarrow> bool" where
  "record_shape is_last r =
     (\<exists>ty declared payload. r = [ty, declared mod 256, declared div 256 mod 256] @ payload
        \<and> ty \<in> {0x20, 0x30} \<and> length payload \<le> 6 \<and> list_all (\<lambda>x. 0 \<le> x \<and> x < 256) payload
        \<and> (declared = int (length payload)
           \<or> (is_last \<and> int (length payload) + 8 \<le> declared \<and> declared \<le> int (length payload) + 32)))"

lemma yields_declared:
  "yields (if is_last
           then bind random53 (\<lambda>x. if below_0_18 x then bind (randint 8 32) (\<lambda>d. ret (ln + d)) else ret ln)
           else ret ln)
     (\<lambda>d. d = ln \<or> (is_last \<and> ln + 8 \<le> d \<and> d \<le> ln + 32))"
  by (auto intro!: yields_ret yields_bind [OF yields_True [OF yields_random53]] yields_bind [OF yields_randint])

lemma yields_pkfmt_record: "yields (pkfmt_record is_last) (record_shape is_last)"
  unfolding pkfmt_record_def
proof (rule yields_bind [OF yields_randint [of 0 6]], simp, rule yields_bind [OF yields_declared])
  fix ln declared :: int
  assume ln: "0 \<le> ln \<and> ln \<le> 6" and d: "declared = ln \<or> (is_last \<and> ln + 8 \<le> declared \<and> declared \<le> ln + 32)"
  show "yields (bind (choice [0x20, 0x30]) (\<lambda>ty. bind (draw_list (nat ln) (randrange 0 256)) (\<lambda>payload.
       ret ([ty, declared mod 256, declared div 256 mod 256] @ payload)))) (record_shape is_last)"
  proof (rule yields_bind [OF yields_choice], simp, rule yields_bind [OF yields_draw_list [OF yields_randrange]],
      simp, rule yields_ret)
    fix ty :: int and payload :: "int list"
    assume "ty \<in> set [0x20, 0x30]" "length payload = nat ln \<and> list_all (\<lambda>x. 0 \<le> x \<and> x < 256) payload"
    with ln d show "record_shape is_last ([ty, declared mod 256, declared div 256 mod 256] @ payload)"
      unfolding record_shape_def by (intro exI [of _ ty] exI [of _ declared] exI [of _ payload]) auto
  qed
qed

lemma yields_pkfmt_records: "yields (pkfmt_records n) (records_ok n)"
proof (induction n)
  case (Suc m)
  show ?case
    unfolding pkfmt_records.simps
  proof (rule yields_bind [OF yields_pkfmt_record], rule yields_bind [OF Suc], rule yields_ret)
    fix r rs assume "record_shape (m = 0) r" "records_ok m rs"
    then show "records_ok (Suc m) (r @ rs)"
      unfolding record_shape_def records_ok.simps by force
  qed
qed (auto intro: yields_ret)

definition packet_ok :: "bytes \<Rightarrow> bool" where
  "packet_ok pkt =
     (\<exists>magic ver n rs. pkt = byte_list ([magic, 0x5A, ver, n] @ rs) \<and> magic \<in> {0xB1, 0x4E}
        \<and> 2 \<le> ver \<and> ver \<le> 5 \<and> 0 \<le> n \<and> n \<le> 2 \<and> records_ok (nat n) rs)"

lemma yields_packet: "yields pkfmt_grammar_packet packet_ok"
  unfolding pkfmt_grammar_packet_def
proof (rule yields_bind [OF yields_True [OF yields_random53]], rule yields_bind [OF yields_choice], simp,
    rule yields_bind [OF yields_randint], simp, rule yields_bind [OF yields_pkfmt_records], rule yields_ret)
  fix x :: nat and ver n :: int and rs :: "int list"
  assume "ver \<in> set [2, 3, 3, 4, 4, 5]" "0 \<le> n \<and> n \<le> 2" "records_ok (nat n) rs"
  then show "packet_ok (byte_list ([if below_0_15 x then 0x4E else 0xB1, 0x5A, ver, n] @ rs))"
    unfolding packet_ok_def
    by (intro exI [of _ "if below_0_15 x then 0x4E else 0xB1"] exI [of _ ver] exI [of _ n] exI [of _ rs]) auto
qed

lemma returns_pkfmt_records: "returns (pkfmt_records n)"
proof (induction n)
  case (Suc m)
  have "returns (pkfmt_record b)" for b
    unfolding pkfmt_record_def
    by (auto intro!: returns_bind returns_randint returns_random53 returns_choice returns_draw_list returns_randrange returns_ret)
  with Suc show ?case by (auto intro!: returns_bind)
qed auto

lemma returns_packet: "returns pkfmt_grammar_packet"
  unfolding pkfmt_grammar_packet_def
  by (auto intro!: returns_bind returns_random53 returns_choice returns_randint returns_pkfmt_records)

text \<open>
  A grammar draw is a packet of the format or one of its intended attacks.  It is the magic
  (or its flipped first byte), a version from 2 to 5, a count of at most 2 and that many
  records; every length is true except that the last record may claim 8 to 32 bytes more
  than the packet still holds.
\<close>

lemma pkfmt_packet_shape:
  assumes "pkfmt_grammar_packet s = Some (r, s')"
  shows "\<exists>pkt. r = Inr pkt \<and> packet_ok pkt"
  using yields_packet assms unfolding yields_def by blast

lemma stream_draws:
  assumes "yields m P" and "returns m" and "fair s"
  shows "\<exists>a s'. m s = Some (Inr a, s') \<and> P a \<and> fair s'"
  using assms unfolding yields_def returns_def by blast

text \<open>
  A byte-domain draw hits the corners.  Every hidden input of a binary-safe seed without a
  grammar has no argument and 4 to 48 bytes of stdin with a NUL and a byte of 0x80 or more.
\<close>

lemma hidden_bytes_corners:
  assumes "hidden_input ''stdin-bytes'' None s = Some (r, s')"
  shows "\<exists>stdin. r = Inr ([], stdin) \<and> corner_bytes stdin"
  using yields_uniform_input [of "''stdin-bytes''"] assms
  unfolding yields_def hidden_input_def by fastforce

section \<open>The hidden suite\<close>

lemma canonicalize_input_key: "canonicalize t = Inr a \<Longrightarrow> input_key a = input_key t"
  by (auto simp: canonicalize_def input_key_def split: list.splits)

lemma record_trace_input_key: "input_key (fst (record_trace emu b argv stdin w)) = (argv, bytes_hex stdin)"
  by (simp add: input_key_def)

lemma canonicalize_record: "\<exists>a. canonicalize (fst (record_trace emu b argv stdin w)) = Inr a"
proof -
  have "tr_argv (fst (record_trace emu b argv stdin w)) = bin_path b # argv" by simp
  then show ?thesis by (simp add: canonicalize_def)
qed

lemma record_stable_total: "\<exists>t w'. record_stable emu b argv stdin w = (Inr t, w')"
proof -
  obtain a where "canonicalize (fst (record_trace emu b argv stdin w)) = Inr a"
    using canonicalize_record [of emu b argv stdin w] by blast
  moreover obtain a2 where "canonicalize (fst (record_trace emu b argv stdin (snd (record_trace emu b argv stdin w)))) = Inr a2"
    using canonicalize_record [of emu b argv stdin "snd (record_trace emu b argv stdin w)"] by blast
  ultimately show ?thesis by (simp add: record_stable_def case_prod_beta)
qed

lemma record_stable_key:
  assumes "record_stable emu b argv stdin w = (Inr (Some t), w')"
  shows "input_key t = (argv, bytes_hex stdin)"
proof -
  from assms have "canonicalize (fst (record_trace emu b argv stdin w)) = Inr t"
    by (auto simp: record_stable_def case_prod_beta bindE_Inr_iff split: if_splits)
  from canonicalize_input_key [OF this] show ?thesis by (simp add: record_trace_input_key)
qed

text \<open>What the loop keeps of the suite it builds, against the inputs \<^verbatim>\<open>old\<close> already known at the start.\<close>

definition suite_ok :: "'w emulator \<Rightarrow> binary \<Rightarrow> (str list \<times> str) set \<Rightarrow> trace list \<Rightarrow> bool" where
  "suite_ok emu b old ts =
     (length ts \<le> HIDDEN_N \<and> distinct (map input_key ts) \<and> set (map input_key ts) \<inter> old = {}
      \<and> (\<forall>t \<in> set ts. tr_exit_code t \<noteq> - 1
           \<and> (\<exists>argv stdin w w'. record_stable emu b argv stdin w = (Inr (Some t), w'))))"

lemma suite_ok_snoc:
  assumes "suite_ok emu b old fresh" and "length fresh < HIDDEN_N"
    and "record_stable emu b argv stdin w = (Inr (Some t), w')" and "tr_exit_code t \<noteq> - 1"
    and "(argv, bytes_hex stdin) \<notin> old" and "(argv, bytes_hex stdin) \<notin> set (map input_key fresh)"
  shows "suite_ok emu b old (fresh @ [t])"
  using assms record_stable_key [OF assms(3)] by (auto simp: suite_ok_def)

lemma hidden_loop_ok:
  assumes "hidden_loop emu b next k known fresh s w = Some (Inr ts, w')"
    and "suite_ok emu b old fresh" and "old \<subseteq> set known" and "set (map input_key fresh) \<subseteq> set known"
  shows "suite_ok emu b old ts"
  using assms
proof (induction k arbitrary: known fresh s w)
  case (Suc k)
  from Suc.prems(1) obtain argv stdin s1 where d: "next s = Some (Inr (argv, stdin), s1)"
    by (auto split: option.splits prod.splits sum.splits)
  show ?case
  proof (cases "length fresh = HIDDEN_N")
    case True
    with Suc.prems d show ?thesis by auto
  next
    case False
    with Suc.prems(2) have less: "length fresh < HIDDEN_N" by (simp add: suite_ok_def)
    show ?thesis
    proof (cases "(argv, bytes_hex stdin) \<in> set known")
      case True
      with Suc.prems d False show ?thesis using Suc.IH [of known fresh s1 w] by simp
    next
      case new: False
      obtain t w1 where r: "record_stable emu b argv stdin w = (Inr t, w1)"
        using record_stable_total [of emu b argv stdin w] by blast
      let ?known = "(argv, bytes_hex stdin) # known"
      let ?fresh = "if usable t then fresh @ [the t] else fresh"
      have loop: "hidden_loop emu b next k ?known ?fresh s1 w1 = Some (Inr ts, w')"
        using Suc.prems(1) d False new r by simp
      have "suite_ok emu b old ?fresh \<and> set (map input_key ?fresh) \<subseteq> set ?known"
      proof (cases "usable t")
        case True
        then obtain x where x: "t = Some x" "tr_exit_code x \<noteq> - 1"
          by (auto simp: usable_def split: option.splits)
        with r have rx: "record_stable emu b argv stdin w = (Inr (Some x), w1)" by simp
        have "suite_ok emu b old (fresh @ [x])"
          using suite_ok_snoc [OF Suc.prems(2) less rx x(2)] new Suc.prems(3,4) by blast
        with x True record_stable_key [OF rx] Suc.prems(4) show ?thesis by auto
      next
        case False
        with Suc.prems(2,4) show ?thesis by auto
      qed
      then show ?thesis using Suc.IH [OF loop] Suc.prems(3) by auto
    qed
  qed
qed (auto split: option.splits prod.splits sum.splits)

lemma hidden_loop_returns:
  assumes "returns next" and "yields next P" and "fair s"
  shows "\<exists>ts w'. hidden_loop emu b next k known fresh s w = Some (Inr ts, w')"
  using assms(3)
proof (induction k arbitrary: known fresh s w)
  case 0
  from stream_draws [OF assms(2,1) 0] show ?case by auto
next
  case (Suc k)
  from stream_draws [OF assms(2,1) Suc.prems] obtain argv stdin s1 where
    d: "next s = Some (Inr (argv, stdin), s1)" "fair s1" by auto
  obtain t w1 where r: "record_stable emu b argv stdin w = (Inr t, w1)"
    using record_stable_total [of emu b argv stdin w] by blast
  from d r Suc.IH [OF d(2)] show ?case by simp
qed

lemma yields_hidden_input:
  assumes "yields (uniform_input mode) (\<lambda>_. True)" and "\<And>g. grammar = Some g \<Longrightarrow> yields g (\<lambda>_. True)"
  shows "yields (hidden_input mode grammar) (\<lambda>_. True)"
  using assms unfolding hidden_input_def
  by (auto intro!: yields_bind [OF yields_True [OF yields_random53]] yields_ret
      intro: yields_bind split: option.splits)

lemma returns_hidden_input:
  assumes "\<And>g. grammar = Some g \<Longrightarrow> returns g"
  shows "returns (hidden_input mode grammar)"
  using assms unfolding hidden_input_def
  by (auto intro!: returns_bind returns_random53 returns_uniform_input returns_ret split: option.splits)

lemma hidden_suite_suite_ok:
  "hidden_suite emu random b seed_name rec hidden_seed w = Some (Inr ts, w') \<Longrightarrow>
     suite_ok emu b (set (map input_key rec)) ts"
  unfolding hidden_suite_def by (erule hidden_loop_ok) (simp_all add: suite_ok_def)

text \<open>
  C33: the hidden suite is usable evidence.  Whatever the emulator does, a returned suite has at most
  8 traces, their inputs are pairwise different and none repeats a recorded input, no trace is
  a crash or timeout, and each is the canonical trace of a case that was recorded twice with
  equal canonical traces.
\<close>

theorem hidden_suite_ok:
  assumes "hidden_suite emu random b seed_name rec hidden_seed w = Some (Inr ts, w')"
  shows "length ts \<le> 8 \<and> distinct (map input_key ts)
     \<and> set (map input_key ts) \<inter> set (map input_key rec) = {}
     \<and> (\<forall>t \<in> set ts. tr_exit_code t \<noteq> - 1
          \<and> (\<exists>argv stdin v v'. record_stable emu b argv stdin v = (Inr (Some t), v')
               \<and> input_key t = (argv, bytes_hex stdin)))"
  using hidden_suite_suite_ok [OF assms] unfolding suite_ok_def HIDDEN_N_def using record_stable_key by fastforce

lemma hidden_suite_comes_back:
  assumes "fair (random hidden_seed)"
  shows "\<exists>ts w'. hidden_suite emu random b seed_name rec hidden_seed w = Some (Inr ts, w')"
proof -
  let ?g = "if seed_name = [] then None else SEED_GRAMMARS seed_name"
  have g: "yields g (\<lambda>_. True)" "returns g" if "?g = Some g" for g
    using that yields_True [OF yields_packet] returns_packet by (auto simp: SEED_GRAMMARS_def split: if_splits)
  show ?thesis
    unfolding hidden_suite_def
  proof (rule hidden_loop_returns [OF _ _ assms])
    show "returns (hidden_input (get_default INPUT_MODE seed_name ''argv'') ?g)"
      using g(2) by (rule returns_hidden_input)
    show "yields (hidden_input (get_default INPUT_MODE seed_name ''argv'') ?g) (\<lambda>_. True)"
      by (rule yields_hidden_input [OF yields_True [OF yields_uniform_input] g(1)])
  qed
qed

definition quiet_emulator :: "unit emulator" where
  "quiet_emulator bytes argv stdin timeout w =
     (\<lparr>emu_syscalls = [(''exit_group'', ''enter'', [RawInt 0])], emu_exn = None, emu_exit_code = 0,
       emu_stdout = stdin, emu_stderr = [], emu_files = []\<rparr>, w)"

lemma quiet_suite: "\<exists>ts w'. hidden_suite quiet_emulator (\<lambda>_. ramp) \<lparr>bin_path = ''pkfmt'', bin_bytes = []\<rparr> ''pkfmt'' [] ''s'' ()
     = Some (Inr ts, w')"
  by (rule hidden_suite_comes_back) (rule fair_ramp)

theorem hidden_suite_ok_witness:
  "\<exists>ts w'. hidden_suite quiet_emulator (\<lambda>_. ramp) \<lparr>bin_path = ''pkfmt'', bin_bytes = []\<rparr> ''pkfmt'' [] ''s'' ()
       = Some (Inr ts, w') \<and> length ts \<le> 8 \<and> distinct (map input_key ts)"
proof -
  from quiet_suite obtain ts w' where s: "hidden_suite quiet_emulator (\<lambda>_. ramp) \<lparr>bin_path = ''pkfmt'', bin_bytes = []\<rparr>
     ''pkfmt'' [] ''s'' () = Some (Inr ts, w')" by blast
  with hidden_suite_ok [OF s] show ?thesis by blast
qed

end
