(* ===== verification/Program_Replay.thy ===== *)
theory Program_Replay
  imports Checks Param_Spec Validate_Program_Props
begin

text \<open>
  \<^verbatim>\<open>src/src/reschema/checks/program_replay.py\<close>: the checker of a whole program.  The nominated cases
  are parsed and double-recorded on the host, the hidden suite is drawn from the context's seed,
  one contained job replays the model on the inputs, and the host compares.

  A trace that the job prints is read into the same \<^verbatim>\<open>trace\<close> record as a recorded one: of an event the
  keys \<^verbatim>\<open>compare\<close> knows become fields and the others stay in \<^verbatim>\<open>ev_extra\<close> in their order.
\<close>

section \<open>Limits\<close>

definition MAX_CASES :: nat where "MAX_CASES = 16"
definition MAX_ARGS :: nat where "MAX_ARGS = 16"
definition MAX_ARG :: nat where "MAX_ARG = 256"
definition MAX_STDIN :: nat where "MAX_STDIN = 4096"

definition CFLAGS :: "str list" where
  "CFLAGS = [''-O1'', ''-static'', ''-fno-pie'', ''-no-pie'', ''-g0'']"

text \<open>The script of the job; a backquote stands for the double quote.\<close>

definition unquote :: "str \<Rightarrow> str" where
  "unquote = map (\<lambda>c. if c = CHR 0x60 then CHR 0x22 else c)"

definition REPLAY :: str where
  "REPLAY = unquote (concat (map (\<lambda>l. l @ [CHR 0x0A])
     ['''',
      ''import json, subprocess'',
      ''from canonical import canonicalize'',
      ''from recorder import record'',
      ''job = json.load(open(`job.json`))'',
      ''cc = subprocess.run([`gcc`, *job[`flags`], `/work/model.c`, `-o`, `/work/model`],'',
      ''                    capture_output=True, text=True)'',
      ''if cc.returncode:'',
      ''    print(json.dumps({`compile`: cc.stderr}))'',
      ''else:'',
      ''    for c in job[`cases`]:'',
      ''        t = record(`/work/model`, c[`argv`], bytes.fromhex(c[`stdin_hex`]))'',
      ''        print(json.dumps(canonicalize(t)), flush=True)'']))"

section \<open>Feedback that fits\<close>

definition cap_str :: "nat \<Rightarrow> str \<Rightarrow> str" where
  "cap_str n v = (if str_len v \<le> n then v else str_take n v @ ''...[+'' @ decn (str_len v - n) @ '' chars]'')"

primrec cap :: "nat \<Rightarrow> json \<Rightarrow> json" where
  "cap n JNull = JNull"
| "cap n (JBool b) = JBool b"
| "cap n (JInt i) = JInt i"
| "cap n (JFloat r) = JFloat r"
| "cap n (JStr v) = JStr (cap_str n v)"
| "cap n (JList vs) =
     JList (take 16 (map (cap n) vs)
            @ (if length vs > 16 then [JStr (''...[+'' @ decn (length vs - 16) @ '']'')] else []))"
| "cap n (JObj kvs) =
     (let out = fold (\<lambda>(k, x) d. AList.update (str_take n k) x d) (take 16 (map (map_prod id (cap n)) kvs)) []
      in JObj (if length kvs > 16
               then AList.update ''...'' (JStr (''+'' @ decn (length kvs - 16) @ '' entries'')) out
               else out))"

definition capped :: "'w platform \<Rightarrow> json dict \<Rightarrow> json dict result" where
  "capped P feedback =
     (case find (\<lambda>n. length (dumps_indent True (cap n (JObj feedback))) + 1024 < pf_feedback_limit P)
             [4096, 1024, 256, 64] of
        Some n \<Rightarrow> Inr (json_dict (cap n (JObj feedback)))
      | None \<Rightarrow> Inl (AssertionError ''feedback does not fit FEEDBACK_LIMIT at the floor cap''))"

definition reject_pr :: "'w platform \<Rightarrow> str \<Rightarrow> str \<Rightarrow> json dict \<Rightarrow> check_verdict result" where
  "reject_pr P reason stage kw =
     bindE (capped P ([(''accepted'', JBool False), (''reason'', JStr reason), (''stage'', JStr stage)] @ kw))
       (\<lambda>fb. Inr \<lparr>cv_status = REJECTED, cv_feedback = fb, cv_facts = []\<rparr>)"

section \<open>\<^verbatim>\<open>_parse_cases\<close>\<close>

type_synonym nominated = "str list \<times> str"

definition bad_case :: str where
  "bad_case = unquote (''each case is {`argv`: [str], `stdin_hex`: str} with at most '' @ decn MAX_ARGS @ '' args of ''
     @ decn MAX_ARG @ '' chars and '' @ decn MAX_STDIN @ '' stdin bytes'')"

definition arg_ok :: "json \<Rightarrow> bool" where
  "arg_ok a = (case a of JStr s \<Rightarrow> str_len s \<le> MAX_ARG \<and> CHR 0x00 \<notin> set s | _ \<Rightarrow> False)"

definition parse_case :: "(nat \<Rightarrow> bool) \<Rightarrow> json \<Rightarrow> str + nominated" where
  "parse_case U c =
     (case c of
        JObj d \<Rightarrow>
          if set (map fst d) = {''argv'', ''stdin_hex''} then
            (case (map_of d ''argv'', map_of d ''stdin_hex'') of
               (Some (JList as), Some (JStr h)) \<Rightarrow>
                 if length as > MAX_ARGS \<or> \<not> list_all arg_ok as \<or> str_len h > 2 * MAX_STDIN then Inl bad_case
                 else if fromhex h = None then Inl (''stdin_hex is not hex: '' @ repr_str U (str_take 64 h))
                 else Inr (map as_str as, h)
             | _ \<Rightarrow> Inl bad_case)
          else Inl bad_case
      | _ \<Rightarrow> Inl bad_case)"

text \<open>A dictionary keyed by the whole case: a repeated one keeps its first position.\<close>

fun parse_all :: "(nat \<Rightarrow> bool) \<Rightarrow> nominated list \<Rightarrow> json list \<Rightarrow> str + nominated list" where
  "parse_all U out [] = Inr out"
| "parse_all U out (c # cs) =
     (case parse_case U c of
        Inl why \<Rightarrow> Inl why
      | Inr x \<Rightarrow> parse_all U (if x \<in> set out then out else out @ [x]) cs)"

definition parse_cases :: "'w platform \<Rightarrow> bytes \<Rightarrow> str + nominated list" where
  "parse_cases P raw =
     (case pf_loads P raw of
        Inl e \<Rightarrow> Inl ''cases.json is not JSON''
      | Inr (JList cs) \<Rightarrow>
          if length cs > MAX_CASES
          then Inl (''cases.json must be a list of at most '' @ decn MAX_CASES @ '' cases'')
          else parse_all (pf_printable P) [] cs
      | Inr _ \<Rightarrow> Inl (''cases.json must be a list of at most '' @ decn MAX_CASES @ '' cases''))"

section \<open>The job's lines\<close>

definition hex_ok :: "json option \<Rightarrow> bool" where
  "hex_ok v = (case v of Some (JStr s) \<Rightarrow> fromhex s \<noteq> None | _ \<Rightarrow> False)"

definition event_ok :: "json \<Rightarrow> bool" where
  "event_ok e =
     (case e of
        JObj d \<Rightarrow>
          (case (map_of d ''sc'', map_of d ''phase'', map_of d ''args'') of
             (Some (JStr _), Some (JStr _), Some (JList as)) \<Rightarrow> list_all is_str as
           | _ \<Rightarrow> False)
      | _ \<Rightarrow> False)"

definition trace_ok :: "json \<Rightarrow> bool" where
  "trace_ok t =
     (case t of
        JObj d \<Rightarrow>
          hex_ok (map_of d ''stdout'') \<and> hex_ok (map_of d ''stderr'')
          \<and> (case (map_of d ''exit_code'', map_of d ''files_written'', map_of d ''events'') of
               (Some (JInt _), Some (JObj fs), Some (JList es)) \<Rightarrow>
                 list_all (\<lambda>(n, v). is_str v) fs \<and> list_all event_ok es
             | _ \<Rightarrow> False)
      | _ \<Rightarrow> False)"

fun json_items :: "json \<Rightarrow> json list" where
  "json_items (JList xs) = xs"
| "json_items _ = []"

definition field :: "json dict \<Rightarrow> string \<Rightarrow> json" where
  "field d k = get_default d k JNull"

definition read_event :: "json \<Rightarrow> event" where
  "read_event e =
     (let d = json_dict e in
      \<lparr>ev_sc = as_str (field d ''sc''), ev_phase = as_str (field d ''phase''),
       ev_args = map as_str (json_items (field d ''args'')), ev_result = map_of d ''result'',
       ev_extra = filter (\<lambda>(k, v). k \<notin> {''sc'', ''phase'', ''args'', ''result''}) d\<rparr>)"

definition read_trace :: "json \<Rightarrow> trace" where
  "read_trace t =
     (let d = json_dict t in
      \<lparr>tr_argv = map as_str (json_items (field d ''argv'')), tr_stdin_hex = as_str (field d ''stdin_hex''),
       tr_stdout = as_str (field d ''stdout''), tr_stderr = as_str (field d ''stderr''),
       tr_exit_code = as_int (field d ''exit_code''),
       tr_files_written = map (map_prod id as_str) (json_dict (field d ''files_written'')),
       tr_events = map read_event (json_items (field d ''events''))\<rparr>)"

text \<open>\<^verbatim>\<open>str.splitlines\<close>: the length of the line boundary at the head of a text, 0 if there is none.\<close>

definition break_len :: "str \<Rightarrow> nat" where
  "break_len s =
     (case map byte_val (take 3 s) of
        a # b # c # _ \<Rightarrow>
          if a = 13 \<and> b = 10 then 2
          else if a \<in> {10, 11, 12, 13, 28, 29, 30} then 1
          else if a = 194 \<and> b = 133 then 2
          else if a = 226 \<and> b = 128 \<and> (c = 168 \<or> c = 169) then 3
          else 0
      | [a, b] \<Rightarrow>
          if a = 13 \<and> b = 10 then 2
          else if a \<in> {10, 11, 12, 13, 28, 29, 30} then 1
          else if a = 194 \<and> b = 133 then 2
          else 0
      | [a] \<Rightarrow> if a \<in> {10, 11, 12, 13, 28, 29, 30} then 1 else 0
      | [] \<Rightarrow> 0)"

function split_lines :: "str \<Rightarrow> str \<Rightarrow> str list" where
  "split_lines acc [] = (if acc = [] then [] else [rev acc])"
| "split_lines acc (c # s) =
     (if break_len (c # s) = 0 then split_lines (c # acc) s
      else rev acc # split_lines [] (drop (break_len (c # s) - 1) s))"
  by pat_completeness auto
termination by (relation "measure (length \<circ> snd)") auto

definition splitlines :: "str \<Rightarrow> str list" where
  "splitlines = split_lines []"

text \<open>\<^verbatim>\<open>None\<close>: the output is not a sequence of JSON lines.\<close>

definition job_lines :: "'w platform \<Rightarrow> bytes \<Rightarrow> json list option" where
  "job_lines P stdout =
     (case bindE (decode stdout) (mapE (pf_loads_str P) \<circ> splitlines) of
        Inl e \<Rightarrow> None
      | Inr ls \<Rightarrow> Some ls)"

section \<open>\<^verbatim>\<open>ProgramReplay.check\<close>\<close>

text \<open>The recorded cases, or the arguments of the first flaky one.\<close>

fun record_cases :: "'w emulator \<Rightarrow> binary \<Rightarrow> nominated list \<Rightarrow> 'w \<Rightarrow> (str list + trace list) result \<times> 'w" where
  "record_cases emu b [] w = (Inr (Inr []), w)"
| "record_cases emu b ((argv, h) # cs) w =
     (case fromhex h of
        None \<Rightarrow> (Inl (ValueError ''non-hexadecimal number found in fromhex() arg''), w)
      | Some stdin \<Rightarrow>
          (case record_stable emu b argv stdin w of
             (Inl e, w1) \<Rightarrow> (Inl e, w1)
           | (Inr None, w1) \<Rightarrow> (Inr (Inl argv), w1)
           | (Inr (Some t), w1) \<Rightarrow>
               (case record_cases emu b cs w1 of
                  (Inl e, w2) \<Rightarrow> (Inl e, w2)
                | (Inr (Inl a), w2) \<Rightarrow> (Inr (Inl a), w2)
                | (Inr (Inr ts), w2) \<Rightarrow> (Inr (Inr (t # ts)), w2))))"

definition replayed_input :: "trace \<Rightarrow> json" where
  "replayed_input t =
     JObj [(''argv'', JList (map JStr (drop 1 (tr_argv t)))), (''stdin_hex'', JStr (tr_stdin_hex t))]"

definition replay_spec :: "'w platform \<Rightarrow> str \<Rightarrow> str \<Rightarrow> json list \<Rightarrow> job_spec" where
  "replay_spec P img source replayed =
     \<lparr>js_image = img, js_argv = [''python'', ''replay.py''],
      js_files =
        [(''model.c'', source), (''replay.py'', REPLAY),
         (''recorder.py'', pf_source P ''exec/recorder.py''),
         (''canonical.py'', pf_source P ''exec/canonical.py''),
         (''job.json'', dumps (JObj [(''flags'', JList (map JStr CFLAGS)), (''cases'', JList replayed)]))],
      js_stdin = [], js_timeout = 60 + 5 * length replayed,
      js_memory_mb = 256, js_pids = 64, js_scratch_mb = 64\<rparr>"

definition pr_fact :: "'w platform \<Rightarrow> str \<Rightarrow> json" where
  "pr_fact P source =
     (let fact = JObj [(''fn'', JStr ''__main__''), (''c_source'', JStr source)]
      in if length (dumps_indent True (JList [fact])) > pf_facts_limit P
         then JObj [(''fn'', JStr ''__main__''), (''c_source_sha256'', JStr (pf_sha256 P source))]
         else fact)"

definition divergence_item :: "verdict \<Rightarrow> json dict" where
  "divergence_item v = [(''divergence'', (case pv_divergence v of Some d \<Rightarrow> JObj d | None \<Rightarrow> JNull))]"

definition is_compile :: "json \<Rightarrow> json option" where
  "is_compile j =
     (case j of JObj d \<Rightarrow> if set (map fst d) = {''compile''} then map_of d ''compile'' else None | _ \<Rightarrow> None)"

text \<open>The verdict on the job's result, once the ground truth is known.\<close>

definition judge_traces :: "'w platform \<Rightarrow> str \<Rightarrow> trace list \<Rightarrow> trace list \<Rightarrow> json list \<Rightarrow> check_verdict result" where
  "judge_traces P source rec hidden lines =
     (let gots = map read_trace lines in
      bindE (compare rec (take (length rec) gots)) (\<lambda>v.
        if \<not> pv_ok v then reject_pr P (pv_reason v) ''recorded'' (divergence_item v)
        else if length hidden < HIDDEN_N then
          reject_pr P ''hidden-starvation'' ''hidden''
            [(''detail'', JStr (decn (length hidden) @ ''/'' @ decn HIDDEN_N @ '' usable hidden inputs''))]
        else
          bindE (compare hidden (drop (length rec) gots)) (\<lambda>v2.
            if \<not> pv_ok v2 then reject_pr P (pv_reason v2) ''hidden'' (divergence_item v2)
            else
              Inr \<lparr>cv_status = PASSED,
                   cv_feedback = [(''accepted'', JBool True), (''recorded_cases'', JInt (int (length rec))),
                                  (''hidden_cases'', JInt (int HIDDEN_N))],
                   cv_facts = [pr_fact P source]\<rparr>)))"

definition judge_job :: "'w platform \<Rightarrow> str \<Rightarrow> trace list \<Rightarrow> trace list \<Rightarrow> job_result \<Rightarrow> check_verdict result" where
  "judge_job P source rec hidden r =
     (if jr_timed_out r then reject_pr P ''replay-timeout'' ''replay'' []
      else if jr_truncated r then
        reject_pr P ''replay-output'' ''replay'' [(''detail'', JStr ''job output over cap'')]
      else
        (let fault = reject_pr P ''replay-fault'' ''replay''
               [(''detail'', JStr (''rc='' @ dec (jr_returncode r) @ '': '' @ pf_decode_replace P (jr_stderr r)))]
         in case job_lines P (jr_stdout r) of
              None \<Rightarrow> fault
            | Some lines \<Rightarrow>
                (case (if jr_returncode r = 0 \<and> lines \<noteq> [] then is_compile (hd lines) else None) of
                   Some err \<Rightarrow>
                     reject_pr P ''compile'' ''compile'' [(''detail'', JStr (py_str (pf_printable P) err))]
                 | None \<Rightarrow>
                     if jr_returncode r \<noteq> 0 \<or> length lines \<noteq> length rec + length hidden
                        \<or> \<not> list_all trace_ok lines
                     then fault
                     else judge_traces P source rec hidden lines)))"

text \<open>\<^verbatim>\<open>json.loads(ctx.private["task.json"])["seed"]\<close>, a name.\<close>

definition task_seed :: "'w platform \<Rightarrow> bytes dict \<Rightarrow> string result" where
  "task_seed P priv =
     bindE (dict_get priv ''task.json'') (\<lambda>raw.
     bindE (pf_loads P raw) (\<lambda>t.
     bindE (item ''seed'' t) (\<lambda>s. (case s of JStr n \<Rightarrow> Inr n | _ \<Rightarrow> Inl (TypeError ''seed'')))))"

definition replay_job ::
    "'w platform \<Rightarrow> 'w check_ctx \<Rightarrow> str \<Rightarrow> trace list \<Rightarrow> trace list \<Rightarrow> 'w \<Rightarrow> check_verdict result \<times> 'w" where
  "replay_job P ctx source rec hidden w =
     (case pf_image_id P w of
        (Inl e, w1) \<Rightarrow> (Inl e, w1)
      | (Inr img, w1) \<Rightarrow>
          (case cx_run_job ctx (replay_spec P img source (map replayed_input (rec @ hidden))) w1 of
             (r, w2) \<Rightarrow> (bindE r (judge_job P source rec hidden), w2)))"

definition replay_cases ::
    "'w emulator \<Rightarrow> (str \<Rightarrow> rng) \<Rightarrow> 'w platform \<Rightarrow> 'w check_ctx \<Rightarrow> str \<Rightarrow> nominated list \<Rightarrow> string \<Rightarrow> bytes \<Rightarrow> 'w
     \<Rightarrow> 'w checked" where
  "replay_cases emu random P ctx source cases seed_name elf w =
     (case pf_tempdir P w of (d, w1) \<Rightarrow>
        (let b = \<lparr>bin_path = d @ ''/binary'', bin_bytes = elf\<rparr> in
         case record_cases emu b cases w1 of
           (Inl e, w2) \<Rightarrow> Some (Inl e, w2)
         | (Inr (Inl argv), w2) \<Rightarrow>
             Some (reject_pr P ''flaky-case'' ''recorded'' [(''argv'', JList (map JStr argv))], w2)
         | (Inr (Inr rec), w2) \<Rightarrow>
             (case cx_draw_seed ctx w2 of (seed, w3) \<Rightarrow>
                (case hidden_suite emu random b seed_name rec (dec seed) w3 of
                   None \<Rightarrow> None
                 | Some (Inl e, w4) \<Rightarrow> Some (Inl e, w4)
                 | Some (Inr hidden, w4) \<Rightarrow> Some (replay_job P ctx source rec hidden w4)))))"

text \<open>The candidate's source and cases, or the reason and text of its rejection.\<close>

definition submission :: "'w platform \<Rightarrow> bytes dict \<Rightarrow> (str \<times> str) + (str \<times> nominated list)" where
  "submission P cand =
     (case candidate_files P cand of
        Inl why \<Rightarrow> Inl (''candidate'', why)
      | Inr files \<Rightarrow>
          (case map_of files ''model.c'' of
             None \<Rightarrow> Inl (''candidate'', ''model.c is missing'')
           | Some raw \<Rightarrow>
               (case decode raw of
                  Inl e \<Rightarrow> Inl (''candidate'', ''model.c is not UTF-8'')
                | Inr source \<Rightarrow>
                    if has_key ''params.json'' files
                    then Inl (''candidate'', ''params.json belongs to function tasks'')
                    else
                      (case parse_cases P (get_default files ''cases.json'' ''[]'') of
                         Inl why \<Rightarrow> Inl (''cases'', why)
                       | Inr cases \<Rightarrow> Inr (source, cases)))))"

definition program_replay ::
    "'w emulator \<Rightarrow> (str \<Rightarrow> rng) \<Rightarrow> 'w platform \<Rightarrow> 'w check_ctx \<Rightarrow> 'w \<Rightarrow> 'w checked" where
  "program_replay emu random P ctx w =
     (case submission P (cx_candidate ctx) of
        Inl (reason, why) \<Rightarrow> Some (reject_pr P reason ''candidate'' [(''detail'', JStr why)], w)
      | Inr (source, cases) \<Rightarrow>
          (case bindE (task_seed P (cx_private ctx)) (\<lambda>s. bindE (dict_get (cx_private ctx) ''binary'') (\<lambda>b. Inr (s, b))) of
             Inl e \<Rightarrow> Some (Inl e, w)
           | Inr (seed_name, elf) \<Rightarrow> replay_cases emu random P ctx source cases seed_name elf w))"

end
