(* ===== verification/Program_Replay_Props.thy ===== *)
theory Program_Replay_Props
  imports Program_Replay
begin

text \<open>
  What a verdict of the program checker means: the contract it shares with the function checker,
  what a pass has shown, what the job is told, that the check comes back, and the bounds of the
  nominated cases and of the feedback.
\<close>

section \<open>Feedback\<close>

lemma str_take_all: "str_len s \<le> n \<Longrightarrow> str_take n s = s"
  by (induction n s rule: str_take.induct) (auto simp: str_len_def split: if_splits nat.splits)

lemma capped_cases:
  assumes "capped P fb = Inr out"
  obtains n where "n \<in> {4096, 1024, 256, 64}" "out = json_dict (cap n (JObj fb))"
    "length (dumps_indent True (cap n (JObj fb))) + 1024 < pf_feedback_limit P"
proof -
  from assms obtain n where n: "find (\<lambda>n. length (dumps_indent True (cap n (JObj fb))) + 1024 < pf_feedback_limit P)
      [4096, 1024, 256, 64] = Some n" and out: "out = json_dict (cap n (JObj fb))"
    by (auto simp: capped_def split: option.splits)
  from n have "n \<in> {4096, 1024, 256, 64}" "length (dumps_indent True (cap n (JObj fb))) + 1024 < pf_feedback_limit P"
    by (auto split: if_splits)
  with that out show thesis by blast
qed

lemma reject_pr_ok:
  assumes "reject_pr P reason stage kw = Inr v" and "kw = [] \<or> (\<exists>k x. kw = [(k, x)] \<and> k \<in> {''detail'', ''argv'', ''divergence''})"
  shows "verdict_ok v"
proof -
  let ?fb = "[(''accepted'', JBool False), (''reason'', JStr reason), (''stage'', JStr stage)] @ kw"
  from assms(1) obtain out where c: "capped P ?fb = Inr out"
    and v: "v = \<lparr>cv_status = REJECTED, cv_feedback = out, cv_facts = []\<rparr>"
    unfolding reject_pr_def bindE_Inr_iff by blast
  from c obtain n where n: "n \<in> {4096, 1024, 256, 64}" and out: "out = json_dict (cap n (JObj ?fb))"
    by (rule capped_cases)
  from n have "64 \<le> n" by auto
  have take: "str_take n k = k" if "length k \<le> 64" for k
    using that \<open>64 \<le> n\<close> str_len_le [of k] by (intro str_take_all) linarith
  have fold: "map_of out ''accepted'' = Some (JBool False)"
    if "kw = [] \<or> (\<exists>x. kw = [(''detail'', x)]) \<or> (\<exists>x. kw = [(''argv'', x)]) \<or> (\<exists>x. kw = [(''divergence'', x)])"
    using that unfolding out by (elim disjE exE) (simp_all add: take del: str_take.simps)
  have "map_of out ''accepted'' = Some (JBool False)"
    using assms(2) by (intro fold) blast
  then show ?thesis by (simp add: v verdict_ok_def accepted_flag_def)
qed

section \<open>The contract of the checker\<close>

lemma judge_traces_ok: "judge_traces P src rec hidden ls = Inr v \<Longrightarrow> verdict_ok v"
  unfolding judge_traces_def Let_def bindE_Inr_iff
  by (auto simp: divergence_item_def bindE_Inr_iff elim!: reject_pr_ok split: if_splits)
    (simp add: verdict_ok_def accepted_flag_def)

lemma judge_job_ok: "judge_job P src rec hidden r = Inr v \<Longrightarrow> verdict_ok v"
  unfolding judge_job_def Let_def
  by (auto elim!: reject_pr_ok judge_traces_ok split: if_splits option.splits)

lemma replay_cases_ok: "replay_cases emu random P ctx src cs sn elf w = Some (Inr v, w') \<Longrightarrow> verdict_ok v"
  unfolding replay_cases_def Let_def replay_job_def
  by (auto simp: bindE_Inr_iff elim!: reject_pr_ok judge_job_ok split: prod.splits sum.splits option.splits)

interpretation pr: gate "program_replay emu random P" for emu :: "'w emulator" and random P
  by unfold_locales
    (auto simp: program_replay_def elim!: reject_pr_ok replay_cases_ok split: prod.splits sum.splits)

text \<open>
  Status, feedback and facts of the program checker agree.  A verdict passes exactly when its
  feedback says \<^verbatim>\<open>accepted: true\<close>, shrunk or not, and a fact is recorded exactly when it passes.
\<close>

lemma program_replay_verdict:
  assumes "program_replay emu random P ctx w = Some (Inr v, w')"
  shows "(cv_status v = PASSED \<longleftrightarrow> accepted_flag v = Some (JBool True)) \<and> (cv_facts v \<noteq> [] \<longleftrightarrow> cv_status v = PASSED)"
  using pr.passes_iff_accepted [OF assms] pr.fact_iff_passed [OF assms] by blast

section \<open>What a pass has shown\<close>

lemma reject_pr_status: "reject_pr P reason stage kw = Inr v \<Longrightarrow> cv_status v = REJECTED"
  by (auto simp: reject_pr_def bindE_Inr_iff)

lemma judge_traces_passed:
  assumes "judge_traces P src rec hidden ls = Inr v" and "cv_status v = PASSED"
    and "length ls = length rec + length hidden"
  shows "HIDDEN_N \<le> length hidden" and "list_all2 (\<lambda>t l. same_observables t (read_trace l)) (rec @ hidden) ls"
    and "cv_facts v = [pr_fact P src]"
proof -
  from assms(1,2) obtain v1 v2 where c: "compare rec (take (length rec) (map read_trace ls)) = Inr v1" "pv_ok v1"
    "compare hidden (drop (length rec) (map read_trace ls)) = Inr v2" "pv_ok v2"
    and n: "\<not> length hidden < HIDDEN_N" and v: "cv_facts v = [pr_fact P src]"
    by (auto simp: judge_traces_def Let_def bindE_Inr_iff dest: reject_pr_status split: if_splits)
  from n show "HIDDEN_N \<le> length hidden" by simp
  have "list_all2 same_observables rec (take (length rec) (map read_trace ls))"
    "list_all2 same_observables hidden (drop (length rec) (map read_trace ls))"
    using c compare_ok_iff [of rec "take (length rec) (map read_trace ls)"]
      compare_ok_iff [of hidden "drop (length rec) (map read_trace ls)"] assms(3)
    by (auto simp: list_all2_iff list_all_iff)
  then have "list_all2 same_observables (rec @ hidden) (map read_trace ls)"
    using list_all2_appendI append_take_drop_id by metis
  then show "list_all2 (\<lambda>t l. same_observables t (read_trace l)) (rec @ hidden) ls"
    by (simp add: list_all2_map2)
  show "cv_facts v = [pr_fact P src]" by (rule v)
qed

lemma judge_job_passed:
  assumes "judge_job P src rec hidden r = Inr v" and "cv_status v = PASSED"
  obtains ls where "\<not> jr_timed_out r" "\<not> jr_truncated r" "jr_returncode r = 0" "job_lines P (jr_stdout r) = Some ls"
    "length ls = length rec + length hidden" "list_all trace_ok ls" "judge_traces P src rec hidden ls = Inr v"
  using assms by (auto simp: judge_job_def Let_def dest: reject_pr_status split: if_splits option.splits)

lemma record_cases_length: "record_cases emu b cs w = (Inr (Inr ts), w') \<Longrightarrow> length ts = length cs"
  by (induction emu b cs w arbitrary: ts w' rule: record_cases.induct)
    (auto split: option.splits prod.splits sum.splits)

text \<open>
  C1: a passed program is a replayed one.  When the checker passes a candidate, every nominated case
  was recorded on the host from the private binary, the hidden suite drawn from the context's
  seed has its full eight traces, one job was run on the inputs alone and returned normally, it
  printed exactly one well-shaped trace per case, and each of them has the observables of the
  original's trace.  The fact is that of the judged source.
\<close>

theorem program_replay_passed:
  assumes "program_replay emu random P ctx w = Some (Inr v, w')" and "cv_status v = PASSED"
  shows "\<exists>src cs sn elf d w1 rec w2 seed w3 hidden w4 img w5 jr ls.
     submission P (cx_candidate ctx) = Inr (src, cs) \<and> task_seed P (cx_private ctx) = Inr sn
     \<and> map_of (cx_private ctx) ''binary'' = Some elf \<and> pf_tempdir P w = (d, w1)
     \<and> record_cases emu \<lparr>bin_path = d @ ''/binary'', bin_bytes = elf\<rparr> cs w1 = (Inr (Inr rec), w2)
     \<and> length rec = length cs
     \<and> cx_draw_seed ctx w2 = (seed, w3)
     \<and> hidden_suite emu random \<lparr>bin_path = d @ ''/binary'', bin_bytes = elf\<rparr> sn rec (dec seed) w3 = Some (Inr hidden, w4)
     \<and> length hidden = HIDDEN_N
     \<and> pf_image_id P w4 = (Inr img, w5)
     \<and> cx_run_job ctx (replay_spec P img src (map replayed_input (rec @ hidden))) w5 = (Inr jr, w')
     \<and> jr_returncode jr = 0 \<and> \<not> jr_timed_out jr \<and> \<not> jr_truncated jr
     \<and> job_lines P (jr_stdout jr) = Some ls
     \<and> list_all2 (\<lambda>t l. trace_ok l \<and> same_observables t (read_trace l)) (rec @ hidden) ls
     \<and> cv_facts v = [pr_fact P src]"
proof -
  from assms obtain src cs sn elf where a: "submission P (cx_candidate ctx) = Inr (src, cs)"
    "task_seed P (cx_private ctx) = Inr sn" "map_of (cx_private ctx) ''binary'' = Some elf"
    and r: "replay_cases emu random P ctx src cs sn elf w = Some (Inr v, w')"
    by (auto simp: program_replay_def bindE_Inr_iff bindE_def dict_get_def dest: reject_pr_status
        split: sum.splits prod.splits option.splits)
  obtain d w1 where d: "pf_tempdir P w = (d, w1)" by fastforce
  let ?b = "\<lparr>bin_path = d @ ''/binary'', bin_bytes = elf\<rparr>"
  from r d assms(2) obtain rec w2 seed w3 hidden w4 where c: "record_cases emu ?b cs w1 = (Inr (Inr rec), w2)"
    "cx_draw_seed ctx w2 = (seed, w3)" "hidden_suite emu random ?b sn rec (dec seed) w3 = Some (Inr hidden, w4)"
    and j: "replay_job P ctx src rec hidden w4 = (Inr v, w')"
    by (auto simp: replay_cases_def Let_def dest: reject_pr_status split: sum.splits prod.splits option.splits)
  from j obtain img w5 jr where i: "pf_image_id P w4 = (Inr img, w5)"
    "cx_run_job ctx (replay_spec P img src (map replayed_input (rec @ hidden))) w5 = (Inr jr, w')"
    and v: "judge_job P src rec hidden jr = Inr v"
    by (auto simp: replay_job_def bindE_Inr_iff split: sum.splits prod.splits)
  from v assms(2) obtain ls where l: "\<not> jr_timed_out jr" "\<not> jr_truncated jr" "jr_returncode jr = 0"
    "job_lines P (jr_stdout jr) = Some ls" and len: "length ls = length rec + length hidden"
    and ok: "list_all trace_ok ls" and jt: "judge_traces P src rec hidden ls = Inr v"
    by (rule judge_job_passed)
  note p = judge_traces_passed [OF jt assms(2) len]
  have h: "length hidden = HIDDEN_N"
    using p(1) hidden_suite_suite_ok [OF c(3)] by (simp add: suite_ok_def)
  have "list_all2 (\<lambda>t l. trace_ok l \<and> same_observables t (read_trace l)) (rec @ hidden) ls"
    using p(2) ok by (simp add: list_all2_conv_all_nth list_all_length)
  with a d c h i l p(3) record_cases_length [OF c(1)] show ?thesis by blast
qed

section \<open>The job is told inputs only\<close>

text \<open>
  C8: ground truth stays on the host.  Two contexts whose jobs answer alike on the specs that carry the
  candidate's source and a list of argument vectors and standard inputs get the same verdict in
  the same world: no other job is started, and none carries an output, a trace or the seed.
\<close>

theorem program_replay_inputs_only:
  assumes "cx_candidate ctx' = cx_candidate ctx" and "cx_private ctx' = cx_private ctx"
    and "cx_draw_seed ctx' = cx_draw_seed ctx"
    and "\<And>src cs img inputs w. submission P (cx_candidate ctx) = Inr (src, cs) \<Longrightarrow>
       cx_run_job ctx' (replay_spec P img src (map (\<lambda>(argv, h).
           JObj [(''argv'', JList (map JStr argv)), (''stdin_hex'', JStr h)]) inputs)) w
         = cx_run_job ctx (replay_spec P img src (map (\<lambda>(argv, h).
           JObj [(''argv'', JList (map JStr argv)), (''stdin_hex'', JStr h)]) inputs)) w"
  shows "program_replay emu random P ctx' w = program_replay emu random P ctx w"
proof (cases "submission P (cx_candidate ctx)")
  case (Inr s)
  obtain src cs where s: "s = (src, cs)" by fastforce
  have inputs: "map replayed_input ts = map (\<lambda>(argv, h). JObj [(''argv'', JList (map JStr argv)), (''stdin_hex'', JStr h)])
      (map input_key ts)" for ts
    by (simp add: replayed_input_def input_key_def)
  have job: "replay_job P ctx' src rec hidden w = replay_job P ctx src rec hidden w" for rec hidden w
    unfolding replay_job_def inputs assms(4) [OF Inr [unfolded s]] ..
  have "replay_cases emu random P ctx' src cs sn elf w = replay_cases emu random P ctx src cs sn elf w" for sn elf
    unfolding replay_cases_def assms(3) job ..
  then show ?thesis
    using Inr s by (simp add: program_replay_def assms(1,2) split: sum.splits prod.splits)
qed (simp add: program_replay_def assms(1))

section \<open>The check comes back\<close>

text \<open>
  C34: the check of a program comes back: with a fair stream behind every seed, it ends in a verdict or an
  exception for every candidate, every emulator and every behaviour of the job.
\<close>

theorem program_replay_returns:
  assumes "\<And>seed. fair (random seed)"
  shows "\<exists>r w'. program_replay emu random P ctx w = Some (r, w')"
proof -
  have "\<exists>r w'. replay_cases emu random P ctx src cs sn elf w = Some (r, w')" for src cs sn elf
  proof -
    obtain d w1 where d: "pf_tempdir P w = (d, w1)" by fastforce
    let ?b = "\<lparr>bin_path = d @ ''/binary'', bin_bytes = elf\<rparr>"
    have h: "\<exists>ts w4. hidden_suite emu random ?b sn rec s w3 = Some (Inr ts, w4)" for rec s w3
      by (rule hidden_suite_comes_back) (rule assms)
    obtain r w2 where r: "record_cases emu ?b cs w1 = (r, w2)" by fastforce
    obtain seed w3 where s: "cx_draw_seed ctx w2 = (seed, w3)" by fastforce
    show ?thesis
    proof (cases r)
      case (Inr x)
      then show ?thesis
      proof (cases x)
        case rec: (Inr rec)
        from h [of rec "dec seed" w3] obtain ts w4 where
          "hidden_suite emu random ?b sn rec (dec seed) w3 = Some (Inr ts, w4)" by blast
        with d r s Inr rec show ?thesis
          by (cases "replay_job P ctx src rec ts w4") (simp add: replay_cases_def)
      qed (use d r Inr in \<open>simp add: replay_cases_def\<close>)
    qed (use d r in \<open>simp add: replay_cases_def\<close>)
  qed
  then show ?thesis by (auto simp: program_replay_def split: sum.splits prod.splits)
qed

section \<open>The nominated cases\<close>

definition nominated_ok :: "nominated \<Rightarrow> bool" where
  "nominated_ok c = (length (fst c) \<le> 16 \<and> list_all (\<lambda>a. str_len a \<le> 256 \<and> CHR 0x00 \<notin> set a) (fst c)
     \<and> (\<exists>b. fromhex (snd c) = Some b \<and> length b \<le> 4096))"

lemma fromhex_length: "fromhex h = Some b \<Longrightarrow> 2 * length b \<le> str_len h"
proof (induction h arbitrary: b rule: fromhex.induct)
  case (2 c r)
  have lead: "\<not> continuation d" if "hex_val d = Some x" for d x
    using that by (auto simp: hex_val_def continuation_def Let_def split: if_splits)
  have space: "\<not> continuation c" if "ascii_space c" using that by (auto simp: ascii_space_def continuation_def)
  show ?case
  proof (cases "ascii_space c")
    case True
    with 2 show ?thesis by (auto simp: str_len_def)
  next
    case False
    with 2(3) obtain d r1 x y b1 where "r = d # r1" "hex_val c = Some x" "hex_val d = Some y" "fromhex r1 = Some b1"
      "b = char_of (16 * x + y) # b1" by (auto split: list.splits option.splits)
    with 2(2) False lead show ?thesis by (fastforce simp: str_len_def)
  qed
qed (simp add: str_len_def)

lemma parse_case_ok:
  assumes p: "parse_case U c = Inr x"
  shows "nominated_ok x"
proof -
  from p obtain d where d: "c = JObj d" by (cases c) (simp_all add: parse_case_def)
  with p obtain as h where m: "map_of d ''argv'' = Some (JList as)" "map_of d ''stdin_hex'' = Some (JStr h)"
    unfolding parse_case_def by (simp split: if_split_asm option.split_asm json.split_asm)
  from p have as: "length as \<le> MAX_ARGS" "list_all arg_ok as" "str_len h \<le> 2 * MAX_STDIN" "fromhex h \<noteq> None"
    "x = (map as_str as, h)"
    unfolding parse_case_def d by (simp_all add: m split: if_split_asm)
  from as(4) obtain b where b: "fromhex h = Some b" by blast
  from fromhex_length [OF b] as(3) have "length b \<le> 4096" by (simp add: MAX_STDIN_def)
  moreover have "str_len (as_str a) \<le> 256 \<and> CHR 0x00 \<notin> set (as_str a)" if "arg_ok a" for a
    using that by (cases a) (simp_all add: arg_ok_def MAX_ARG_def)
  ultimately show ?thesis
    using as b by (simp add: nominated_ok_def MAX_ARGS_def list_all_iff)
qed

lemma parse_all_ok:
  "parse_all U out cs = Inr xs \<Longrightarrow> distinct out \<Longrightarrow> list_all nominated_ok out \<Longrightarrow>
     distinct xs \<and> length xs \<le> length out + length cs \<and> list_all nominated_ok xs"
proof (induction U out cs rule: parse_all.induct)
  case (2 U out c cs)
  then obtain x where x: "parse_case U c = Inr x" by (auto split: sum.splits)
  with 2 parse_case_ok [OF x] show ?case by (fastforce split: if_splits)
qed auto

text \<open>
  The nominated cases stay within their limits.  Whatever \<^verbatim>\<open>cases.json\<close> holds, an accepted list has at
  most 16 pairwise different cases, each with at most 16 NUL-free arguments of at most 256
  characters and a standard input that decodes to at most 4096 bytes.
\<close>

lemma parse_cases_bounds:
  assumes "parse_cases P raw = Inr cs"
  shows "length cs \<le> 16 \<and> distinct cs \<and> list_all nominated_ok cs"
proof -
  from assms obtain js where "length js \<le> MAX_CASES" "parse_all (pf_printable P) [] js = Inr cs"
    by (auto simp: parse_cases_def not_less split: sum.splits json.splits if_splits)
  with parse_all_ok [OF this(2)] show ?thesis by (simp add: MAX_CASES_def)
qed

section \<open>Feedback that fits, and feedback that does not\<close>

lemma reject_pr_fits:
  assumes "reject_pr P reason stage kw = Inr v"
  shows "length (dumps_indent True (JObj (cv_feedback v))) + 1024 < pf_feedback_limit P"
proof -
  let ?fb = "[(''accepted'', JBool False), (''reason'', JStr reason), (''stage'', JStr stage)] @ kw"
  from assms obtain out where c: "capped P ?fb = Inr out" and v: "cv_feedback v = out"
    unfolding reject_pr_def bindE_Inr_iff by auto
  from c obtain n where out: "out = json_dict (cap n (JObj ?fb))"
    and l: "length (dumps_indent True (cap n (JObj ?fb))) + 1024 < pf_feedback_limit P"
    by (rule capped_cases)
  have "cap n (JObj ?fb) = JObj out" unfolding out by (simp only: cap.simps Let_def json_dict.simps)
  with l v show ?thesis by simp
qed

lemma judge_traces_fits:
  "judge_traces P src rec hidden ls = Inr v \<Longrightarrow> cv_status v = REJECTED \<Longrightarrow>
     length (dumps_indent True (JObj (cv_feedback v))) + 1024 < pf_feedback_limit P"
  unfolding judge_traces_def Let_def bindE_Inr_iff
  by (auto simp: bindE_Inr_iff simp del: dump_indent.simps dest: reject_pr_fits split: if_splits)

lemma judge_job_fits:
  "judge_job P src rec hidden r = Inr v \<Longrightarrow> cv_status v = REJECTED \<Longrightarrow>
     length (dumps_indent True (JObj (cv_feedback v))) + 1024 < pf_feedback_limit P"
  unfolding judge_job_def Let_def
  by (auto simp del: dump_indent.simps dest: reject_pr_fits judge_traces_fits split: if_splits option.splits)

lemma replay_cases_fits:
  "replay_cases emu random P ctx src cs sn elf w = Some (Inr v, w') \<Longrightarrow> cv_status v = REJECTED \<Longrightarrow>
     length (dumps_indent True (JObj (cv_feedback v))) + 1024 < pf_feedback_limit P"
  unfolding replay_cases_def Let_def replay_job_def
  by (auto simp: bindE_Inr_iff simp del: dump_indent.simps dest: reject_pr_fits judge_job_fits
      split: prod.splits sum.splits option.splits)

text \<open>
  C35: a rejection fits.  Whatever the model printed and the original wrote, the rendered feedback of a
  rejected program stays 1024 characters below the package's limit.
\<close>

theorem program_replay_feedback_fits:
  assumes "program_replay emu random P ctx w = Some (Inr v, w')" and "cv_status v = REJECTED"
  shows "length (dumps_indent True (JObj (cv_feedback v))) + 1024 < pf_feedback_limit P"
  using assms unfolding program_replay_def
  by (auto simp del: dump_indent.simps dest: reject_pr_fits replay_cases_fits split: prod.splits sum.splits)

end
