(* ===== verification/Replay_Script.thy ===== *)
theory Replay_Script
  imports Program_Replay_Props
begin

text \<open>
  The other side of the program checker: the script that the job runs (\<^verbatim>\<open>REPLAY\<close> of
  \<^verbatim>\<open>src/src/reschema/checks/program_replay.py\<close>), and that its output is read back as the traces it
  printed, so that a model with the original's behaviour passes.  The compiler and the emulator
  of the container are parameters.
\<close>

section \<open>The script\<close>

definition trace_json :: "trace \<Rightarrow> json" where
  "trace_json t =
     JObj [(''argv'', JList (map JStr (tr_argv t))), (''stdin_hex'', JStr (tr_stdin_hex t)),
           (''stdout'', JStr (tr_stdout t)), (''stderr'', JStr (tr_stderr t)),
           (''exit_code'', JInt (tr_exit_code t)), (''files_written'', files_json (tr_files_written t)),
           (''events'', JList (map event_json (tr_events t)))]"

text \<open>The traces printed and the exit status: an uncaught exception ends the script with status 1.\<close>

fun replay_run :: "'v emulator \<Rightarrow> binary \<Rightarrow> (str list \<times> bytes) list \<Rightarrow> 'v \<Rightarrow> (trace list \<times> int) \<times> 'v" where
  "replay_run emu b [] v = (([], 0), v)"
| "replay_run emu b ((argv, stdin) # cs) v =
     (let (t, v1) = record_trace emu b argv stdin v in
      case canonicalize t of
        Inl e \<Rightarrow> (([], 1), v1)
      | Inr a \<Rightarrow> (let ((ts, rc), v2) = replay_run emu b cs v1 in ((a # ts, rc), v2)))"

definition print_line :: "json \<Rightarrow> bytes" where
  "print_line j = dumps j @ [CHR 0x0A]"

definition replay_script ::
    "(str list \<Rightarrow> str \<Rightarrow> str + bytes) \<Rightarrow> 'v emulator \<Rightarrow> str \<Rightarrow> (str list \<times> bytes) list \<Rightarrow> 'v \<Rightarrow> bytes \<times> int" where
  "replay_script cc emu source inputs v =
     (case cc CFLAGS source of
        Inl err \<Rightarrow> (print_line (JObj [(''compile'', JStr err)]), 0)
      | Inr model \<Rightarrow>
          (let ((ts, rc), v') = replay_run emu \<lparr>bin_path = ''/work/model'', bin_bytes = model\<rparr> inputs v
           in (concat (map (print_line \<circ> trace_json) ts), rc)))"

section \<open>A rendered JSON value is one line\<close>

definition plain :: "char \<Rightarrow> bool" where
  "plain c = (32 \<le> byte_val c \<and> byte_val c < 127)"

primrec no_float :: "json \<Rightarrow> bool" where
  "no_float JNull = True"
| "no_float (JBool b) = True"
| "no_float (JInt n) = True"
| "no_float (JFloat r) = False"
| "no_float (JStr s) = True"
| "no_float (JList xs) = list_all id (map no_float xs)"
| "no_float (JObj kvs) = list_all snd (map (map_prod id no_float) kvs)"

lemma plain_marks:
  "plain (CHR ''['')" "plain (CHR '']'')" "plain (CHR ''{'')" "plain (CHR ''}'')"
  by (simp_all add: plain_def byte_val_def)

lemma plain_digit: "d < 16 \<Longrightarrow> plain (digit_char d)"
  by (simp add: plain_def digit_char_byte_val)

lemma plain_base_digits: "2 \<le> b \<Longrightarrow> b \<le> 16 \<Longrightarrow> list_all plain (base_digits b n)"
proof (induction b n rule: base_digits.induct)
  case (1 b n)
  then show ?case
    by (subst base_digits.simps) (auto intro!: plain_digit simp: order.strict_trans2 [OF mod_less_divisor])
qed

lemma plain_dec: "list_all plain (dec n)"
  by (simp add: dec_def plain_base_digits plain_def byte_val_def)

lemma plain_escape: "list_all plain (escape_cp n)"
proof -
  have "list_all plain (hex4 m)" for m by (simp add: hex4_def plain_digit)
  moreover have "plain (char_of n)" if "32 \<le> n" "n < 127" using that by (simp add: plain_def byte_val_char_of)
  ultimately show ?thesis by (simp add: escape_cp_def Let_def plain_def byte_val_def)
qed

lemma plain_dump_str: "list_all plain (dump_str s)"
  using plain_escape by (auto simp: dump_str_def plain_def byte_val_def list_all_iff)

lemma plain_join: "list_all plain sep \<Longrightarrow> list_all (list_all plain) xs \<Longrightarrow> list_all plain (join sep xs)"
  by (induction sep xs rule: join.induct) auto

lemma plain_dump: "no_float j \<Longrightarrow> list_all plain i \<Longrightarrow> list_all plain k \<Longrightarrow> list_all plain (dump_flat sk i k j)"
proof (induction j)
  case (JList xs)
  then have "list_all (list_all plain) (map (dump_flat sk i k) xs)" by (simp add: list_all_iff)
  from plain_join [OF JList.prems(2) this] show ?case by (simp add: plain_marks)
next
  case (JObj kvs)
  have "list_all plain (dump_flat sk i k v)" if "(n, v) \<in> set kvs" for n v
    using JObj that by (force simp: list_all_iff)
  then have "list_all (list_all plain) (map (\<lambda>(n, t). dump_str n @ k @ t)
       (order_items sk (map (map_prod id (dump_flat sk i k)) kvs)))"
    using JObj.prems(3) plain_dump_str by (auto simp: list_all_iff)
  from plain_join [OF JObj.prems(2) this] show ?case by (simp add: plain_marks)
qed (auto simp: plain_dec plain_dump_str, auto simp: plain_def byte_val_def)

lemma plain_dumps: "no_float j \<Longrightarrow> list_all plain (dumps j)"
  by (rule plain_dump) (simp_all add: plain_def byte_val_def)

section \<open>Reading the lines back\<close>

lemma break_len_plain: "plain c \<Longrightarrow> break_len (c # s) = 0"
  by (cases s; cases "tl s") (auto simp: break_len_def plain_def)

lemma break_len_newline: "break_len (CHR 0x0A # s) = 1"
  by (cases s; cases "tl s") (auto simp: break_len_def byte_val_def)

lemma split_line: "list_all plain l \<Longrightarrow> split_lines acc (l @ CHR 0x0A # s) = (rev acc @ l) # split_lines [] s"
  by (induction l arbitrary: acc) (auto simp: break_len_plain break_len_newline)

lemma splitlines_printed:
  "list_all no_float js \<Longrightarrow> splitlines (concat (map print_line js)) = map dumps js"
proof (induction js)
  case (Cons j js)
  have "split_lines [] (dumps j @ CHR 0x0A # concat (map print_line js))
      = dumps j # split_lines [] (concat (map print_line js))"
    using split_line [of "dumps j" "[]"] plain_dumps [of j] Cons.prems by simp
  moreover have "print_line j @ r = dumps j @ CHR 0x0A # r" for r by (simp add: print_line_def)
  ultimately show ?case using Cons by (simp add: splitlines_def)
qed (simp add: splitlines_def)

lemma utf8_valid_ascii: "list_all (\<lambda>c. byte_val c < 128) s \<Longrightarrow> utf8_valid s"
  by (induction s) auto

lemma print_line_ascii: "no_float j \<Longrightarrow> list_all (\<lambda>c. byte_val c < 128) (print_line j)"
  using plain_dumps [of j] by (fastforce simp: print_line_def list_all_iff plain_def byte_val_def)

lemma job_lines_printed:
  assumes "list_all no_float js" and "\<forall>j \<in> set js. pf_loads_str P (dumps j) = Inr j"
  shows "job_lines P (concat (map print_line js)) = Some js"
proof -
  have "utf8_valid (concat (map print_line js))"
    using assms(1) print_line_ascii by (intro utf8_valid_ascii) (fastforce simp: list_all_iff)
  moreover have "mapE (pf_loads_str P) (map dumps js) = Inr js"
    using assms(2) by (induction js) auto
  ultimately show ?thesis
    using splitlines_printed [OF assms(1)] by (simp add: job_lines_def decode_def)
qed

section \<open>Reading a trace back\<close>

definition own_event :: "event \<Rightarrow> bool" where
  "own_event e = (ev_extra e = [] \<and> (case ev_result e of None \<Rightarrow> True | Some r \<Rightarrow> no_float r))"

definition own_trace :: "trace \<Rightarrow> bool" where
  "own_trace t = (list_all own_event (tr_events t) \<and> fromhex (tr_stdout t) \<noteq> None \<and> fromhex (tr_stderr t) \<noteq> None)"

lemma read_event_json: "own_event e \<Longrightarrow> read_event (event_json e) = e"
  by (cases e; cases "ev_result e")
    (simp_all add: own_event_def read_event_def event_json_def field_def get_default_def comp_def)

lemma event_json_ok: "own_event e \<Longrightarrow> event_ok (event_json e) \<and> no_float (event_json e)"
  by (cases "ev_result e") (simp_all add: own_event_def event_ok_def event_json_def list_all_iff)

lemma read_trace_json: "own_trace t \<Longrightarrow> read_trace (trace_json t) = t"
proof -
  assume t: "own_trace t"
  have "map (read_event \<circ> event_json) (tr_events t) = tr_events t"
    using t by (intro map_idI) (simp add: own_trace_def list_all_iff read_event_json)
  moreover have "map (map_prod id as_str \<circ> map_prod id JStr) fs = fs" for fs :: "str dict"
    by (intro map_idI) auto
  ultimately show ?thesis
    by (simp add: read_trace_def trace_json_def field_def get_default_def files_json_def comp_def [of as_str])
qed

lemma trace_json_ok: "own_trace t \<Longrightarrow> trace_ok (trace_json t) \<and> no_float (trace_json t)"
  using event_json_ok
  by (auto simp: own_trace_def trace_ok_def trace_json_def hex_ok_def files_json_def list_all_iff)

lemma canon_result_own:
  "(case r of None \<Rightarrow> True | Some r \<Rightarrow> no_float r) \<Longrightarrow>
     case snd (canon_result st r) of None \<Rightarrow> True | Some r \<Rightarrow> no_float r"
  by (cases r; cases "the r") (simp_all add: canon_result_def case_prod_beta)

lemma canon_events_own: "list_all own_event es \<Longrightarrow> list_all own_event (snd (canon_events st es))"
proof (induction es arbitrary: st)
  case (Cons e es)
  then have "own_event (snd (canon_event st e))"
    by (simp add: canon_event_def own_event_def Let_def case_prod_beta canon_result_own)
  with Cons show ?case by (simp add: Let_def case_prod_beta)
qed simp

lemma hook_own: "own_event (hook s ph raw)" and mk_event_own: "own_event (mk_event ph s as)"
  by (simp_all add: own_event_def hook_def mk_event_def)

lemma record_own:
  "canonicalize (fst (record_trace emu b argv stdin v)) = Inr a \<Longrightarrow> own_trace a"
proof -
  assume a: "canonicalize (fst (record_trace emu b argv stdin v)) = Inr a"
  let ?t = "fst (record_trace emu b argv stdin v)"
  have "list_all own_event (tr_events ?t)"
    by (auto simp: record_trace_def Let_def hooked_events_def list_all_iff hook_own mk_event_own
        split: prod.splits option.splits)
  then have "list_all own_event (snd (canon_events canon_init (tr_events ?t)))" by (rule canon_events_own)
  moreover have "fromhex (tr_stdout ?t) \<noteq> None" "fromhex (tr_stderr ?t) \<noteq> None"
    by (simp_all add: record_trace_def Let_def case_prod_beta)
  ultimately show ?thesis using a by (auto simp: canonicalize_def own_trace_def)
qed

lemma replay_run_own:
  "replay_run emu b cs v = ((ts, rc), v') \<Longrightarrow> rc = 0 \<and> length ts = length cs \<and> list_all own_trace ts"
proof (induction emu b cs v arbitrary: ts rc v' rule: replay_run.induct)
  case (2 emu b argv stdin cs v)
  obtain t v1 where t: "record_trace emu b argv stdin v = (t, v1)" by fastforce
  with canonicalize_record [of emu b argv stdin v] obtain a where a: "canonicalize t = Inr a" by auto
  with record_own [of emu b argv stdin v a] t have "own_trace a" by simp
  with 2 t a show ?case by (auto simp: Let_def split: prod.splits)
qed simp

section \<open>A faithful model passes\<close>

definition replay_inputs :: "trace list \<Rightarrow> (str list \<times> bytes) list" where
  "replay_inputs ts = map (\<lambda>t. (drop 1 (tr_argv t), the (fromhex (tr_stdin_hex t)))) ts"

lemma judge_job_honest:
  assumes "\<not> jr_timed_out jr" and "\<not> jr_truncated jr" and "jr_returncode jr = 0"
    and "jr_stdout jr = concat (map (print_line \<circ> trace_json) ts)"
    and "list_all own_trace ts" and "\<forall>t \<in> set ts. pf_loads_str P (dumps (trace_json t)) = Inr (trace_json t)"
    and "list_all2 same_observables (rec @ hidden) ts" and "length hidden = HIDDEN_N"
  shows "\<exists>v. judge_job P src rec hidden jr = Inr v \<and> cv_status v = PASSED"
proof -
  let ?ls = "map trace_json ts"
  have lines: "job_lines P (jr_stdout jr) = Some ?ls"
    using job_lines_printed [of ?ls P] assms(4-6) trace_json_ok by (simp add: list_all_iff)
  have len: "length ts = length rec + length hidden" using list_all2_lengthD [OF assms(7)] by simp
  have nc: "is_compile (hd ?ls) = None" if "?ls \<noteq> []"
    using that by (cases ts) (simp_all add: is_compile_def trace_json_def)
  have gots: "map read_trace ?ls = ts"
    using assms(5) by (simp add: list_all_iff map_idI read_trace_json)
  have "list_all2 same_observables rec (take (length rec) ts)" "list_all2 same_observables hidden (drop (length rec) ts)"
    using assms(7) by (auto simp: list_all2_append1)
  then obtain v1 v2 where c: "compare rec (take (length rec) ts) = Inr v1" "pv_ok v1"
    "compare hidden (drop (length rec) ts) = Inr v2" "pv_ok v2"
    using compare_ok_iff [of rec "take (length rec) ts"] compare_ok_iff [of hidden "drop (length rec) ts"]
    by (auto simp: list_all2_iff list_all_iff)
  then have "\<exists>v. judge_traces P src rec hidden ?ls = Inr v \<and> cv_status v = PASSED"
    unfolding judge_traces_def Let_def gots using assms(8) by simp
  with lines nc len assms(1-3,5) trace_json_ok show ?thesis
    by (auto simp: judge_job_def Let_def list_all_iff split: option.splits)
qed

lemma honest_replay:
  assumes "submission P (cx_candidate ctx) = Inr (src, cs)" and "task_seed P (cx_private ctx) = Inr sn"
    and "map_of (cx_private ctx) ''binary'' = Some elf" and "pf_tempdir P w = (d, w1)"
    and "record_cases emu \<lparr>bin_path = d @ ''/binary'', bin_bytes = elf\<rparr> cs w1 = (Inr (Inr rec), w2)"
    and "cx_draw_seed ctx w2 = (seed, w3)"
    and "hidden_suite emu random \<lparr>bin_path = d @ ''/binary'', bin_bytes = elf\<rparr> sn rec (dec seed) w3 = Some (Inr hidden, w4)"
    and "length hidden = HIDDEN_N" and "pf_image_id P w4 = (Inr img, w5)"
    and "cx_run_job ctx (replay_spec P img src (map replayed_input (rec @ hidden))) w5 = (Inr jr, w6)"
    and "\<not> jr_timed_out jr" and "\<not> jr_truncated jr"
    and "(jr_stdout jr, jr_returncode jr) = replay_script cc jemu src (replay_inputs (rec @ hidden)) v"
    and "cc CFLAGS src = Inr model"
    and "replay_run jemu \<lparr>bin_path = ''/work/model'', bin_bytes = model\<rparr> (replay_inputs (rec @ hidden)) v = ((ts, rc), v')"
    and "list_all2 same_observables (rec @ hidden) ts"
    and "\<forall>t \<in> set ts. pf_loads_str P (dumps (trace_json t)) = Inr (trace_json t)"
  shows "\<exists>vd. program_replay emu random P ctx w = Some (Inr vd, w6) \<and> cv_status vd = PASSED"
proof -
  have run: "rc = 0" "list_all own_trace ts" using replay_run_own [OF assms(15)] by simp_all
  from assms(13-15) run have "jr_stdout jr = concat (map (print_line \<circ> trace_json) ts)" "jr_returncode jr = 0"
    by (simp_all add: replay_script_def)
  from judge_job_honest [OF assms(11,12) this(2,1) run(2) assms(17,16,8)]
  obtain vd where vd: "judge_job P src rec hidden jr = Inr vd" "cv_status vd = PASSED" by blast
  then have "replay_job P ctx src rec hidden w4 = (Inr vd, w6)"
    using assms(9,10) by (simp add: replay_job_def)
  then have "replay_cases emu random P ctx src cs sn elf w = Some (Inr vd, w6)"
    using assms(4-7) by (simp add: replay_cases_def)
  then show ?thesis
    using assms(1-3) vd(2) by (simp add: program_replay_def dict_get_def)
qed

text \<open>
  C2: a model with the original's behaviour passes.  When the candidate is well-formed, its cases are
  stable and the hidden suite is full, and the job runs the script on a compiler and an emulator
  for which the model's canonical traces have the original's observables on every replayed input,
  the checker passes it: the lines the script prints are read back as exactly those traces.
\<close>

theorem honest_replay_passes:
  assumes "submission P (cx_candidate ctx) = Inr (src, cs)" and "task_seed P (cx_private ctx) = Inr sn"
    and "map_of (cx_private ctx) ''binary'' = Some elf" and "pf_tempdir P w = (d, w1)"
    and "record_cases emu \<lparr>bin_path = d @ ''/binary'', bin_bytes = elf\<rparr> cs w1 = (Inr (Inr rec), w2)"
    and "cx_draw_seed ctx w2 = (seed, w3)"
    and "hidden_suite emu random \<lparr>bin_path = d @ ''/binary'', bin_bytes = elf\<rparr> sn rec (dec seed) w3 = Some (Inr hidden, w4)"
    and "length hidden = HIDDEN_N" and "pf_image_id P w4 = (Inr img, w5)"
    and "cx_run_job ctx (replay_spec P img src (map replayed_input (rec @ hidden))) w5 = (Inr jr, w6)"
    and "\<not> jr_timed_out jr" and "\<not> jr_truncated jr"
    and "(jr_stdout jr, jr_returncode jr) = replay_script cc jemu src (replay_inputs (rec @ hidden)) v"
    and "cc CFLAGS src = Inr model"
    and "replay_run jemu \<lparr>bin_path = ''/work/model'', bin_bytes = model\<rparr> (replay_inputs (rec @ hidden)) v = ((ts, rc), v')"
    and "list_all2 same_observables (rec @ hidden) ts"
    and "\<forall>t \<in> set ts. pf_loads_str P (dumps (trace_json t)) = Inr (trace_json t)"
  shows "\<exists>vd. program_replay emu random P ctx w = Some (Inr vd, w6) \<and> cv_status vd = PASSED"
  using assms by (rule honest_replay)

end
