(* ===== verification/Replay_Faults.thy ===== *)
theory Replay_Faults
  imports Replay_Script
begin

text \<open>
  The limit of \<^verbatim>\<open>_capped\<close>: integers and nested collections are echoed unshortened, so a job can print a
  well-shaped trace whose divergence fits at no cap.
\<close>

section \<open>Feedback that does not fit\<close>

lemma update_fresh: "k \<notin> set (map fst d) \<Longrightarrow> AList.update k v d = d @ [(k, v)]"
  by (induction d) auto

lemma fold_update_distinct:
  "distinct (map fst (d @ kvs)) \<Longrightarrow> fold (\<lambda>(k, x) d. AList.update k x d) kvs d = d @ kvs"
proof (induction kvs arbitrary: d)
  case (Cons kv kvs)
  then have "fst kv \<notin> set (map fst d)" "distinct (map fst ((d @ [kv]) @ kvs))" by auto
  with Cons.IH [of "d @ [kv]"] update_fresh [of "fst kv" d "snd kv"] show ?case by (simp add: case_prod_beta)
qed simp

lemma cap_obj:
  assumes "64 \<le> n" and "length kvs \<le> 16" and "distinct (map fst kvs)" and "\<forall>k \<in> set (map fst kvs). length k \<le> 64"
  shows "cap n (JObj kvs) = JObj (map (map_prod id (cap n)) kvs)"
proof -
  let ?kvs = "map (map_prod id (cap n)) kvs"
  have "str_take n k = k" if "k \<in> set (map fst kvs)" for k
    using assms(1,4) that str_len_le [of k] by (intro str_take_all) fastforce
  then have "fold (\<lambda>(k, x) d. AList.update (str_take n k) x d) ?kvs []
      = fold (\<lambda>(k, x) d. AList.update k x d) ?kvs []"
    by (intro fold_cong) (force simp del: str_take.simps)+
  also have "\<dots> = ?kvs" using fold_update_distinct [of "[]" ?kvs] assms(3) by (simp add: comp_def)
  finally show ?thesis using assms(2) by (simp add: Let_def)
qed

lemma dump_member:
  assumes "(k, v) \<in> set kvs"
  shows "length (dump_indent sk v (Suc d)) \<le> length (dump_indent sk (JObj kvs) d)"
proof -
  let ?items = "map (\<lambda>(n, f). dump_str n @ '': '' @ f (Suc d)) (order_items sk (map (map_prod id (dump_indent sk)) kvs))"
  have "(k, dump_indent sk v) \<in> set (order_items sk (map (map_prod id (dump_indent sk)) kvs))"
    using assms by force
  then have "dump_str k @ '': '' @ dump_indent sk v (Suc d) \<in> set ?items" by force
  from length_join_ge [OF this, of "'','' @ newline (Suc d)"] assms show ?thesis by auto
qed

lemma dump_elements:
  "sum_list (map (\<lambda>v. length (dump_indent sk v (Suc d))) vs) \<le> length (dump_indent sk (JList vs) d)"
  using length_join_sum [of "map (\<lambda>f. f (Suc d)) (map (dump_indent sk) vs)" "'','' @ newline (Suc d)"]
  by (simp add: comp_def)

lemma length_base_digits: "length (base_digits 10 (10 ^ k)) = Suc k"
proof (induction k)
  case (Suc k)
  have "\<not> (10 :: nat) ^ Suc k < 10" by simp
  with Suc show ?case by (subst base_digits.simps) simp
qed (subst base_digits.simps, simp)

lemma length_dec_power: "length (dec (10 ^ k)) = Suc k"
proof -
  have "dec (10 ^ k) = base_digits 10 (10 ^ k)" by (simp add: dec_def nat_power_eq del: base_digits.simps)
  then show ?thesis by (simp only: length_base_digits)
qed

definition long_int :: int where
  "long_int = 10 ^ 4299"

definition forged_event :: event where
  "forged_event = \<lparr>ev_sc = [], ev_phase = [], ev_args = [], ev_result = None,
     ev_extra = [(''x'', JList (replicate 16 (JInt long_int)))]\<rparr>"

definition forged_line :: json where
  "forged_line =
     JObj [(''stdout'', JStr []), (''stderr'', JStr []), (''exit_code'', JInt (- 1)), (''files_written'', JObj []),
           (''events'', JList [event_json forged_event])]"

lemma forged_ok: "trace_ok forged_line" "is_compile forged_line = None"
  by (simp_all add: forged_line_def trace_ok_def hex_ok_def event_ok_def event_json_def forged_event_def is_compile_def)

lemma forged_event_long:
  assumes "64 \<le> n"
  shows "68800 \<le> length (dump_indent sk (cap n (event_json forged_event)) d)"
proof -
  let ?xs = "JList (replicate 16 (JInt long_int))"
  have "length (dec long_int) = 4300" unfolding long_int_def length_dec_power by simp
  then have "68800 \<le> sum_list (map (\<lambda>v. length (dump_indent sk v (Suc (Suc d)))) (replicate 16 (JInt long_int)))"
    by (simp add: sum_list_replicate)
  also have "\<dots> \<le> length (dump_indent sk ?xs (Suc d))" by (rule dump_elements)
  also have "\<dots> = length (dump_indent sk (cap n ?xs) (Suc d))" by simp
  also have "\<dots> \<le> length (dump_indent sk (cap n (event_json forged_event)) d)"
  proof -
    have "cap n (event_json forged_event) = JObj (map (map_prod id (cap n))
        [(''phase'', JStr []), (''sc'', JStr []), (''args'', JList []), (''x'', ?xs)])"
      unfolding event_json_def forged_event_def using assms
      by (simp del: cap.simps(7) add: cap_obj)
    from arg_cong [OF this, of "\<lambda>j. length (dump_indent sk j d)"] show ?thesis
      using dump_member [of "''x''" "cap n ?xs" "map (map_prod id (cap n))
        [(''phase'', JStr []), (''sc'', JStr []), (''args'', JList []), (''x'', ?xs)]" sk d]
      by (simp only: list.map map_prod_simp id_apply list.set) blast
  qed
  finally show ?thesis .
qed


lemma fault_not_capped:
  assumes "pf_feedback_limit P \<le> 65536"
  shows "reject_pr P reason stage [(''divergence'', JObj [(''argv'', a), (''expected'', e), (''actual'', b),
     (''actual_fault'', event_json forged_event)])]
     = Inl (AssertionError ''feedback does not fit FEEDBACK_LIMIT at the floor cap'')"
proof -
  let ?d = "[(''argv'', a), (''expected'', e), (''actual'', b), (''actual_fault'', event_json forged_event)]"
  let ?fb = "[(''accepted'', JBool False), (''reason'', JStr reason), (''stage'', JStr stage), (''divergence'', JObj ?d)]"
  have long: "68800 \<le> length (dumps_indent True (cap n (JObj ?fb)))" if n: "64 \<le> n" for n
  proof -
    have d: "cap n (JObj ?d) = JObj (map (map_prod id (cap n)) ?d)" by (rule cap_obj [OF n]) simp_all
    have fb: "cap n (JObj ?fb) = JObj (map (map_prod id (cap n)) ?fb)" by (rule cap_obj [OF n]) simp_all
    have "68800 \<le> length (dump_indent True (cap n (event_json forged_event)) (Suc (Suc 0)))"
      by (rule forged_event_long [OF n])
    also have "\<dots> \<le> length (dump_indent True (cap n (JObj ?d)) (Suc 0))"
      unfolding d by (rule dump_member [of "''actual_fault''"]) (simp del: cap.simps)
    also have "\<dots> \<le> length (dumps_indent True (cap n (JObj ?fb)))"
      unfolding fb by (rule dump_member [of "''divergence''"]) (simp del: cap.simps)
    finally show ?thesis .
  qed
  have no: "\<not> length (dumps_indent True (cap n (JObj ?fb))) + 1024 < pf_feedback_limit P" if n: "64 \<le> n" for n
    using long [OF n] assms by linarith
  have "capped P ?fb = Inl (AssertionError ''feedback does not fit FEEDBACK_LIMIT at the floor cap'')"
    unfolding capped_def using no by (simp del: cap.simps dump_indent.simps)
  then show ?thesis by (simp add: reject_pr_def)
qed

text \<open>
  C39: a job can turn its rejection into a fault of the checker.  \<^verbatim>\<open>_cap\<close> shortens texts and collections but
  no integers, and keys of an event that nothing checks are echoed.  With the documented limit of
  64 KiB, a job that prints, for a case the original survives, a well-shaped crashed trace whose
  last event carries sixteen integers of 4300 digits makes \<^verbatim>\<open>_capped\<close> run out of caps: the check
  raises \<^verbatim>\<open>AssertionError\<close> instead of rejecting.
\<close>

theorem forged_trace_raises:
  assumes "pf_feedback_limit P \<le> 65536" and "own_trace t" and "tr_exit_code t \<noteq> - 1"
    and "\<not> jr_timed_out r" and "\<not> jr_truncated r" and "jr_returncode r = 0"
    and "job_lines P (jr_stdout r) = Some (forged_line # ls)" and "list_all trace_ok ls"
    and "length ls = length rec + length hidden"
  shows "judge_job P src (t # rec) hidden r
    = Inl (AssertionError ''feedback does not fit FEEDBACK_LIMIT at the floor cap'')"
proof -
  let ?g = "read_trace forged_line"
  have g: "tr_stdout ?g = []" "tr_stderr ?g = []" "tr_exit_code ?g = - 1" "tr_events ?g = [forged_event]"
    by (simp_all add: forged_line_def read_trace_def field_def get_default_def read_event_def event_json_def
        forged_event_def)
  have io: "\<not> same_io t ?g" using assms(3) g(3) by (simp add: same_io_def)
  obtain want where want: "io_json t = Inr want"
    using assms(2) by (auto simp: own_trace_def io_json_def shown_def)
  obtain act where act: "io_json ?g = Inr act" by (simp add: io_json_def shown_def g)
  let ?argv = "JList (map JStr (drop 1 (tr_argv t)))"
  let ?v = "reject_pv ''io-mismatch'' [(''argv'', ?argv), (''expected'', want), (''actual'', act),
      (''actual_fault'', event_json forged_event)]"
  have "compare_pair t ?g = Inr (Some ?v)"
    unfolding compare_pair_def using io want act g by (simp add: Let_def)
  then have c: "compare (t # rec) (take (length (t # rec)) (map read_trace (forged_line # ls))) = Inr ?v" by simp
  have "judge_traces P src (t # rec) hidden (forged_line # ls)
      = Inl (AssertionError ''feedback does not fit FEEDBACK_LIMIT at the floor cap'')"
    unfolding judge_traces_def Let_def c using fault_not_capped [OF assms(1)]
    by (simp add: reject_pv_def divergence_item_def)
  then show ?thesis
    unfolding judge_job_def using assms(4-9) forged_ok by (simp add: Let_def)
qed

end
