(* ===== verification/Replay_Round.thy ===== *)
theory Replay_Round
  imports Replay_Faults
begin

text \<open>
  A complete concrete check of a program: a program that exits at once, a random stream that spells
  eight different one-letter arguments, and a job that runs the script on the same emulator.  It
  witnesses the theorems on the program checker.
\<close>

section \<open>The hidden suite of the round\<close>

definition spell :: "nat \<Rightarrow> rng \<Rightarrow> rng" where
  "spell i s = 0 ## of_nat (i * 33554432) ## s"

lemma length_CHARSET_92: "length CHARSET = 92"
  by code_simp

lemma spell_draw:
  assumes "i < 26"
  shows "hidden_input ''argv'' None (spell i s) = Some (Inr ([[ascii_letters ! i]], []), s)"
proof -
  have one: "randint 1 24 (0 ## r) = Some (Inr 1, r)" for r
    by (simp add: randint_def randrange_def randbelow_def randbelow_loop.simps getrandbits.simps
      bit_length.simps bind_def ret_def)
  have bits: "unat (drop_bit 25 (of_nat (i * 33554432) :: 32 word)) = i"
  proof -
    have "unat (of_nat (i * 33554432) :: 32 word) = i * 33554432"
      unfolding unat_of_nat using assms by (simp add: take_bit_eq_mod)
    then show ?thesis unfolding unat_drop_bit_eq by (simp add: drop_bit_eq_div)
  qed
  have "bit_length 92 = 7" by (simp add: bit_length.simps)
  then have "randbelow 92 (of_nat (i * 33554432) ## r) = Some (Inr i, r)" for r
    using assms bits by (simp add: randbelow_def randbelow_loop.simps getrandbits.simps)
  moreover have "CHARSET ! i = ascii_letters ! i" "CHARSET \<noteq> []"
  proof -
    have "length ascii_letters = 52" by code_simp
    then show "CHARSET ! i = ascii_letters ! i" using assms by (simp add: CHARSET_def nth_append)
    show "CHARSET \<noteq> []" using length_CHARSET_92 by force
  qed
  ultimately have "choice CHARSET (of_nat (i * 33554432) ## r) = Some (Inr (ascii_letters ! i), r)" for r
    by (simp add: choice_def length_CHARSET_92 bind_def ret_def)
  with one show ?thesis
    by (simp add: hidden_input_def uniform_input_def spell_def bind_def ret_def)
qed

definition quiet_trace :: "str \<Rightarrow> str list \<Rightarrow> trace" where
  "quiet_trace name argv =
     \<lparr>tr_argv = name # argv, tr_stdin_hex = [], tr_stdout = [], tr_stderr = [], tr_exit_code = 0,
      tr_files_written = [], tr_events = [\<lparr>ev_sc = ''exit_group'', ev_phase = ''enter'', ev_args = [''0x0''],
        ev_result = None, ev_extra = []\<rparr>]\<rparr>"

lemma quiet_canonical:
  "canonicalize (fst (record_trace quiet_emulator b argv [] ())) = Inr (quiet_trace (path_name (bin_path b)) argv)"
proof -
  have "py_hex 0 = ''0x0''" by code_simp
  moreover have "\<not> is_addr ''0x0''" by code_simp
  moreover have "sub_paths m ''0x0'' = (m, ''0x0'')" for m by (rule no_slash_token) simp
  ultimately show ?thesis
    by (simp add: record_trace_def quiet_emulator_def Let_def hooked_events_def LOG_SYSCALLS_def hook_def fmt_def
        scrape_files_def canonicalize_def canon_event_def track_open_def is_open_def OPEN_FLAGS_def carry_fd_def
        FD_CARRIERS_def canon_token_def canon_result_def canon_init_def quiet_trace_def)
qed

lemma quiet_world: "snd (record_trace quiet_emulator b argv stdin w) = ()"
  by simp

lemma quiet_stable:
  "record_stable quiet_emulator b argv [] w = (Inr (Some (quiet_trace (path_name (bin_path b)) argv)), w)"
  by (cases w) (simp add: record_stable_def case_prod_beta quiet_canonical)

lemma loop_step:
  assumes "nxt s = Some (Inr (argv, []), s')" and "0 < k" and "length fresh < HIDDEN_N" and "(argv, []) \<notin> set known"
  shows "hidden_loop quiet_emulator b nxt k known fresh s w
     = hidden_loop quiet_emulator b nxt (k - 1) ((argv, []) # known)
         (fresh @ [quiet_trace (path_name (bin_path b)) argv]) s' w"
  using assms by (cases k) (simp_all add: quiet_stable usable_def quiet_trace_def)

definition spelled :: "nat \<Rightarrow> str list" where
  "spelled i = [[ascii_letters ! i]]"

lemma spelled_inj: "i < 26 \<Longrightarrow> j < 26 \<Longrightarrow> spelled i = spelled j \<longleftrightarrow> i = j"
proof -
  have "distinct ascii_letters" by code_simp
  then show "i < 26 \<Longrightarrow> j < 26 \<Longrightarrow> spelled i = spelled j \<longleftrightarrow> i = j"
    by (simp add: spelled_def ascii_letters_def nth_eq_iff_index_eq)
qed

lemma loop_run:
  assumes "n + i < 26" and "n < k" and "length fresh + n = HIDDEN_N"
    and "\<forall>j \<in> {i..<n + i}. (spelled j, []) \<notin> set known"
  shows "hidden_loop quiet_emulator b (hidden_input ''argv'' None) k known fresh (foldr spell [i..<Suc (n + i)] s) w
     = Some (Inr (fresh @ map (\<lambda>j. quiet_trace (path_name (bin_path b)) (spelled j)) [i..<n + i]), w)"
  using assms
proof (induction n arbitrary: i k known fresh)
  case 0
  then have "hidden_input ''argv'' None (spell i s) = Some (Inr (spelled i, []), s)"
    using spell_draw [of i] by (simp add: spelled_def)
  with 0 show ?case by (cases k) simp_all
next
  case (Suc n)
  let ?tail = "foldr spell [Suc i..<Suc (n + Suc i)] s"
  have split: "[i..<Suc (Suc n + i)] = i # [Suc i..<Suc (n + Suc i)]" "[i..<Suc n + i] = i # [Suc i..<n + Suc i]"
    by (simp_all add: upt_conv_Cons del: upt_Suc)
  have d: "hidden_input ''argv'' None (spell i ?tail) = Some (Inr (spelled i, []), ?tail)"
    using spell_draw [of i] Suc.prems(1) by (simp add: spelled_def)
  have new: "(spelled i, []) \<notin> set known" using Suc.prems(4) by simp
  have rest: "\<forall>j \<in> {Suc i..<n + Suc i}. (spelled j, []) \<notin> set ((spelled i, []) # known)"
    using Suc.prems(1,4) spelled_inj by fastforce
  have less: "0 < k" "length fresh < HIDDEN_N" using Suc.prems(2,3) by simp_all
  show ?case
    unfolding split foldr.simps comp_apply list.map loop_step [where nxt = "hidden_input ''argv'' None", OF d less new]
    using Suc.IH [of "Suc i" "k - 1" "fresh @ [quiet_trace (path_name (bin_path b)) (spelled i)]"
        "(spelled i, []) # known"] Suc.prems(1-3) rest by (simp del: upt_Suc)
qed

definition spell_stream :: rng where
  "spell_stream = foldr spell [0..<9] (sconst 0)"

lemma quiet_hidden:
  "hidden_suite quiet_emulator (\<lambda>_. spell_stream) b ''echo'' [] seed w
     = Some (Inr (map (\<lambda>j. quiet_trace (path_name (bin_path b)) (spelled j)) [0..<8]), w)"
proof -
  have "get_default INPUT_MODE ''echo'' ''argv'' = ''argv''" "SEED_GRAMMARS ''echo'' = None"
    by (simp_all add: get_default_def INPUT_MODE_def SEED_GRAMMARS_def)
  moreover have "[0..<9] = [0..<Suc (8 + 0)]" "(10 * HIDDEN_N) = 80" by (simp_all add: HIDDEN_N_def)
  ultimately show ?thesis
    unfolding hidden_suite_def spell_stream_def
    using loop_run [of 8 0 80 "[]" "[]" b "sconst 0" w] by (simp add: HIDDEN_N_def del: upt_Suc upt_rec_numeral)
qed

section \<open>The check\<close>

definition quiet_inputs :: "(str list \<times> bytes) list" where
  "quiet_inputs = map (\<lambda>j. (spelled j, [])) [0..<8]"

definition quiet_cc :: "str list \<Rightarrow> str \<Rightarrow> str + bytes" where
  "quiet_cc flags source = Inr ''elf''"

text \<open>The decoder knows the task and rebuilds a printed trace from its argument.\<close>

definition quiet_platform :: "unit platform" where
  "quiet_platform = plain_platform
     \<lparr>pf_loads := (\<lambda>b. if b = ''T'' then Inr (JObj [(''seed'', JStr ''echo'')]) else Inr (JList [])),
      pf_loads_str := (\<lambda>s. Inr (trace_json (quiet_trace ''model'' [[s ! 20]])))\<rparr>"

definition quiet_result :: job_result where
  "quiet_result = \<lparr>jr_returncode = 0, jr_timed_out = False, jr_truncated = False,
     jr_stdout = fst (replay_script quiet_cc quiet_emulator ''int main;'' quiet_inputs ()), jr_stderr = []\<rparr>"

definition quiet_ctx :: "unit check_ctx" where
  "quiet_ctx = \<lparr>cx_candidate = [(''model.c'', ''int main;'')],
     cx_private = [(''task.json'', ''T''), (''binary'', ''elf'')], cx_draw_seed = Pair 7,
     cx_run_job = (\<lambda>spec w. (Inr quiet_result, w))\<rparr>"

abbreviation quiet_bin :: binary where
  "quiet_bin \<equiv> \<lparr>bin_path = ''/tmp/check/binary'', bin_bytes = ''elf''\<rparr>"

abbreviation quiet_suite_of :: "str \<Rightarrow> trace list" where
  "quiet_suite_of name \<equiv> map (\<lambda>j. quiet_trace name (spelled j)) [0..<8]"

lemma quiet_names: "path_name ''/tmp/check/binary'' = ''binary''" "path_name ''/work/model'' = ''model''"
  by code_simp+

lemma quiet_run:
  "replay_run quiet_emulator \<lparr>bin_path = ''/work/model'', bin_bytes = m\<rparr> (map (\<lambda>j. (spelled j, [])) js) ()
     = ((map (\<lambda>j. quiet_trace ''model'' (spelled j)) js, 0), ())"
proof (induction js)
  case (Cons j js)
  have "canonicalize (fst (record_trace quiet_emulator \<lparr>bin_path = ''/work/model'', bin_bytes = m\<rparr> (spelled j) [] ()))
      = Inr (quiet_trace ''model'' (spelled j))"
    by (simp add: quiet_canonical quiet_names)
  with Cons show ?case by (simp add: Let_def case_prod_beta)
qed simp

lemma quiet_lines:
  "j \<in> {0..<8} \<Longrightarrow> pf_loads_str quiet_platform (dumps (trace_json (quiet_trace ''model'' (spelled j))))
     = Inr (trace_json (quiet_trace ''model'' (spelled j)))"
proof -
  have "list_all (\<lambda>j. dumps (trace_json (quiet_trace ''model'' (spelled j))) ! 20 = ascii_letters ! j) [0..<8]"
    by code_simp
  then show "j \<in> {0..<8} \<Longrightarrow> ?thesis"
    by (simp add: list_all_iff quiet_platform_def plain_platform_def spelled_def del: upt_rec_numeral)
qed

lemma quiet_submission: "submission quiet_platform (cx_candidate quiet_ctx) = Inr (''int main;'', [])"
proof -
  have "utf8_valid ''int main;''" by code_simp
  then show ?thesis
    by (simp add: submission_def candidate_files_def direct_files_def FILES_def List.map_filter_simps quiet_ctx_def
        decode_def has_key_def parse_cases_def quiet_platform_def plain_platform_def get_default_def)
qed

lemma quiet_task: "task_seed quiet_platform (cx_private quiet_ctx) = Inr ''echo''"
  by (simp add: task_seed_def quiet_ctx_def dict_get_def quiet_platform_def plain_platform_def)

lemma quiet_same: "same_observables (quiet_trace a x) (quiet_trace b y)"
  by (simp add: same_observables_def same_io_def quiet_trace_def obs_events_def)

lemma quiet_inputs_of: "replay_inputs ([] @ quiet_suite_of ''binary'') = quiet_inputs"
  by (simp add: replay_inputs_def quiet_inputs_def quiet_trace_def)

lemma quiet_facts:
  shows "submission quiet_platform (cx_candidate quiet_ctx) = Inr (''int main;'', [])"
    and "task_seed quiet_platform (cx_private quiet_ctx) = Inr ''echo''"
    and "map_of (cx_private quiet_ctx) ''binary'' = Some ''elf''"
    and "pf_tempdir quiet_platform () = (''/tmp/check'', ())"
    and "record_cases quiet_emulator \<lparr>bin_path = ''/tmp/check'' @ ''/binary'', bin_bytes = ''elf''\<rparr> [] () = (Inr (Inr []), ())"
    and "cx_draw_seed quiet_ctx () = (7, ())"
    and "hidden_suite quiet_emulator (\<lambda>_. spell_stream) \<lparr>bin_path = ''/tmp/check'' @ ''/binary'', bin_bytes = ''elf''\<rparr>
      ''echo'' [] (dec 7) () = Some (Inr (quiet_suite_of ''binary''), ())"
    and "length (quiet_suite_of ''binary'') = HIDDEN_N"
    and "pf_image_id quiet_platform () = (Inr ''image'', ())"
    and "cx_run_job quiet_ctx (replay_spec quiet_platform ''image'' ''int main;''
      (map replayed_input ([] @ quiet_suite_of ''binary''))) () = (Inr quiet_result, ())"
    and "\<not> jr_timed_out quiet_result" and "\<not> jr_truncated quiet_result"
    and "(jr_stdout quiet_result, jr_returncode quiet_result)
      = replay_script quiet_cc quiet_emulator ''int main;'' (replay_inputs ([] @ quiet_suite_of ''binary'')) ()"
    and "quiet_cc CFLAGS ''int main;'' = Inr ''elf''"
    and "replay_run quiet_emulator \<lparr>bin_path = ''/work/model'', bin_bytes = ''elf''\<rparr>
      (replay_inputs ([] @ quiet_suite_of ''binary'')) () = ((quiet_suite_of ''model'', 0), ())"
    and "list_all2 same_observables ([] @ quiet_suite_of ''binary'') (quiet_suite_of ''model'')"
    and "\<forall>t \<in> set (quiet_suite_of ''model''). pf_loads_str quiet_platform (dumps (trace_json t)) = Inr (trace_json t)"
proof -
  show "submission quiet_platform (cx_candidate quiet_ctx) = Inr (''int main;'', [])" by (rule quiet_submission)
  show "task_seed quiet_platform (cx_private quiet_ctx) = Inr ''echo''" by (rule quiet_task)
  show "hidden_suite quiet_emulator (\<lambda>_. spell_stream) \<lparr>bin_path = ''/tmp/check'' @ ''/binary'', bin_bytes = ''elf''\<rparr>
      ''echo'' [] (dec 7) () = Some (Inr (quiet_suite_of ''binary''), ())"
    unfolding quiet_hidden using quiet_names by simp
  show "replay_run quiet_emulator \<lparr>bin_path = ''/work/model'', bin_bytes = ''elf''\<rparr>
      (replay_inputs ([] @ quiet_suite_of ''binary'')) () = ((quiet_suite_of ''model'', 0), ())"
    unfolding quiet_inputs_of unfolding quiet_inputs_def by (rule quiet_run)
  show "(jr_stdout quiet_result, jr_returncode quiet_result)
      = replay_script quiet_cc quiet_emulator ''int main;'' (replay_inputs ([] @ quiet_suite_of ''binary'')) ()"
    unfolding quiet_inputs_of
    by (simp add: quiet_result_def replay_script_def quiet_cc_def quiet_inputs_def quiet_run del: upt_rec_numeral)
  show "list_all2 same_observables ([] @ quiet_suite_of ''binary'') (quiet_suite_of ''model'')"
    by (simp add: list_all2_conv_all_nth quiet_same del: upt_rec_numeral)
  show "\<forall>t \<in> set (quiet_suite_of ''model''). pf_loads_str quiet_platform (dumps (trace_json t)) = Inr (trace_json t)"
    using quiet_lines by (auto simp del: upt_rec_numeral)
qed (simp_all add: HIDDEN_N_def quiet_platform_def plain_platform_def quiet_ctx_def
    quiet_result_def quiet_cc_def del: upt_rec_numeral)

lemma quiet_passed:
  "\<exists>vd. program_replay quiet_emulator (\<lambda>_. spell_stream) quiet_platform quiet_ctx () = Some (Inr vd, ())
     \<and> cv_status vd = PASSED"
  by (rule honest_replay [OF quiet_facts])

section \<open>Witnesses\<close>

theorem honest_replay_passes_witness:
  "\<exists>vd. program_replay quiet_emulator (\<lambda>_. spell_stream) quiet_platform quiet_ctx () = Some (Inr vd, ())
     \<and> cv_status vd = PASSED"
  by (rule honest_replay_passes [OF quiet_facts])

theorem program_replay_passed_witness:
  "\<exists>vd src ls. program_replay quiet_emulator (\<lambda>_. spell_stream) quiet_platform quiet_ctx () = Some (Inr vd, ())
     \<and> cv_status vd = PASSED \<and> cv_facts vd = [pr_fact quiet_platform src] \<and> HIDDEN_N \<le> length ls \<and> list_all trace_ok ls"
proof -
  obtain vd where vd: "program_replay quiet_emulator (\<lambda>_. spell_stream) quiet_platform quiet_ctx () = Some (Inr vd, ())"
    "cv_status vd = PASSED" using quiet_passed by blast
  from program_replay_passed [OF vd] obtain src rec hidden ls where
    "length hidden = HIDDEN_N" "list_all2 (\<lambda>t l. trace_ok l \<and> same_observables t (read_trace l)) (rec @ hidden) ls"
    "cv_facts vd = [pr_fact quiet_platform src]" by blast
  moreover from this(2) have "length ls = length rec + length hidden" "list_all trace_ok ls"
    by (auto simp: list_all2_conv_all_nth list_all_length)
  ultimately have "HIDDEN_N \<le> length ls" by simp
  with vd \<open>cv_facts vd = [pr_fact quiet_platform src]\<close> \<open>list_all trace_ok ls\<close> show ?thesis by blast
qed

theorem program_replay_inputs_only_witness:
  "program_replay quiet_emulator (\<lambda>_. spell_stream) quiet_platform
     (quiet_ctx\<lparr>cx_run_job := \<lambda>spec w. if js_argv spec = [''cat'', ''/secret''] then (Inl (RuntimeError ''no''), w)
        else cx_run_job quiet_ctx spec w\<rparr>) ()
   = program_replay quiet_emulator (\<lambda>_. spell_stream) quiet_platform quiet_ctx ()"
  by (rule program_replay_inputs_only) (simp_all add: replay_spec_def)

theorem program_replay_returns_witness:
  "\<exists>r w'. program_replay quiet_emulator (\<lambda>_. ramp) quiet_platform quiet_ctx () = Some (r, w')"
  by (rule program_replay_returns) (rule fair_ramp)

definition bare_ctx :: "unit check_ctx" where
  "bare_ctx = quiet_ctx\<lparr>cx_candidate := []\<rparr>"

lemma bare_rejected:
  "\<exists>v. program_replay quiet_emulator (\<lambda>_. spell_stream) quiet_platform bare_ctx () = Some (Inr v, ()) \<and> cv_status v = REJECTED"
proof -
  let ?fb = "[(''accepted'', JBool False), (''reason'', JStr ''candidate''), (''stage'', JStr ''candidate''),
      (''detail'', JStr ''model.c is missing'')]"
  have cap: "cap 4096 (JObj ?fb) = JObj ?fb"
  proof -
    have "cap_str 4096 t = t" if "length t \<le> 64" for t
      using that str_len_le [of t] by (simp add: cap_str_def)
    then show ?thesis using cap_obj [of 4096 ?fb] by (simp del: cap.simps(7))
  qed
  have "length (dumps_indent True (JObj ?fb)) \<le> 200" by code_simp
  then have "capped quiet_platform ?fb = Inr ?fb"
    unfolding capped_def by (simp add: cap quiet_platform_def plain_platform_def del: cap.simps dump_indent.simps)
  then have "reject_pr quiet_platform ''candidate'' ''candidate'' [(''detail'', JStr ''model.c is missing'')]
      = Inr \<lparr>cv_status = REJECTED, cv_feedback = ?fb, cv_facts = []\<rparr>"
    by (simp add: reject_pr_def)
  moreover have "submission quiet_platform (cx_candidate bare_ctx) = Inl (''candidate'', ''model.c is missing'')"
    by (simp add: submission_def candidate_files_def direct_files_def FILES_def List.map_filter_simps bare_ctx_def)
  ultimately show ?thesis by (simp add: program_replay_def)
qed

theorem program_replay_feedback_fits_witness:
  "\<exists>v. program_replay quiet_emulator (\<lambda>_. spell_stream) quiet_platform bare_ctx () = Some (Inr v, ())
     \<and> length (dumps_indent True (JObj (cv_feedback v))) + 1024 < pf_feedback_limit quiet_platform"
proof -
  obtain v where v: "program_replay quiet_emulator (\<lambda>_. spell_stream) quiet_platform bare_ctx () = Some (Inr v, ())"
    "cv_status v = REJECTED" using bare_rejected by blast
  with program_replay_feedback_fits [OF v] show ?thesis by blast
qed

theorem forged_trace_raises_witness:
  "judge_job (quiet_platform\<lparr>pf_loads_str := \<lambda>_. Inr forged_line\<rparr>) ''int main;'' [quiet_trace ''binary'' []] []
     (quiet_result\<lparr>jr_stdout := ''x''\<rparr>)
   = Inl (AssertionError ''feedback does not fit FEEDBACK_LIMIT at the floor cap'')"
proof (rule forged_trace_raises)
  have "splitlines ''x'' = [''x'']" "utf8_valid ''x''" by code_simp+
  then show "job_lines (quiet_platform\<lparr>pf_loads_str := \<lambda>_. Inr forged_line\<rparr>) (jr_stdout (quiet_result\<lparr>jr_stdout := ''x''\<rparr>))
      = Some [forged_line]"
    by (simp add: job_lines_def decode_def)
qed (simp_all add: quiet_platform_def plain_platform_def quiet_result_def own_trace_def own_event_def quiet_trace_def)

end
