(* ===== verification/Operations.thy ===== *)
theory Operations
  imports Function_Fuzz_Props Replay_Faults
begin

text \<open>
  \<^verbatim>\<open>src/src/reschema/operations.py\<close>: the two probes a worker may ask the host for, \<^verbatim>\<open>experiment\<close> (a run of
  the program) and \<^verbatim>\<open>experiment_function\<close> (a call of the task's function).  The operation context and
  result of the Warranted package are records; the input files are a dictionary.
\<close>

section \<open>Results\<close>

datatype outcome = SUCCEEDED | FAILED

record op_result =
  or_outcome :: outcome
  or_probe :: nat
  or_shown :: "json dict"
  or_files :: "bytes dict"

definition SHOWN_LIMIT :: nat where
  "SHOWN_LIMIT = 64 * 1024"

definition failed :: "nat \<Rightarrow> str \<Rightarrow> op_result" where
  "failed probe why = \<lparr>or_outcome = FAILED, or_probe = probe, or_shown = [(''error'', JStr why)], or_files = []\<rparr>"

definition shown_result :: "json dict \<Rightarrow> bytes dict \<Rightarrow> op_result" where
  "shown_result d fs = \<lparr>or_outcome = SUCCEEDED, or_probe = 1, or_shown = d, or_files = fs\<rparr>"

section \<open>\<^verbatim>\<open>Experiment\<close>\<close>

record probe_args =
  pa_argv :: "str list"
  pa_stdin :: str
  pa_quiet :: bool

definition probe_argv_ok :: "json \<Rightarrow> bool" where
  "probe_argv_ok j =
     (case j of
        JList as \<Rightarrow>
          length as \<le> MAX_ARGS
          \<and> list_all (\<lambda>a. case a of JStr s \<Rightarrow> str_len s \<le> MAX_ARG | _ \<Rightarrow> False) as
          \<and> \<not> list_ex (\<lambda>a. CHR 0x00 \<in> set (as_str a)) as
      | _ \<Rightarrow> False)"

text \<open>\<^verbatim>\<open>stdin.encode()\<close> raises a \<^verbatim>\<open>ValueError\<close> on a lone surrogate.\<close>

definition probe_stdin :: "json \<Rightarrow> str result" where
  "probe_stdin j =
     (case j of
        JStr s \<Rightarrow>
          if \<not> utf8_valid s then Inl (ValueError ''surrogates not allowed'')
          else if length s > MAX_STDIN then Inl (ValueError (''stdin is a string of at most '' @ decn MAX_STDIN @ '' bytes''))
          else Inr s
      | _ \<Rightarrow> Inl (ValueError (''stdin is a string of at most '' @ decn MAX_STDIN @ '' bytes'')))"

definition experiment_parse :: "json \<Rightarrow> probe_args result" where
  "experiment_parse args =
     (case args of
        JObj d \<Rightarrow>
          if \<not> set (map fst d) \<subseteq> {''argv'', ''stdin'', ''quiet''}
          then Inl (ValueError (unquote ''experiment takes {`argv`?, `stdin`?, `quiet`?}''))
          else
            (let argv = get_default d ''argv'' (JList []);
                 stdin = get_default d ''stdin'' (JStr []);
                 quiet = get_default d ''quiet'' (JBool False)
             in if \<not> probe_argv_ok argv
                then Inl (ValueError (''argv is a list of at most '' @ decn MAX_ARGS @ '' strings of ''
                       @ decn MAX_ARG @ '' chars''))
                else
                  bindE (probe_stdin stdin) (\<lambda>s.
                    (case quiet of
                       JBool q \<Rightarrow> Inr \<lparr>pa_argv = map as_str (json_items argv), pa_stdin = s, pa_quiet = q\<rparr>
                     | _ \<Rightarrow> Inl (ValueError ''quiet is a boolean''))))
      | _ \<Rightarrow> Inl (ValueError (unquote ''experiment takes {`argv`?, `stdin`?, `quiet`?}'')))"

definition without_events :: "json dict \<Rightarrow> json dict" where
  "without_events d = filter (\<lambda>(k, v). k \<noteq> ''events'') d"

definition show_trace :: "'w platform \<Rightarrow> bool \<Rightarrow> trace \<Rightarrow> op_result result" where
  "show_trace P quiet t =
     (let d = json_dict (trace_json t);
          shown = (if quiet then without_events d else d);
          brief = without_events d @ [(''events_omitted'', JInt (int (length (tr_events t))))]
      in if length (dumps (JObj shown)) + 1024 \<le> SHOWN_LIMIT then Inr (shown_result shown [])
         else bindE (capped P brief) (\<lambda>b. Inr (shown_result b [(''trace.json'', dumps (JObj d))])))"

definition run_experiment :: "'w emulator \<Rightarrow> 'w platform \<Rightarrow> bytes dict \<Rightarrow> probe_args \<Rightarrow> 'w \<Rightarrow> op_result result \<times> 'w" where
  "run_experiment emu P inputs a w =
     (case pf_tempdir P w of (d, w1) \<Rightarrow>
        (case dict_get inputs ''binary'' of
           Inl e \<Rightarrow> (Inl e, w1)
         | Inr elf \<Rightarrow>
             (case record_stable emu \<lparr>bin_path = d @ ''/prog'', bin_bytes = elf\<rparr> (pa_argv a) (pa_stdin a) w1 of
                (Inl e, w2) \<Rightarrow> (Inl e, w2)
              | (Inr None, w2) \<Rightarrow> (Inr (failed 1 ''flaky: two recordings of this input differ''), w2)
              | (Inr (Some t), w2) \<Rightarrow> (show_trace P (pa_quiet a) t, w2))))"

section \<open>\<^verbatim>\<open>ExperimentFunction\<close>\<close>

text \<open>A value as the driver takes it; \<^verbatim>\<open>None\<close> when \<^verbatim>\<open>_case\<close> refuses it.\<close>

definition probe_value :: "kind \<Rightarrow> json \<Rightarrow> cval option" where
  "probe_value k v =
     (case (k, v) of
        (I32, JInt i) \<Rightarrow> if i32_ok i then Some (VInt i) else None
      | (BufferI32, JInt n) \<Rightarrow> if 0 \<le> n \<and> n \<le> MAX_BUFFER_LEN then Some (VInt n) else None
      | (BufferI32, JList xs) \<Rightarrow>
          if int (length xs) \<le> MAX_BUFFER_LEN \<and> list_all (\<lambda>x. case x of JInt i \<Rightarrow> i32_ok i | _ \<Rightarrow> False) xs
          then Some (VList (map as_int xs)) else None
      | (CString, JStr h) \<Rightarrow>
          (case fromhex h of
             Some b \<Rightarrow> if 0 < length b \<and> length b \<le> MAX_ARG \<and> last b = CHR 0x00 then Some (VBytes b) else None
           | None \<Rightarrow> None)
      | _ \<Rightarrow> None)"

definition probe_value_error :: "param \<Rightarrow> str" where
  "probe_value_error p =
     ''case value for '' @ repr_str (\<lambda>_. True) (p_name p) @ '' ('' @ kind_text (p_kind p)
       @ ''): i32 in range, buffer_i32 a list or length of at most 32 cells, cstring ''
       @ ''NUL-terminated hex of at most '' @ decn MAX_ARG @ '' bytes''"

definition probe_case :: "json \<Rightarrow> param list \<Rightarrow> json dict result" where
  "probe_case c ps =
     (case c of
        JObj d \<Rightarrow>
          if set (map fst d) \<noteq> set (map p_name ps)
          then Inl (ValueError ''case needs exactly one value per param name'')
          else
            (case find (\<lambda>p. probe_value (p_kind p) (field d (p_name p)) = None) ps of
               Some p \<Rightarrow> Inl (ValueError (probe_value_error p))
             | None \<Rightarrow> Inr d)
      | _ \<Rightarrow> Inl (ValueError ''case needs exactly one value per param name''))"

text \<open>The parsed request: the parameters in their wire form and the case.\<close>

type_synonym fn_probe = "json list \<times> json dict"

definition params_error :: "(nat \<Rightarrow> bool) \<Rightarrow> exn \<Rightarrow> exn" where
  "params_error U e =
     (case e of
        NotImplementedError m \<Rightarrow> ValueError (''at most '' @ decn (length BAREGS) @ '' params'')
      | _ \<Rightarrow> if spec_error e then ValueError (''params: '' @ exn_text U e) else e)"

definition experiment_function_parse :: "'w platform \<Rightarrow> json \<Rightarrow> fn_probe result" where
  "experiment_function_parse P args =
     (case args of
        JObj d \<Rightarrow>
          if set (map fst d) \<noteq> {''params'', ''case''}
          then Inl (ValueError (unquote ''experiment_function takes exactly {`params`, `case`}''))
          else
            (case bindE (params_of P (dumps (field d ''params''))) (\<lambda>ps. bindE (guard_arity ps) (\<lambda>_. Inr ps)) of
               Inl e \<Rightarrow> Inl (params_error (pf_printable P) e)
             | Inr ps \<Rightarrow> bindE (probe_case (field d ''case'') ps) (\<lambda>c. Inr (map to_json ps, c)))
      | _ \<Rightarrow> Inl (ValueError (unquote ''experiment_function takes exactly {`params`, `case`}'')))"

definition read_params :: "json list \<Rightarrow> param list result" where
  "read_params js = bindE (mapE (from_json \<circ> json_dict) js) (\<lambda>rs. Inr (map typed rs))"

text \<open>The case of a parsed request: a value that \<^verbatim>\<open>_case\<close> would refuse cannot occur.\<close>

definition driver_case :: "param list \<Rightarrow> json dict \<Rightarrow> case_in result" where
  "driver_case ps c =
     mapE (\<lambda>p. bindE (dict_get c (p_name p)) (\<lambda>v.
       (case probe_value (p_kind p) v of
          Some x \<Rightarrow> Inr (p_name p, x)
        | None \<Rightarrow> Inl (ValueError (probe_value_error p))))) ps"

definition hexed :: "fn_trace \<Rightarrow> json dict" where
  "hexed t =
     [(''ret'', JInt (ft_ret t)), (''mem'', JObj (map (map_prod id wire_val) (ft_mem t))),
      (''exit_code'', JInt (ft_exit_code t)), (''events'', JList (map event_json (ft_events t)))]"

definition show_call :: "'w platform \<Rightarrow> fn_trace \<Rightarrow> op_result result" where
  "show_call P t =
     (if length (dumps (JObj (hexed t))) + 1024 > SHOWN_LIMIT
      then bindE (capped P (hexed t)) (\<lambda>b. Inr (shown_result b []))
      else Inr (shown_result (hexed t) []))"

definition probe_target :: "'w platform \<Rightarrow> bytes dict \<Rightarrow> int option result" where
  "probe_target P inputs =
     bindE (dict_get inputs ''task.json'') (\<lambda>raw.
     bindE (pf_loads P raw) (\<lambda>t.
       (case t of
          JObj d \<Rightarrow>
            (case map_of d ''function'' of
               None \<Rightarrow> Inr None
             | Some JNull \<Rightarrow> Inr None
             | Some fn \<Rightarrow>
                 bindE (item ''addr'' fn) (\<lambda>a. (case a of JInt i \<Rightarrow> Inr (Some i) | _ \<Rightarrow> Inl (TypeError ''addr''))))
        | _ \<Rightarrow> Inl (AttributeError ''get''))))"

definition call_twice ::
    "('vm, 'snap, 'w) qiling \<Rightarrow> 'w platform \<Rightarrow> bytes \<Rightarrow> int \<Rightarrow> param list \<Rightarrow> case_in \<Rightarrow> 'w \<Rightarrow> op_result result \<times> 'w" where
  "call_twice Q P elf addr ps c w =
     (case call_original Q elf addr ps c w of
        (Inl e, w1) \<Rightarrow> (Inl e, w1)
      | (Inr a, w1) \<Rightarrow>
          (case call_original Q elf addr ps c w1 of
             (Inl e, w2) \<Rightarrow> (Inl e, w2)
           | (Inr b, w2) \<Rightarrow>
               (if hexed a \<noteq> hexed b then Inr (failed 1 ''flaky: two calls on this case differ'')
                else show_call P a, w2)))"

definition experiment_function ::
    "('vm, 'snap, 'w) qiling \<Rightarrow> 'w platform \<Rightarrow> bytes dict \<Rightarrow> fn_probe \<Rightarrow> 'w \<Rightarrow> op_result result \<times> 'w" where
  "experiment_function Q P inputs req w =
     (case probe_target P inputs of
        Inl e \<Rightarrow> (Inl e, w)
      | Inr None \<Rightarrow> (Inr (failed 0 ''experiment_function needs a function task''), w)
      | Inr (Some addr) \<Rightarrow>
          (case bindE (read_params (fst req)) (\<lambda>ps. bindE (driver_case ps (snd req)) (\<lambda>c.
                  bindE (dict_get inputs ''binary'') (\<lambda>elf. Inr (ps, c, elf)))) of
             Inl e \<Rightarrow> (Inl e, w)
           | Inr (ps, c, elf) \<Rightarrow> call_twice Q P elf addr ps c w))"

end
