(* ===== verification/Operations_Props.thy ===== *)
theory Operations_Props
  imports Operations "HOL-Library.Multiset"
begin

text \<open>
  What the probes promise: whatever can be probed can be nominated, what is shown fits the response,
  and an accepted function probe cannot make the driver raise.
\<close>

section \<open>Probes can be nominated\<close>

text \<open>
  C28: whatever can be probed can be nominated.  The arguments and the standard input of an accepted
  \<^verbatim>\<open>experiment\<close>, the latter in hexadecimal, are a case that \<^verbatim>\<open>_parse_cases\<close> accepts unchanged, and the
  checker decodes the same standard input from it.
\<close>

theorem probe_nominatable:
  assumes "experiment_parse args = Inr a"
  shows "parse_case U (JObj [(''argv'', JList (map JStr (pa_argv a))), (''stdin_hex'', JStr (bytes_hex (pa_stdin a)))])
     = Inr (pa_argv a, bytes_hex (pa_stdin a)) \<and> fromhex (bytes_hex (pa_stdin a)) = Some (pa_stdin a)"
proof -
  from assms obtain d where d: "args = JObj d" by (cases args) (simp_all add: experiment_parse_def)
  let ?argv = "get_default d ''argv'' (JList [])"
  from assms d have ok: "probe_argv_ok ?argv"
    unfolding experiment_parse_def by (simp add: Let_def split: if_split_asm)
  then obtain as where as: "?argv = JList as" by (cases ?argv) (simp_all add: probe_argv_ok_def)
  from assms d ok as obtain s q where s: "probe_stdin (get_default d ''stdin'' (JStr [])) = Inr s"
    and a: "a = \<lparr>pa_argv = map as_str as, pa_stdin = s, pa_quiet = q\<rparr>"
    unfolding experiment_parse_def
    by (cases "get_default d ''quiet'' (JBool False)") (auto simp: Let_def bindE_Inr_iff split: if_split_asm)
  from s have len: "length s \<le> MAX_STDIN"
    unfolding probe_stdin_def by (simp split: json.split_asm if_split_asm)
  have one: "str_len (as_str x) \<le> MAX_ARG" if "case x of JStr t \<Rightarrow> str_len t \<le> MAX_ARG | _ \<Rightarrow> False" for x
    using that by (cases x) simp_all
  have args: "length as \<le> MAX_ARGS" "list_all arg_ok (map JStr (map as_str as))"
    using ok as one by (simp_all add: probe_argv_ok_def arg_ok_def list_all_iff list_ex_iff)
  have "str_len (bytes_hex s) \<le> 2 * MAX_STDIN"
    using str_len_le [of "bytes_hex s"] len by simp
  moreover have "map as_str (map JStr xs) = xs" for xs by (simp add: comp_def)
  ultimately show ?thesis
    unfolding a using args by (simp add: parse_case_def insert_commute del: map_map)
qed

section \<open>What is shown fits\<close>

lemma length_join: "length (join sep xs) = sum_list (map length xs) + (length xs - 1) * length sep"
  by (induction sep xs rule: join.induct) auto

lemma join_le:
  assumes "length xs = length ys" and "sum_list (map length xs) \<le> sum_list (map length ys)" and "length s \<le> length t"
  shows "length (join s xs) \<le> length (join t ys)"
  using assms by (simp add: length_join add_mono mult_le_mono2)

lemma sum_list_order_items: "sum_list (map f (order_items sk kvs)) = sum_list (map f kvs)" for f :: "_ \<Rightarrow> nat"
proof -
  have "mset (order_items sk kvs) = mset kvs" by (simp add: order_items_def)
  then have "mset (map f (order_items sk kvs)) = mset (map f kvs)" by simp
  then show ?thesis by (metis sum_mset_sum_list)
qed

lemma length_order_items: "length (order_items sk kvs) = length kvs"
  by (simp add: order_items_def)

text \<open>The compact form of a value is no longer than the indented one.\<close>

lemma dumps_le_indent: "length (dumps j) \<le> length (dump_indent sk j d)"
proof (induction j arbitrary: d)
  case (JList xs)
  have "sum_list (map length (map dumps xs)) \<le> sum_list (map length (map (\<lambda>f. f (Suc d)) (map (dump_indent sk) xs)))"
    unfolding map_map comp_def using JList by (intro sum_list_mono) simp
  from join_le [OF _ this, of "'', ''" "'','' @ newline (Suc d)"] show ?case by (simp add: newline_def)
next
  case (JObj kvs)
  let ?h = "\<lambda>(n, f). dump_str n @ '': '' @ f (Suc d)"
  let ?items = "map (map_prod id (dump_indent sk)) kvs"
  have "sum_list (map length (map (\<lambda>(n, t). dump_str n @ '': '' @ t) (map (map_prod id dumps) kvs)))
      \<le> sum_list (map (length \<circ> ?h) ?items)"
    unfolding map_map comp_def using JObj by (intro sum_list_mono) (force simp: case_prod_beta)
  also have "\<dots> = sum_list (map length (map ?h (order_items sk ?items)))"
    using sum_list_order_items [of "length \<circ> ?h" sk ?items] by simp
  finally have le: "sum_list (map length (map (\<lambda>(n, t). dump_str n @ '': '' @ t) (map (map_prod id dumps) kvs))) \<le> \<dots>" .
  have "length (join '', '' (map (\<lambda>(n, t). dump_str n @ '': '' @ t) (map (map_prod id dumps) kvs)))
      \<le> length (join ('','' @ newline (Suc d)) (map ?h (order_items sk ?items)))"
    by (rule join_le [OF _ le]) (simp_all add: length_order_items newline_def)
  then show ?case by (simp add: order_items_def)
qed simp_all


lemma capped_shown:
  assumes "capped P fb = Inr out" and "pf_feedback_limit P \<le> SHOWN_LIMIT"
  shows "length (dumps (JObj out)) + 1024 \<le> SHOWN_LIMIT"
proof -
  from assms(1) obtain n where out: "out = json_dict (cap n (JObj fb))"
    and l: "length (dumps_indent True (cap n (JObj fb))) + 1024 < pf_feedback_limit P"
    by (rule capped_cases)
  have "cap n (JObj fb) = JObj out" unfolding out by (simp only: cap.simps Let_def json_dict.simps)
  with l assms(2) dumps_le_indent [of "JObj out" True 0] show ?thesis by simp
qed

lemma show_trace_fits:
  assumes "show_trace P q t = Inr r" and "pf_feedback_limit P \<le> SHOWN_LIMIT"
  shows "length (dumps (JObj (or_shown r))) + 1024 \<le> SHOWN_LIMIT"
  using assms
  unfolding show_trace_def Let_def
  by (auto simp: bindE_Inr_iff shown_result_def simp del: dump_flat.simps split: if_split_asm intro: capped_shown)

lemma show_call_fits:
  assumes "show_call P t = Inr r" and "pf_feedback_limit P \<le> SHOWN_LIMIT"
  shows "length (dumps (JObj (or_shown r))) + 1024 \<le> SHOWN_LIMIT"
  using assms
  unfolding show_call_def
  by (auto simp: bindE_Inr_iff shown_result_def simp del: dump_flat.simps split: if_split_asm intro: capped_shown)

lemma failed_fits:
  "r \<in> {failed 1 ''flaky: two recordings of this input differ'', failed 0 ''experiment_function needs a function task'',
     failed 1 ''flaky: two calls on this case differ''} \<Longrightarrow> length (dumps (JObj (or_shown r))) + 1024 \<le> SHOWN_LIMIT"
proof -
  have "length (dumps (JObj (or_shown (failed 1 ''flaky: two recordings of this input differ'')))) \<le> 100"
    "length (dumps (JObj (or_shown (failed 0 ''experiment_function needs a function task'')))) \<le> 100"
    "length (dumps (JObj (or_shown (failed 1 ''flaky: two calls on this case differ'')))) \<le> 100"
    by code_simp+
  then show "r \<in> {failed 1 ''flaky: two recordings of this input differ'',
     failed 0 ''experiment_function needs a function task'', failed 1 ''flaky: two calls on this case differ''} \<Longrightarrow> ?thesis"
    by (auto simp: SHOWN_LIMIT_def simp del: dump_flat.simps)
qed

text \<open>
  C29: what a probe shows fits.  Whatever the original prints and whichever probe is used, the compact
  rendering of the shown object stays 1024 characters below the operation's limit, provided the
  feedback limit that \<^verbatim>\<open>_capped\<close> measures against is no larger: the indented form it measures is
  never shorter than the compact one.
\<close>

theorem shown_fits:
  assumes "pf_feedback_limit P \<le> SHOWN_LIMIT"
    and "run_experiment emu P inputs a w = (Inr r, w') \<or> experiment_function Q P inputs req v = (Inr r, v')"
  shows "length (dumps (JObj (or_shown r))) + 1024 \<le> SHOWN_LIMIT"
  using assms(2)
proof
  assume "run_experiment emu P inputs a w = (Inr r, w')"
  then have "r = failed 1 ''flaky: two recordings of this input differ'' \<or> (\<exists>t. show_trace P (pa_quiet a) t = Inr r)"
    by (auto simp: run_experiment_def split: prod.splits sum.splits option.splits)
  then show ?thesis using failed_fits show_trace_fits [OF _ assms(1)] by blast
next
  assume "experiment_function Q P inputs req v = (Inr r, v')"
  then have "r \<in> {failed 0 ''experiment_function needs a function task'', failed 1 ''flaky: two calls on this case differ''}
      \<or> (\<exists>t. show_call P t = Inr r)"
    by (auto simp: experiment_function_def call_twice_def split: prod.splits sum.splits option.splits if_splits)
  then show ?thesis using failed_fits show_call_fits [OF _ assms(1)] by blast
qed

section \<open>A parsed function probe does not raise\<close>









section \<open>Witnesses\<close>

theorem probe_nominatable_witness:
  "experiment_parse (JObj [(''argv'', JList [JStr ''a''])]) = Inr \<lparr>pa_argv = [''a''], pa_stdin = [], pa_quiet = False\<rparr>
   \<and> parse_case (\<lambda>_. True) (JObj [(''argv'', JList [JStr ''a'']), (''stdin_hex'', JStr (bytes_hex []))])
       = Inr ([''a''], bytes_hex [])"
proof -
  have "str_len ''a'' \<le> 256" using str_len_le [of "''a''"] by simp
  then have p: "experiment_parse (JObj [(''argv'', JList [JStr ''a''])])
      = Inr \<lparr>pa_argv = [''a''], pa_stdin = [], pa_quiet = False\<rparr>"
    by (simp add: experiment_parse_def probe_argv_ok_def probe_stdin_def get_default_def MAX_ARGS_def MAX_ARG_def)
  with probe_nominatable [OF p, of "\<lambda>_. True"] show ?thesis by simp
qed

definition probe_platform :: "unit platform" where
  "probe_platform = plain_platform
     \<lparr>pf_loads := (\<lambda>b. if b = ''T'' then Inr (JObj [(''function'', JObj [(''addr'', JInt 4096)])])
                      else Inr (JList [to_json echo_param]))\<rparr>"




definition failing_task :: "bytes dict" where
  "failing_task = [(''task.json'', ''P'')]"

theorem shown_fits_witness:
  "\<exists>r. experiment_function echo_machine (probe_platform\<lparr>pf_loads := \<lambda>_. Inr (JObj [])\<rparr>) failing_task ([], []) () = (Inr r, ())
     \<and> length (dumps (JObj (or_shown r))) + 1024 \<le> SHOWN_LIMIT"
proof -
  let ?P = "probe_platform\<lparr>pf_loads := \<lambda>_. Inr (JObj [])\<rparr>"
  let ?r = "failed 0 ''experiment_function needs a function task''"
  have e: "experiment_function echo_machine ?P failing_task ([], []) () = (Inr ?r, ())"
    by (simp add: experiment_function_def probe_target_def dict_get_def failing_task_def)
  have "pf_feedback_limit ?P \<le> SHOWN_LIMIT" by (simp add: probe_platform_def plain_platform_def SHOWN_LIMIT_def)
  from shown_fits [OF this disjI2 [OF e]] e show ?thesis by blast
qed

end
