(* ===== verification/Native_Worker.thy ===== *)
theory Native_Worker
  imports Function_Fuzz_Props
begin

text \<open>
  \<^verbatim>\<open>src/src/reschema/driver/native_worker.py\<close>: the program that a job runs on the agent's C.  What it does
  not do itself is a record of parameters: running a compiler, writing a file, loading a shared
  object, calling one of its functions in a forked child, and decoding JSON.  The called code shares
  the child's pipe, so it may write to it before it returns, exits or dies.
\<close>

section \<open>The container\<close>

datatype c_arg = CInt int | CBytes bytes | CCells "int list"

datatype native_end =
    NReturn bytes int "c_arg list"
  | NExit bytes
  | NSignal int
  | NHang

record 'v container =
  ct_sh :: "str list \<Rightarrow> nat \<Rightarrow> 'v \<Rightarrow> (int \<times> str) result \<times> 'v"
  ct_write :: "str \<Rightarrow> str \<Rightarrow> 'v \<Rightarrow> 'v"
  ct_load :: "str \<Rightarrow> 'v \<Rightarrow> (str + (string \<Rightarrow> bool)) \<times> 'v"
  ct_call :: "str \<Rightarrow> string \<Rightarrow> c_arg list \<Rightarrow> 'v \<Rightarrow> native_end \<times> 'v"
  ct_loads :: "bytes \<Rightarrow> json result"
  ct_pipe :: nat

definition STATIC :: "str list" where
  "STATIC = [''-O1'', ''-static'', ''-fno-pie'', ''-no-pie'', ''-g0'']"

section \<open>One call\<close>

text \<open>
  The value of a parameter in a decoded case: \<^verbatim>\<open>bytes.fromhex\<close> of a string, otherwise as it came.
\<close>

datatype job_val = JV json | JVBytes bytes

definition decode_job_case :: "param list \<Rightarrow> json \<Rightarrow> (string \<times> job_val) list result" where
  "decode_job_case ps c =
     mapE (\<lambda>p. bindE (item (p_name p) c) (\<lambda>v.
       if p_kind p = CString
       then (case v of
               JStr s \<Rightarrow> (case fromhex s of Some b \<Rightarrow> Inr (p_name p, JVBytes b)
                         | None \<Rightarrow> Inl (ValueError ''non-hexadecimal number found in fromhex() arg''))
             | _ \<Rightarrow> Inl (TypeError ''fromhex() argument must be str''))
       else Inr (p_name p, JV v))) ps"

text \<open>The ctypes argument; integers wrap.  \<^verbatim>\<open>None\<close>: building it raises in the child.\<close>

definition c_arg_of :: "param \<Rightarrow> job_val \<Rightarrow> c_arg option" where
  "c_arg_of p v =
     (case (p_kind p, v) of
        (I32, JV (JInt i)) \<Rightarrow> Some (CInt (c_int32 i))
      | (CString, JVBytes b) \<Rightarrow> Some (CBytes b)
      | (BufferI32, JV (JList xs)) \<Rightarrow>
          if list_all is_int xs then Some (CCells (map (c_int32 \<circ> as_int) xs)) else None
      | _ \<Rightarrow> None)"

fun c_json :: "c_arg \<Rightarrow> json" where
  "c_json (CInt i) = JInt i"
| "c_json (CBytes b) = JStr (bytes_hex b)"
| "c_json (CCells xs) = JList (map JInt xs)"

definition watched :: "param list \<Rightarrow> c_arg list \<Rightarrow> json dict" where
  "watched ps as = map (\<lambda>(p, a). (p_name p, c_json a)) (filter (\<lambda>(p, a). p_kind p \<noteq> I32) (zip ps as))"

definition call_output :: "param list \<Rightarrow> int \<Rightarrow> c_arg list \<Rightarrow> json" where
  "call_output ps r as = JObj [(''ret'', JInt (c_int32 r)), (''mem'', JObj (watched ps as))]"

fun c_args :: "param list \<Rightarrow> (string \<times> job_val) list \<Rightarrow> c_arg list option" where
  "c_args [] c = Some []"
| "c_args (p # ps) c =
     (case map_of c (p_name p) of
        None \<Rightarrow> None
      | Some v \<Rightarrow> (case (c_arg_of p v, c_args ps c) of (Some a, Some as) \<Rightarrow> Some (a # as) | _ \<Rightarrow> None))"

text \<open>
  The child: what reaches the pipe, or how it ended.  A Python exception leaves the pipe as it is.
  The parent reads only after the child has ended, so a child whose output does not fit the pipe
  (\<^verbatim>\<open>ct_pipe\<close> bytes) blocks in \<^verbatim>\<open>os.write\<close> until it is killed.
\<close>

datatype child_end = Wrote bytes | Signalled int | TimedOut

definition child :: "'v container \<Rightarrow> str \<Rightarrow> string \<Rightarrow> param list \<Rightarrow> (string \<times> job_val) list \<Rightarrow> 'v \<Rightarrow> child_end \<times> 'v" where
  "child C so fname ps c v =
     (case ct_load C so v of
        (Inl e, v1) \<Rightarrow> (Wrote [], v1)
      | (Inr syms, v1) \<Rightarrow>
          if \<not> syms fname then (Wrote [], v1)
          else
            (case c_args ps c of
               None \<Rightarrow> (Wrote [], v1)
             | Some as \<Rightarrow>
                 (case ct_call C so fname as v1 of
                    (NReturn pre r after, v2) \<Rightarrow>
                      (let out = pre @ dumps (call_output ps r after) in
                       (if length out \<le> ct_pipe C then Wrote out else TimedOut, v2))
                  | (NExit pre, v2) \<Rightarrow> (Wrote pre, v2)
                  | (NSignal s, v2) \<Rightarrow> (Signalled s, v2)
                  | (NHang, v2) \<Rightarrow> (TimedOut, v2))))"

definition crash :: "json \<Rightarrow> json" where
  "crash j = JObj [(''crash'', j)]"

text \<open>\<^verbatim>\<open>except ValueError\<close>: what else the decoder raises (too deep a nesting) ends the worker.\<close>

fun value_error :: "exn \<Rightarrow> bool" where
  "value_error (ValueError m) = True"
| "value_error UnicodeDecodeError = True"
| "value_error _ = False"

definition run_case_native ::
    "'v container \<Rightarrow> str \<Rightarrow> string \<Rightarrow> param list \<Rightarrow> (string \<times> job_val) list \<Rightarrow> 'v \<Rightarrow> json result \<times> 'v" where
  "run_case_native C so fname ps c v =
     (case child C so fname ps c v of
        (TimedOut, v1) \<Rightarrow> (Inr (crash (JObj [(''timeout'', JBool True)])), v1)
      | (Signalled s, v1) \<Rightarrow> (Inr (crash (JObj [(''signal'', JInt s)])), v1)
      | (Wrote d, v1) \<Rightarrow>
          (let data = take (2 ^ 20) d in
           (if data = [] then Inr (crash (JObj [(''error'', JStr ''no output'')]))
            else (case ct_loads C data of
                    Inr j \<Rightarrow> Inr j
                  | Inl e \<Rightarrow>
                      if value_error e
                      then Inr (crash (JObj [(''error'', JStr (''unparseable child output: '' @ repr_bytes (take 100 data)))]))
                      else Inl e), v1)))"

section \<open>The modes\<close>

definition compile_shared :: "'v container \<Rightarrow> str \<Rightarrow> str \<Rightarrow> 'v \<Rightarrow> json dict option result \<times> 'v" where
  "compile_shared C src so v =
     (case ct_sh C [''gcc'', ''-O1'', ''-shared'', ''-fPIC'', src, ''-o'', so] 60 v of (r, v1) \<Rightarrow>
        (bindE r (\<lambda>(rc, err). Inr (if rc = 0 then None
           else Some [(''stage'', JStr ''compile''), (''stderr'', JStr err)])), v1))"

definition symbol_check :: "'v container \<Rightarrow> str \<Rightarrow> string \<Rightarrow> 'v \<Rightarrow> json dict option \<times> 'v" where
  "symbol_check C so fname v =
     (case ct_load C so v of
        (Inl e, v1) \<Rightarrow> (Some [(''stage'', JStr ''link''), (''detail'', JStr e)], v1)
      | (Inr syms, v1) \<Rightarrow>
          (if syms fname then None
           else Some [(''stage'', JStr ''symbol''),
                      (''detail'', JStr ([CHR 0x27] @ fname @ [CHR 0x27] @ '' not defined by submission''))], v1))"

text \<open>The loop over the cases: it stops after the first result that is a crash.\<close>

fun run_cases_native ::
    "'v container \<Rightarrow> str \<Rightarrow> string \<Rightarrow> param list \<Rightarrow> (string \<times> job_val) list list \<Rightarrow> 'v \<Rightarrow> json list result \<times> 'v" where
  "run_cases_native C so fname ps [] v = (Inr [], v)"
| "run_cases_native C so fname ps (c # cs) v =
     (case run_case_native C so fname ps c v of
        (Inl e, v1) \<Rightarrow> (Inl e, v1)
      | (Inr r, v1) \<Rightarrow>
        (case contains ''crash'' r of
           Inl e \<Rightarrow> (Inl e, v1)
         | Inr True \<Rightarrow> (Inr [r], v1)
         | Inr False \<Rightarrow>
             (case run_cases_native C so fname ps cs v1 of (rs, v2) \<Rightarrow> (bindE rs (\<lambda>rs. Inr (r # rs)), v2))))"

definition validate_mode ::
    "'v container \<Rightarrow> string \<Rightarrow> param list \<Rightarrow> json list \<Rightarrow> 'v \<Rightarrow> json dict result \<times> 'v" where
  "validate_mode C fname ps cases v =
     (let base = ''/work/'' @ fname; so = base @ ''.so'' in
      case compile_shared C (base @ ''.c'') so v of
        (Inl e, v1) \<Rightarrow> (Inl e, v1)
      | (Inr (Some err), v1) \<Rightarrow> (Inr err, v1)
      | (Inr None, v1) \<Rightarrow>
          (case symbol_check C so fname v1 of
             (Some err, v2) \<Rightarrow> (Inr err, v2)
           | (None, v2) \<Rightarrow>
               (case mapE (decode_job_case ps) cases of
                  Inl e \<Rightarrow> (Inl e, v2)
                | Inr cs \<Rightarrow>
                    (case run_cases_native C so fname ps cs v2 of (rs, v3) \<Rightarrow>
                       (bindE rs (\<lambda>rs. Inr [(''ok'', JBool True), (''results'', JList rs)]), v3)))))"

text \<open>
  The other modes work for the corpus build; their jobs are host-built, so the fields of a job are
  read at once.
\<close>

record build_job =
  bj_src_path :: "str option"
  bj_c_source :: str
  bj_out :: str
  bj_compiler :: str
  bj_flags :: "str list"

definition read_build_job :: "json \<Rightarrow> build_job" where
  "read_build_job j =
     (let d = json_dict j in
      \<lparr>bj_src_path = map_option as_str (map_of d ''src_path''), bj_c_source = as_str (get_default d ''c_source'' JNull),
       bj_out = as_str (get_default d ''out'' JNull), bj_compiler = as_str (get_default d ''compiler'' JNull),
       bj_flags = (case get_default d ''flags'' JNull of JList fs \<Rightarrow> map as_str fs | _ \<Rightarrow> [])\<rparr>)"

definition source_path :: "build_job \<Rightarrow> str" where
  "source_path j =
     (case bj_src_path j of
        Some s \<Rightarrow> if take 1 s = ''/'' then s else ''/app/'' @ s
      | None \<Rightarrow> ''/work/'' @ bj_out j @ ''.c'')"

definition place_source :: "'v container \<Rightarrow> build_job \<Rightarrow> 'v \<Rightarrow> 'v" where
  "place_source C j v = (if bj_src_path j = None then ct_write C (source_path j) (bj_c_source j) v else v)"

definition compile_line :: "build_job \<Rightarrow> str list" where
  "compile_line j = bj_compiler j # bj_flags j @ [source_path j, ''-o'', ''/work/'' @ bj_out j]"

fun compile_jobs :: "'v container \<Rightarrow> build_job list \<Rightarrow> 'v \<Rightarrow> json list result \<times> 'v" where
  "compile_jobs C [] v = (Inr [], v)"
| "compile_jobs C (j # js) v =
     (case ct_sh C (compile_line j) 120 (place_source C j v) of
        (Inl e, v1) \<Rightarrow> (Inl e, v1)
      | (Inr (rc, err), v1) \<Rightarrow>
          (case compile_jobs C js v1 of (rs, v2) \<Rightarrow>
             (bindE rs (\<lambda>rs. Inr (JObj [(''out'', JStr (bj_out j)), (''rc'', JInt rc), (''stderr'', JStr err)] # rs)), v2)))"

fun strip_files :: "'v container \<Rightarrow> str list \<Rightarrow> 'v \<Rightarrow> json list result \<times> 'v" where
  "strip_files C [] v = (Inr [], v)"
| "strip_files C (f # fs) v =
     (case ct_sh C [''strip'', ''-s'', ''/work/'' @ f] 60 v of
        (Inl e, v1) \<Rightarrow> (Inl e, v1)
      | (Inr (rc, err), v1) \<Rightarrow>
          (case strip_files C fs v1 of (rs, v2) \<Rightarrow>
             (bindE rs (\<lambda>rs. Inr (JObj [(''file'', JStr f), (''rc'', JInt rc), (''stderr'', JStr err)] # rs)), v2)))"

text \<open>The objects of a link, or the message of the first source that does not compile.\<close>

fun compile_objects :: "'v container \<Rightarrow> (str \<times> str) list \<Rightarrow> 'v \<Rightarrow> str option result \<times> 'v" where
  "compile_objects C [] v = (Inr None, v)"
| "compile_objects C ((name, source) # ss) v =
     (let p = ''/work/'' @ name in
      case ct_sh C (''gcc'' # STATIC @ [''-c'', p @ ''.c'', ''-o'', p @ ''.o'']) 60 (ct_write C (p @ ''.c'') source v) of
        (Inl e, v1) \<Rightarrow> (Inl e, v1)
      | (Inr (rc, err), v1) \<Rightarrow> if rc \<noteq> 0 then (Inr (Some err), v1) else compile_objects C ss v1)"

definition link_result :: "bool \<Rightarrow> str \<Rightarrow> json dict" where
  "link_result ok err = [(''ok'', JBool ok), (''stderr'', JStr err)]"

definition compile_link :: "'v container \<Rightarrow> (str \<times> str) list \<Rightarrow> str \<Rightarrow> 'v \<Rightarrow> json dict result \<times> 'v" where
  "compile_link C sources out v =
     (case compile_objects C sources v of
        (Inl e, v1) \<Rightarrow> (Inl e, v1)
      | (Inr (Some err), v1) \<Rightarrow> (Inr (link_result False err), v1)
      | (Inr None, v1) \<Rightarrow>
          (case ct_sh C (''gcc'' # STATIC @ map (\<lambda>(n, _). ''/work/'' @ n @ ''.o'') sources @ [''-o'', ''/work/'' @ out]) 60 v1 of
             (r, v2) \<Rightarrow> (bindE r (\<lambda>(rc, err). Inr (link_result (rc = 0) err)), v2)))"

definition list_field :: "json dict \<Rightarrow> string \<Rightarrow> json list" where
  "list_field d k = (case map_of d k of Some (JList xs) \<Rightarrow> xs | _ \<Rightarrow> [])"

definition str_field :: "json dict \<Rightarrow> string \<Rightarrow> str" where
  "str_field d k = as_str (get_default d k JNull)"

definition run_mode :: "'v container \<Rightarrow> (nat \<Rightarrow> bool) \<Rightarrow> json dict \<Rightarrow> 'v \<Rightarrow> json dict result \<times> 'v" where
  "run_mode C U job v =
     (let mode = str_field job ''mode''; fname = str_field job ''fname'' in
      if mode = ''validate'' then
        (let v1 = ct_write C (''/work/'' @ fname @ ''.c'') (str_field job ''c_source'') v in
         case job_params job of
           Inl e \<Rightarrow> (Inl e, v1)
         | Inr ps \<Rightarrow> validate_mode C fname ps (list_field job ''cases'') v1)
      else if mode = ''compile-link'' then
        compile_link C (map (map_prod id as_str) (json_dict (get_default job ''sources'' JNull))) (str_field job ''out'') v
      else if mode = ''compile'' then
        (case compile_jobs C (map read_build_job (list_field job ''jobs'')) v of (r, v1) \<Rightarrow>
           (bindE r (\<lambda>rs. Inr [(''results'', JList rs)]), v1))
      else if mode = ''strip'' then
        (case strip_files C (map as_str (list_field job ''files'')) v of (r, v1) \<Rightarrow>
           (bindE r (\<lambda>rs. Inr [(''results'', JList rs)]), v1))
      else (Inr [(''stage'', JStr ''internal''), (''detail'', JStr (''unknown mode '' @ repr_str U mode))], v))"

text \<open>Standard output and exit status of the program on a job on standard input.\<close>

definition native_main :: "'v container \<Rightarrow> (nat \<Rightarrow> bool) \<Rightarrow> bytes \<Rightarrow> 'v \<Rightarrow> (bytes \<times> int) \<times> 'v" where
  "native_main C U stdin v =
     (case ct_loads C stdin of
        Inl e \<Rightarrow> (([], 1), v)
      | Inr job \<Rightarrow>
          (case run_mode C U (json_dict job) v of
             (Inl e, v1) \<Rightarrow> (([], 1), v1)
           | (Inr out, v1) \<Rightarrow> ((dumps (JObj out), 0), v1)))"

end
