(* ===== verification/Native_Worker_Props.thy ===== *)
theory Native_Worker_Props
  imports Native_Worker
begin

text \<open>
  The function checker seen from both sides: when the native code does on every surviving input what
  the original did, the worker's output is read back as exactly those answers and the check passes.
\<close>

section \<open>Every case of a round has a value of the right kind\<close>

definition carries :: "param list \<Rightarrow> case_in \<Rightarrow> bool" where
  "carries ps c =
     list_all (\<lambda>p. case (p_kind p, map_of c (p_name p)) of
         (I32, Some (VInt i)) \<Rightarrow> True
       | (CString, Some (VBytes b)) \<Rightarrow> True
       | (BufferI32, Some (VList xs)) \<Rightarrow> True
       | _ \<Rightarrow> False) ps"

lemma case_ok_carries: "case_ok ps c \<Longrightarrow> carries ps c"
  by (fastforce simp: case_ok_def carries_def list_all_iff scalar_ok_def memory_ok_def
      split: kind.splits option.splits cval.splits)

lemma scout_case_carries: "params_ok ps \<Longrightarrow> carries ps (scout_case ps raw needle)"
  by (auto simp: carries_def list_all_iff scout_case_value scout_value_def split: kind.splits)

lemma round_carries:
  assumes "params_ok ps" and "gen_inputs ps n s = Some (Inr uniform, s')"
  shows "list_all (carries ps) (map snd (round_cases ps n uniform imms))"
proof -
  have "list_all (case_ok ps) uniform"
    using yields_draw_list [OF yields_gen_case [OF assms(1)], of n] assms(2)
    unfolding gen_inputs_def yields_def by fastforce
  then have "\<forall>c \<in> set uniform. carries ps c" by (auto simp: list_all_iff case_ok_carries)
  moreover have "\<forall>c \<in> set (scout_inputs ps imms). carries ps c"
    using scout_case_carries [OF assms(1)] by (auto simp: scout_inputs_def)
  ultimately show ?thesis
    by (auto simp: round_cases_def merge_scout_cases_def Let_def list_all_iff dest!: in_set_takeD in_set_dropD)
qed

section \<open>The arguments of a call\<close>

fun c_value :: "cval \<Rightarrow> c_arg" where
  "c_value (VInt i) = CInt (c_int32 i)"
| "c_value (VBytes b) = CBytes b"
| "c_value (VList xs) = CCells (map c_int32 xs)"

definition native_args :: "param list \<Rightarrow> case_in \<Rightarrow> c_arg list" where
  "native_args ps c = map (\<lambda>p. c_value (the (map_of c (p_name p)))) ps"

definition job_value :: "cval \<Rightarrow> job_val" where
  "job_value v = (case v of VBytes b \<Rightarrow> JVBytes b | _ \<Rightarrow> JV (wire_val v))"

lemma map_of_wire: "map_of (map (map_prod id wire_val) c) k = map_option wire_val (map_of c k)"
  by (induction c) auto

lemma carriesE:
  assumes "carries ps c" and "p \<in> set ps"
  obtains i where "p_kind p = I32" "map_of c (p_name p) = Some (VInt i)"
  | b where "p_kind p = CString" "map_of c (p_name p) = Some (VBytes b)"
  | xs where "p_kind p = BufferI32" "map_of c (p_name p) = Some (VList xs)"
proof -
  from assms have "case (p_kind p, map_of c (p_name p)) of
         (I32, Some (VInt i)) \<Rightarrow> True
       | (CString, Some (VBytes b)) \<Rightarrow> True
       | (BufferI32, Some (VList xs)) \<Rightarrow> True
       | _ \<Rightarrow> False" by (simp add: carries_def list_all_iff)
  then show thesis
    by (cases "p_kind p"; cases "map_of c (p_name p)"; cases "the (map_of c (p_name p))") (auto intro: that)
qed

lemma decode_job_case_wire:
  assumes "carries ps c"
  shows "decode_job_case ps (wire c) = Inr (map (\<lambda>p. (p_name p, job_value (the (map_of c (p_name p))))) ps)"
  unfolding decode_job_case_def
  by (rule mapE_total) (rule carriesE [OF assms], assumption, simp_all add: wire_def map_of_wire job_value_def dict_get_def)

lemma c_args_wire:
  assumes "carries ps c" and "\<And>p. p \<in> set ps \<Longrightarrow> map_of dc (p_name p) = Some (job_value (the (map_of c (p_name p))))"
  shows "c_args ps dc = Some (native_args ps c)"
  using assms
proof (induction ps)
  case (Cons p ps)
  then have ps: "c_args ps dc = Some (native_args ps c)" by (simp add: carries_def)
  have "c_arg_of p (job_value (the (map_of c (p_name p)))) = Some (c_value (the (map_of c (p_name p))))"
    by (rule carriesE [OF Cons.prems(1), of p])
      (simp_all add: c_arg_of_def job_value_def list_all_iff)
  with ps Cons.prems(2) [of p] show ?case by (simp add: native_args_def)
qed (simp add: native_args_def)

section \<open>A model that behaves as the original did\<close>

text \<open>
  On every pair of an input and the original's trace, in turn: the library loads and has the
  function, and the call returns with nothing written to the pipe, the original's return value
  (unless it is void) and the original's final memory; the report fits the pipe and is read back.
\<close>

fun behaves :: "'v container \<Rightarrow> str \<Rightarrow> string \<Rightarrow> param list \<Rightarrow> (case_in \<times> fn_trace) list \<Rightarrow> 'v \<Rightarrow> bool" where
  "behaves C so f ps [] v = True"
| "behaves C so f ps ((c, t) # kept) v =
     (\<exists>syms v1 r as v2. ct_load C so v = (Inr syms, v1) \<and> syms f
        \<and> ct_call C so f (native_args ps c) v1 = (NReturn [] r as, v2) \<and> length as = length ps
        \<and> (is_void ps \<or> c_int32 r = ft_ret t)
        \<and> watched ps as = map (map_prod id wire_val) (ft_mem t)
        \<and> length (dumps (call_output ps r as)) \<le> min (ct_pipe C) (2 ^ 20)
        \<and> ct_loads C (dumps (call_output ps r as)) = Inr (call_output ps r as)
        \<and> behaves C so f ps kept v2)"

text \<open>An entry that the worker reports and that both the claim's shape check and the comparison accept.\<close>

definition good_entry :: "param list \<Rightarrow> fn_trace \<Rightarrow> json \<Rightarrow> bool" where
  "good_entry ps t g = (value_ok (mem_kinds ps) g \<and> agrees ps t g)"

lemma contains_call_output: "contains ''crash'' (call_output ps r as) = Inr False"
  by (simp add: call_output_def has_key_def)

lemma dumps_call_output_nonempty: "dumps (call_output ps r as) \<noteq> []"
  by (simp add: call_output_def)

lemma run_case_behaves:
  assumes "carries ps c" and "distinct (map p_name ps)"
    and "ct_load C so v = (Inr syms, v1)" "syms f"
    and "ct_call C so f (native_args ps c) v1 = (NReturn [] r as, v2)"
    and "length (dumps (call_output ps r as)) \<le> min (ct_pipe C) (2 ^ 20)"
    and "ct_loads C (dumps (call_output ps r as)) = Inr (call_output ps r as)"
  shows "run_case_native C so f ps (map (\<lambda>p. (p_name p, job_value (the (map_of c (p_name p))))) ps) v
     = (Inr (call_output ps r as), v2)"
proof -
  let ?dc = "map (\<lambda>p. (p_name p, job_value (the (map_of c (p_name p))))) ps"
  have "map_of ?dc (p_name p) = Some (job_value (the (map_of c (p_name p))))" if "p \<in> set ps" for p
    using assms(2) that by (intro map_of_is_SomeI) (auto simp: comp_def)
  then have "c_args ps ?dc = Some (native_args ps c)" by (rule c_args_wire [OF assms(1)])
  with assms(3-6) have "child C so f ps ?dc v = (Wrote (dumps (call_output ps r as)), v2)"
    by (simp add: child_def Let_def)
  then show ?thesis
    using assms(6,7) dumps_call_output_nonempty [of ps r as] by (simp add: run_case_native_def Let_def)
qed

lemma map_fst_watched:
  "length as = length ps \<Longrightarrow> map fst (watched ps as) = map p_name (filter (\<lambda>p. p_kind p \<noteq> I32) ps)"
proof (induction ps arbitrary: as)
  case (Cons p ps)
  then obtain a bs where "as = a # bs" by (cases as) auto
  with Cons show ?case by (simp add: watched_def)
qed (simp add: watched_def)

lemma mem_kinds_lookup:
  "distinct (map p_name ps) \<Longrightarrow> p \<in> set ps \<Longrightarrow> p_kind p \<noteq> I32 \<Longrightarrow> map_of (mem_kinds ps) (p_name p) = Some (p_kind p)"
  by (rule map_of_is_SomeI)
    (auto simp: mem_kinds_def rev_map [symmetric] comp_def intro: distinct_map_filter)

lemma good_call_output:
  assumes "distinct (map p_name ps)" and "mem_shape ps (ft_mem t)" and "length as = length ps"
    and "is_void ps \<or> c_int32 r = ft_ret t" and "watched ps as = map (map_prod id wire_val) (ft_mem t)"
  shows "good_entry ps t (call_output ps r as)"
proof -
  have "agrees ps t (call_output ps r as)"
    using assms(4) by (auto simp: agrees_def call_output_def has_key_def got_value_def dict_get_def assms(5)
        decode_wire [OF assms(1,2)] mem_eq_of_cval)
  moreover have "mem_value_ok (map_of (mem_kinds ps) k) j" if kj: "(k, j) \<in> set (watched ps as)" for k j
  proof -
    from kj assms(5) obtain v where v: "(k, v) \<in> set (ft_mem t)" "j = wire_val v" by auto
    with assms(2) obtain p where "p \<in> set ps" "p_name p = k"
      "p_kind p = CString \<and> (\<exists>b. v = VBytes b) \<or> p_kind p = BufferI32 \<and> (\<exists>xs. v = VList xs)"
      by (auto simp: mem_shape_def)
    with mem_kinds_lookup [OF assms(1)] v(2) show ?thesis
      by (auto simp: mem_value_ok_def list_all_iff)
  qed
  moreover have "set (map fst (watched ps as)) = set (map fst (mem_kinds ps))"
    unfolding map_fst_watched [OF assms(3)] by (simp add: mem_kinds_def image_image)
  ultimately show ?thesis
    by (auto simp: good_entry_def value_ok_def call_output_def list_all_iff)
qed

lemma run_cases_behaves:
  assumes "distinct (map p_name ps)" and "behaves C so f ps kept v"
    and "list_all (\<lambda>(c, t). carries ps c \<and> mem_shape ps (ft_mem t)) kept"
  shows "\<exists>gs v'. run_cases_native C so f ps
       (map (\<lambda>(c, t). map (\<lambda>p. (p_name p, job_value (the (map_of c (p_name p))))) ps) kept) v = (Inr gs, v')
     \<and> list_all2 (\<lambda>(c, t) g. good_entry ps t g) kept gs"
  using assms(2,3)
proof (induction kept arbitrary: v)
  case (Cons ct kept)
  obtain c t where ct: "ct = (c, t)" by fastforce
  with Cons.prems(1) obtain syms v1 r as v2 where b:
    "ct_load C so v = (Inr syms, v1)" "syms f"
    "ct_call C so f (native_args ps c) v1 = (NReturn [] r as, v2)"
    and l: "length as = length ps" and ret: "is_void ps \<or> c_int32 r = ft_ret t"
    and m: "watched ps as = map (map_prod id wire_val) (ft_mem t)"
    and p: "length (dumps (call_output ps r as)) \<le> min (ct_pipe C) (2 ^ 20)"
      "ct_loads C (dumps (call_output ps r as)) = Inr (call_output ps r as)"
    and rest: "behaves C so f ps kept v2" by auto
  from Cons.prems(2) ct have c: "carries ps c" "mem_shape ps (ft_mem t)"
    and k: "list_all (\<lambda>(c, t). carries ps c \<and> mem_shape ps (ft_mem t)) kept" by auto
  from Cons.IH [OF rest k] obtain gs v' where gs:
    "run_cases_native C so f ps
       (map (\<lambda>(c, t). map (\<lambda>p. (p_name p, job_value (the (map_of c (p_name p))))) ps) kept) v2 = (Inr gs, v')"
    "list_all2 (\<lambda>(c, t) g. good_entry ps t g) kept gs" by blast
  have "good_entry ps t (call_output ps r as)" by (rule good_call_output [OF assms(1) c(2) l ret m])
  with gs ct show ?case
    by (auto simp: run_case_behaves [OF c(1) assms(1) b p] contains_call_output)
qed simp

section \<open>The worker's answer\<close>

text \<open>The submission compiles and defines the function.\<close>

definition so_path :: "string \<Rightarrow> str" where
  "so_path f = ''/work/'' @ f @ ''.so''"

definition builds :: "'v container \<Rightarrow> string \<Rightarrow> str \<Rightarrow> 'v \<Rightarrow> 'v \<Rightarrow> bool" where
  "builds C f src v v' =
     (\<exists>err v1 syms. ct_sh C [''gcc'', ''-O1'', ''-shared'', ''-fPIC'', ''/work/'' @ f @ ''.c'', ''-o'', so_path f] 60
          (ct_write C (''/work/'' @ f @ ''.c'') src v) = (Inr (0, err), v1)
        \<and> ct_load C (so_path f) v1 = (Inr syms, v') \<and> syms f)"

lemma job_read:
  "str_field (job_of src f ps cs) ''mode'' = ''validate''" "str_field (job_of src f ps cs) ''fname'' = f"
  "str_field (job_of src f ps cs) ''c_source'' = src" "list_field (job_of src f ps cs) ''cases'' = map wire cs"
  by (simp_all add: str_field_def list_field_def get_default_def job_of_def)

lemma run_mode_behaves:
  assumes "distinct (map p_name ps)" and "builds C f src v v1" and "behaves C (so_path f) f ps kept v1"
    and "list_all (\<lambda>(c, t). carries ps c \<and> mem_shape ps (ft_mem t)) kept"
  shows "\<exists>gs v'. run_mode C U (job_of src f ps (map fst kept)) v
       = (Inr [(''ok'', JBool True), (''results'', JList gs)], v')
     \<and> list_all2 (\<lambda>(c, t) g. good_entry ps t g) kept gs"
proof -
  let ?dc = "\<lambda>c. map (\<lambda>p. (p_name p, job_value (the (map_of c (p_name p))))) ps"
  from run_cases_behaves [OF assms(1,3,4)] obtain gs v' where gs:
    "run_cases_native C (so_path f) f ps (map (?dc \<circ> fst) kept) v1 = (Inr gs, v')"
    "list_all2 (\<lambda>(c, t) g. good_entry ps t g) kept gs" by (auto simp: case_prod_beta' comp_def)
  have carry: "carries ps (fst x)" if "x \<in> set kept" for x
    using assms(4) that by (auto simp: list_all_iff)
  have "mapE (decode_job_case ps \<circ> wire \<circ> fst) kept = Inr (map (?dc \<circ> fst) kept)"
    by (rule mapE_total) (simp add: decode_job_case_wire carry)
  then have dec: "mapE (decode_job_case ps) (map wire (map fst kept)) = Inr (map (?dc \<circ> fst) kept)"
    by (simp add: mapE_map comp_def)
  from assms(2) have "validate_mode C f ps (map wire (map fst kept)) (ct_write C (''/work/'' @ f @ ''.c'') src v)
      = (Inr [(''ok'', JBool True), (''results'', JList gs)], v')"
    using dec gs(1) by (auto simp: builds_def validate_mode_def Let_def compile_shared_def symbol_check_def so_path_def)
  then have "run_mode C U (job_of src f ps (map fst kept)) v = (Inr [(''ok'', JBool True), (''results'', JList gs)], v')"
    by (simp add: run_mode_def job_read job_of_fields(2) del: map_map)
  with gs(2) show ?thesis by blast
qed

section \<open>The check of an honest model\<close>

text \<open>The package's side of a job that ends within its limits.\<close>

definition contained :: "'w container \<Rightarrow> (nat \<Rightarrow> bool) \<Rightarrow> 'w run_job" where
  "contained C U spec w =
     (case native_main C U (js_stdin spec) w of ((out, rc), w1) \<Rightarrow>
        (Inr \<lparr>jr_returncode = rc, jr_timed_out = False, jr_truncated = False, jr_stdout = out, jr_stderr = []\<rparr>, w1))"

lemma good_not_crash: "good_entry ps t g \<Longrightarrow> \<not> keys_are [''crash''] g"
  by (cases g) (auto simp: good_entry_def value_ok_def)

lemma claim_good:
  assumes "list_all2 (\<lambda>(c, t) g. good_entry ps t g) kept gs" and "kept \<noteq> []"
  shows "claim U (JObj [(''ok'', JBool True), (''results'', JList gs)]) ps (length kept) = [(''results'', JList gs)]"
proof -
  have len: "length gs = length kept" using assms(1) by (simp add: list_all2_lengthD)
  have good: "\<exists>t. good_entry ps t g" if "g \<in> set gs" for g
    using assms(1) that by (auto simp: list_all2_conv_all_nth in_set_conv_nth case_prod_beta)
  have ne: "gs \<noteq> []" using assms(2) len by auto
  then have "claim_last U (mem_kinds ps) False (last gs) = Some (last gs)"
    using good [of "last gs"] good_not_crash by (auto simp: claim_last_def good_entry_def)
  moreover have "list_all (value_ok (mem_kinds ps)) (butlast gs)"
    using good by (auto simp: list_all_iff good_entry_def dest!: in_set_butlastD)
  ultimately show ?thesis using ne len by (simp add: claim_def has_key_def Let_def)
qed

lemma honest_job:
  fixes kept :: "((bool \<times> case_in) \<times> fn_trace) list"
  defines "cts \<equiv> map (map_prod snd id) kept"
  assumes "distinct (map p_name ps)" and "kept \<noteq> []"
    and "list_all (\<lambda>(c, t). carries ps c \<and> mem_shape ps (ft_mem t)) cts"
    and "pf_image_id P w = (Inr img, w1)" and "builds C f src w1 w2" and "behaves C (so_path f) f ps cts w2"
    and "ct_loads C (dumps (JObj (job_of src f ps (map fst cts)))) = Inr (JObj (job_of src f ps (map fst cts)))"
    and "\<And>out. fst (run_mode C U (job_of src f ps (map fst cts)) w1) = Inr out \<Longrightarrow>
       pf_loads P (dumps (JObj out)) = Inr (JObj out)"
  shows "\<exists>gs. fst (job_model P (contained C U) (job_of src f ps (map (snd \<circ> fst) kept)) w) = Inr [(''results'', JList gs)]
     \<and> list_all2 (\<lambda>((d, c), t) g. agrees ps t g) kept gs"
proof -
  have fst_cts: "map (snd \<circ> fst) kept = map fst cts" by (simp add: cts_def)
  from run_mode_behaves [OF assms(2,6,7,4)] obtain gs v' where gs:
    "run_mode C U (job_of src f ps (map fst cts)) w1 = (Inr [(''ok'', JBool True), (''results'', JList gs)], v')"
    "list_all2 (\<lambda>(c, t) g. good_entry ps t g) cts gs" by blast
  let ?out = "JObj [(''ok'', JBool True), (''results'', JList gs)]"
  have "pf_loads P (dumps ?out) = Inr ?out" using assms(9) gs(1) by simp
  moreover have "native_main C U (dumps (JObj (job_of src f ps (map fst cts)))) w1 = ((dumps ?out, 0), v')"
    using assms(8) gs(1) by (simp add: native_main_def del: dump_flat.simps)
  ultimately have "fst (job_model P (contained C U) (job_of src f ps (map fst cts)) w)
      = Inr (claim (pf_printable P) ?out ps (length cts))"
    using assms(5) by (simp add: job_model_def worker_job_def contained_def worker_spec_def job_of_fields)
  moreover have "claim (pf_printable P) ?out ps (length cts) = [(''results'', JList gs)]"
    by (rule claim_good [OF gs(2)]) (use assms(3) in \<open>simp add: cts_def\<close>)
  moreover have "list_all2 (\<lambda>((d, c), t) g. agrees ps t g) kept gs"
    using gs(2) unfolding cts_def list_all2_map1
    by (rule list_all2_mono) (auto simp: good_entry_def)
  ultimately show ?thesis using fst_cts by auto
qed

text \<open>
  C3: an honest candidate passes, end to end.  Let a submission be complete and well declared, let
  the drawn round run through the original with no declared memory fault and two distinct surviving
  inputs, and let the job be the native worker in a container where the submission compiles,
  defines the function and does on every surviving input, in turn, what the original did.  When the
  JSON documents that cross the boundary (the job, the children's reports, the answer) are read
  back as they were written, the check passes.
\<close>

theorem honest_native_passes:
  fixes ctx :: "'w check_ctx"
  assumes "task_function P (cx_private ctx) = Inr fn" and "candidate_files P (cx_candidate ctx) = Inr fs"
    and "missing_files fs = []" and "\<not> has_key ''cases.json'' fs" and "declared P fs = Inr (ps, src)"
    and "length ps \<le> 6" and "\<not> compares_nothing ps"
    and "map_of (cx_private ctx) ''binary'' = Some b" and "cx_draw_seed ctx w = (seed, w1)"
    and "gen_inputs ps n (ho_random H (JInt seed)) = Some (Inr uniform, s)"
    and "scrape_immediates (ho_tools H) b (tk_addr fn) (window (tk_size fn)) = Inr imms"
    and "cases = round_cases ps n uniform imms"
    and "batch_call_original (ho_qiling H) (ho_tools H) no_hooks b (tk_addr fn) ps (map snd cases) w1 = (Inr wants, w2)"
    and "\<forall>((d, c), want) \<in> set (zip cases wants). d \<longrightarrow> \<not> is_mem_fault want"
    and "2 \<le> length (distinct_inputs (kept_cases cases wants))"
    and "cts = map (map_prod snd id) (kept_cases cases wants)"
    and "job = job_of src (tk_name fn) ps (map fst cts)"
    and "cx_run_job ctx = contained C U" and "pf_image_id P w2 = (Inr img, w3)"
    and "builds C (tk_name fn) src w3 w4" and "behaves C (so_path (tk_name fn)) (tk_name fn) ps cts w4"
    and "ct_loads C (dumps (JObj job)) = Inr (JObj job)"
    and "\<And>out. fst (run_mode C U job w3) = Inr out \<Longrightarrow> pf_loads P (dumps (JObj out)) = Inr (JObj out)"
  shows "\<exists>v w'. function_fuzz H P n ctx w = Some (Inr v, w') \<and> cv_status v = PASSED"
proof -
  let ?kept = "kept_cases cases wants"
  have ok: "params_ok ps" using assms(5) params_of_ok(1) by (auto simp: declared_def bindE_Inr_iff)
  then have dist: "distinct (map p_name ps)" by (simp add: params_ok_def)
  have ne: "?kept \<noteq> []" using assms(15) by (auto simp: distinct_inputs_def)
  have carry: "carries ps c" if "((d, c), t) \<in> set ?kept" for d c t
    using round_carries [OF ok assms(10), of imms] that assms(12)
    by (fastforce simp: kept_cases_def list_all_iff dest: set_zip_leftD)
  then have all: "list_all (\<lambda>(c, t). carries ps c \<and> mem_shape ps (ft_mem t)) cts"
    using kept_cases_shape [OF assms(13)] unfolding assms(16) by (fastforce simp: list_all_iff)
  from honest_job [where U = U, OF dist ne all [unfolded assms(16)] assms(19,20) assms(21) [unfolded assms(16)]
      assms(22) [unfolded assms(16,17)] assms(23) [unfolded assms(16,17)]]
  have "round_agrees (tk_name fn) ps src (job_model P (cx_run_job ctx)) cases wants w2"
    unfolding round_agrees_def assms(18) using assms(14,15) by (auto simp: has_key_def)
  then obtain v w' where v: "validate_function H b (tk_addr fn) (tk_name fn) ps src (Some (JInt seed)) n (tk_size fn)
       (job_model P (cx_run_job ctx)) w1 = Some (Inr v, w')" "vd_ok v"
    using validate_function_accepts [of H b "tk_addr fn" "tk_name fn" ps src "Some (JInt seed)" n "tk_size fn"
        "job_model P (cx_run_job ctx)" w1] assms(6,7,10-13)
    by (auto simp: effective_seed_def)
  then have "judge_declared H P n ctx fn fs ps src w = Some (Inr (accept_ff P fs fn ps src v), w')"
    using assms(8,9) by (simp add: judge_declared_def dict_get_def)
  then have "function_fuzz H P n ctx w = Some (Inr (accept_ff P fs fn ps src v), w')"
    using assms(1-5) by (simp add: function_fuzz_def)
  then show ?thesis by (simp add: accept_ff_def)
qed

section \<open>What the worker reports is a list the validator admits\<close>

lemma run_cases_shape:
  "run_cases_native C so f ps cs v = (Inr rs, v') \<Longrightarrow>
     length rs \<le> length cs \<and> (cs \<noteq> [] \<longrightarrow> rs \<noteq> [])
     \<and> (\<forall>r \<in> set (butlast rs). contains ''crash'' r = Inr False)
     \<and> (length rs < length cs \<longrightarrow> contains ''crash'' (last rs) = Inr True)"
proof (induction cs arbitrary: v rs)
  case (Cons c cs)
  from Cons.prems obtain r v1 b where r: "run_case_native C so f ps c v = (Inr r, v1)" "contains ''crash'' r = Inr b"
    by (auto split: prod.splits sum.splits)
  show ?case
  proof (cases b)
    case True
    with r Cons.prems show ?thesis by auto
  next
    case False
    with r Cons.prems obtain rs' where rs: "run_cases_native C so f ps cs v1 = (Inr rs', v')" "rs = r # rs'"
      by (auto simp: bindE_Inr_iff split: prod.splits)
    from Cons.IH [OF rs(1)] rs(2) r(2) False show ?thesis by (cases cs) auto
  qed
qed simp

text \<open>
  C40: whatever the submitted code does in its children, a list of results that the worker sends has at
  most one entry per case, at most its last entry is a crash, and it is shorter than the list
  of cases only when it ends in a crash; so the validator's own guard on the list admits it.
\<close>

theorem native_results_admitted:
  assumes "run_cases_native C so f ps cs v = (Inr rs, v')"
  shows "length rs \<le> length cs \<and> (\<forall>r \<in> set (butlast rs). contains ''crash'' r = Inr False)
     \<and> results_ok (Some (JList rs)) (length cs) = Inr True"
  using run_cases_shape [OF assms] by (auto simp: results_ok_def)

section \<open>Concrete runs\<close>

text \<open>
  A container whose compiler always succeeds and whose function returns its argument; its decoder
  knows the job and the two reports.
\<close>

definition echo_report :: "int \<Rightarrow> json" where
  "echo_report i = call_output [echo_param] i [CInt i]"

definition echo_job :: "json dict" where
  "echo_job = job_of ''int f;'' ''f'' [echo_param] [[(''n'', VInt 0)], [(''n'', VInt 1)]]"

definition echo_container :: "unit container" where
  "echo_container =
     \<lparr>ct_sh = (\<lambda>argv t v. (Inr (0, []), v)), ct_write = (\<lambda>p s v. v), ct_load = (\<lambda>so v. (Inr (\<lambda>n. n = ''f''), v)),
      ct_call = (\<lambda>so f as v. case as of [CInt i] \<Rightarrow> (NReturn [] i as, v) | _ \<Rightarrow> (NSignal 11, v)),
      ct_loads = (\<lambda>b. if b = dumps (echo_report 0) then Inr (echo_report 0)
                      else if b = dumps (echo_report 1) then Inr (echo_report 1) else Inr (JObj echo_job)),
      ct_pipe = 65536\<rparr>"

definition native_platform :: "unit platform" where
  "native_platform = echo_platform
     \<lparr>pf_loads := \<lambda>b. if b = ''T'' \<or> b = ''P'' then pf_loads echo_platform b
        else map_sum id JObj (fst (run_mode echo_container (\<lambda>_. True) echo_job ()))\<rparr>"

definition native_ctx :: "unit check_ctx" where
  "native_ctx = echo_ctx\<lparr>cx_run_job := contained echo_container (\<lambda>_. True)\<rparr>"

lemma echo_reports: "dumps (echo_report 0) \<noteq> dumps (echo_report 1)"
proof -
  have "dec 0 = ''0''" "dec 1 = ''1''" by code_simp+
  then show ?thesis by (simp add: echo_report_def call_output_def watched_def echo_param_def c_int32_def order_items_def)
qed

lemma echo_job_text: "dumps (JObj echo_job) \<noteq> dumps (echo_report i)"
  by (simp add: echo_report_def call_output_def echo_job_def job_of_def order_items_def)

lemma native_facts:
  shows "task_function native_platform (cx_private native_ctx) = Inr \<lparr>tk_name = ''f'', tk_addr = 4096, tk_size = None\<rparr>"
    and "candidate_files native_platform (cx_candidate native_ctx) = Inr (cx_candidate echo_ctx)"
    and "missing_files (cx_candidate echo_ctx) = []" and "\<not> has_key ''cases.json'' (cx_candidate echo_ctx)"
    and "declared native_platform (cx_candidate echo_ctx) = Inr ([echo_param], ''int f;'')"
    and "length [echo_param] \<le> 6" and "\<not> compares_nothing [echo_param]"
    and "map_of (cx_private native_ctx) ''binary'' = Some []" and "cx_draw_seed native_ctx () = (7, ())"
    and "gen_inputs [echo_param] 2 (ho_random echo_host (JInt 7)) = Some (Inr (map snd echo_cases), sconst 0)"
    and "ho_tools echo_host = stripped" and "ho_qiling echo_host = echo_machine"
  using echo_task echo_files echo_declared
  by (simp_all add: native_platform_def native_ctx_def task_function_def candidate_files_def declared_def params_of_def
      echo_ctx_def get_default_def missing_files_def has_key_def compares_nothing_def is_void_def echo_param_def [THEN arg_cong [of _ _ p_ret]]
      echo_host_def echo_draw dict_get_def)

lemma echo_report_short: "length (dumps (echo_report 0)) \<le> 40" "length (dumps (echo_report 1)) \<le> 40"
proof -
  have "dec 0 = ''0''" "dec 1 = ''1''" "length (dump_str ''ret'') = 5" "length (dump_str ''mem'') = 5" by code_simp+
  then show "length (dumps (echo_report 0)) \<le> 40" "length (dumps (echo_report 1)) \<le> 40"
    by (simp_all add: echo_report_def call_output_def watched_def echo_param_def c_int32_def order_items_def)
qed

lemma echo_decodes:
  "ct_loads echo_container (dumps (echo_report 0)) = Inr (echo_report 0)"
  "ct_loads echo_container (dumps (echo_report 1)) = Inr (echo_report 1)"
  "ct_loads echo_container (dumps (JObj echo_job)) = Inr (JObj echo_job)"
  using echo_reports echo_job_text by (simp_all add: echo_container_def del: dump_flat.simps)

lemma echo_behaves:
  "behaves echo_container so ''f'' [echo_param]
     [([(''n'', VInt 0)], echo_trace 0), ([(''n'', VInt 1)], echo_trace 1)] ()"
proof -
  have small: "behaves echo_container so ''f'' [echo_param] (([(''n'', VInt i)], echo_trace i) # kept) ()"
    if "c_int32 i = i" "length (dumps (echo_report i)) \<le> 40" "ct_loads echo_container (dumps (echo_report i)) = Inr (echo_report i)"
      "behaves echo_container so ''f'' [echo_param] kept ()" for i kept
  proof -
    have "native_args [echo_param] [(''n'', VInt i)] = [CInt i]"
      using that(1) by (simp add: native_args_def echo_param_def)
    moreover have "watched [echo_param] [CInt i] = map (map_prod id wire_val) (ft_mem (echo_trace i))"
      "ft_ret (echo_trace i) = i"
      by (simp_all add: watched_def echo_param_def echo_trace_def)
    moreover have "ct_load echo_container so () = (Inr (\<lambda>n. n = ''f''), ())"
      "ct_call echo_container so ''f'' [CInt i] () = (NReturn [] i [CInt i], ())" "ct_pipe echo_container = 65536"
      by (simp_all add: echo_container_def)
    ultimately show ?thesis
      using that by (simp add: echo_report_def del: dump_flat.simps)
  qed
  show ?thesis
    by (intro small echo_report_short echo_decodes) (simp_all add: c_int32_def)
qed

lemma echo_builds: "builds echo_container ''f'' ''int f;'' () ()"
  by (simp add: builds_def echo_container_def)

theorem honest_native_passes_witness:
  "\<exists>v w'. function_fuzz echo_host native_platform 2 native_ctx () = Some (Inr v, w') \<and> cv_status v = PASSED"
proof -
  have kept: "map (map_prod snd id) (kept_cases echo_cases [echo_trace 0, echo_trace 1])
      = [([(''n'', VInt 0)], echo_trace 0), ([(''n'', VInt 1)], echo_trace 1)]"
    unfolding echo_kept by (simp add: echo_cases_def)
  have job: "echo_job = job_of ''int f;'' ''f'' [echo_param]
      (map fst [([(''n'', VInt 0)], echo_trace 0), ([(''n'', VInt 1)], echo_trace 1)])"
    by (simp add: echo_job_def)
  have P: "pf_loads native_platform (dumps (JObj out)) = Inr (JObj out)"
    if "fst (run_mode echo_container (\<lambda>_. True) echo_job ()) = Inr out" for out
    using that by (simp add: native_platform_def)
  have more: "cx_run_job native_ctx = contained echo_container (\<lambda>_. True)"
    "pf_image_id native_platform () = (Inr ''image'', ())"
    by (simp_all add: native_ctx_def native_platform_def echo_platform_def plain_platform_def)
  show ?thesis
    by (rule honest_native_passes [where H = echo_host and n = 2 and C = echo_container and U = "\<lambda>_. True"
          and imms = "[]" and cases = echo_cases and wants = "[echo_trace 0, echo_trace 1]" and job = echo_job
          and cts = "[([(''n'', VInt 0)], echo_trace 0), ([(''n'', VInt 1)], echo_trace 1)]"
          and ?w2.0 = "()" and ?w3.0 = "()" and ?w4.0 = "()" and img = "''image''", OF native_facts(1-10)])
      (simp_all only: native_facts(11,12) fn_task.simps echo_scrape echo_round echo_batch echo_no_fault echo_distinct kept
        job [symmetric] more echo_builds echo_behaves echo_decodes P refl, rule echo_no_fault)
qed

text \<open>A function that dies of a segmentation fault on its first case of two.\<close>

lemma fault_run:
  "run_cases_native echo_container ''/work/f.so'' ''f'' [echo_param\<lparr>p_kind := CString\<rparr>]
     [[(''n'', JVBytes ''a'')], [(''n'', JVBytes ''b'')]] () = (Inr [crash (JObj [(''signal'', JInt 11)])], ())"
  by (simp add: run_case_native_def child_def echo_container_def echo_param_def c_arg_of_def crash_def has_key_def)

theorem native_results_admitted_witness:
  "results_ok (Some (JList [crash (JObj [(''signal'', JInt 11)])])) 2 = Inr True"
  using native_results_admitted [OF fault_run] by (simp add: numeral_2_eq_2)

end
