(* ===== verification/Toolchain.thy ===== *)
theory Toolchain
  imports Py_Text Param_Spec
begin

text \<open>
  \<^verbatim>\<open>src/src/reschema/toolchain.py\<close>: the identity of the pinned image and the corpus build's container run.
  \<^verbatim>\<open>podman\<close> is a parameter: its argument vector, standard input and time limit to a finished process,
  \<^verbatim>\<open>None\<close> when the program is not installed, or an exception such as a timeout.
\<close>

section \<open>Text helpers\<close>

text \<open>The code points that \<^verbatim>\<open>str.strip\<close> removes and \<^verbatim>\<open>\s\<close> matches.\<close>

definition py_space :: "nat \<Rightarrow> bool" where
  "py_space n =
     ((9 \<le> n \<and> n \<le> 13) \<or> (28 \<le> n \<and> n \<le> 32) \<or> n = 0x85 \<or> n = 0xA0 \<or> n = 0x1680
      \<or> (0x2000 \<le> n \<and> n \<le> 0x200A) \<or> n = 0x2028 \<or> n = 0x2029 \<or> n = 0x202F \<or> n = 0x205F \<or> n = 0x3000)"

definition of_code_points :: "nat list \<Rightarrow> str" where
  "of_code_points ns = concat (map utf8_enc ns)"

definition py_strip :: "str \<Rightarrow> str" where
  "py_strip s = of_code_points (rev (dropWhile py_space (rev (dropWhile py_space (code_points s)))))"

section \<open>The image\<close>

record proc =
  pr_returncode :: int
  pr_stdout :: bytes
  pr_stderr :: bytes

type_synonym 'w podman = "str list \<Rightarrow> bytes \<Rightarrow> nat option \<Rightarrow> 'w \<Rightarrow> proc option result \<times> 'w"

definition IMAGE :: str where "IMAGE = ''localhost/reschema-toolchain:1''"

definition BUILD_CMD :: str where
  "BUILD_CMD = ''podman build -t localhost/reschema-toolchain:1 -f Containerfile .''"

definition run_podman :: "'w podman \<Rightarrow> str list \<Rightarrow> bytes \<Rightarrow> nat option \<Rightarrow> 'w \<Rightarrow> proc result \<times> 'w" where
  "run_podman pod argv inp t w =
     (case pod argv inp t w of (r, w1) \<Rightarrow>
        (bindE r (\<lambda>p. case p of
           None \<Rightarrow> Inl (RuntimeError ''podman not installed; install podman (rootless)'')
         | Some x \<Rightarrow> Inr x), w1))"

definition image_id :: "'w podman \<Rightarrow> 'w \<Rightarrow> str result \<times> 'w" where
  "image_id pod w =
     (case run_podman pod [''image'', ''inspect'', ''--format'', ''{{.Id}}'', IMAGE] [] None w of
        (Inl e, w1) \<Rightarrow> (Inl e, w1)
      | (Inr p, w1) \<Rightarrow>
          (bindE (decode (pr_stdout p)) (\<lambda>out.
             if pr_returncode p \<noteq> 0 \<or> py_strip out = []
             then Inl (RuntimeError (''toolchain image missing; build it: '' @ BUILD_CMD))
             else Inr (py_strip out)), w1))"

section \<open>A corpus build\<close>

definition build_argv :: "str \<Rightarrow> str \<Rightarrow> str list" where
  "build_argv src workdir =
     [''run'', ''--rm'', ''-i'', ''--network'', ''none'', ''--read-only'', ''--tmpfs'', ''/tmp:rw,size=64m'',
      ''--memory'', ''1g'', ''--pids-limit'', ''128'', ''-v'', src @ '':/app:ro'', ''-e'', ''PYTHONPATH=/app'',
      ''-v'', workdir @ '':/work:rw'', IMAGE]"

definition infra :: "str \<Rightarrow> json" where
  "infra detail = JObj [(''stage'', JStr ''infra''), (''detail'', JStr detail)]"

text \<open>
  \<^verbatim>\<open>json.JSONDecodeError\<close> is the \<^verbatim>\<open>ValueError\<close> of a text that is no JSON; a decoding error and too deep a
  nesting pass through.
\<close>

definition build_answer :: "(bytes \<Rightarrow> json result) \<Rightarrow> (bytes \<Rightarrow> str) \<Rightarrow> proc \<Rightarrow> json result" where
  "build_answer loads decode_replace p =
     (if pr_returncode p \<noteq> 0
      then Inr (infra (''container rc='' @ dec (pr_returncode p) @ '': '' @ decode_replace (pr_stderr p)))
      else (case loads (pr_stdout p) of
              Inl (ValueError m) \<Rightarrow>
                Inr (infra (''worker produced non-JSON stdout: '' @ repr_bytes (take 400 (pr_stdout p))))
            | r \<Rightarrow> r))"

definition run_build ::
    "'w podman \<Rightarrow> (bytes \<Rightarrow> json result) \<Rightarrow> (bytes \<Rightarrow> str) \<Rightarrow> str \<Rightarrow> json dict \<Rightarrow> str \<Rightarrow> nat \<Rightarrow> 'w \<Rightarrow> json result \<times> 'w" where
  "run_build pod loads decode_replace src job workdir t w =
     (case image_id pod w of
        (Inl e, w1) \<Rightarrow> (Inl e, w1)
      | (Inr _, w1) \<Rightarrow>
          (case run_podman pod (build_argv src workdir) (dumps (JObj job)) (Some t) w1 of (p, w2) \<Rightarrow>
             (bindE p (build_answer loads decode_replace), w2)))"

end
