(* ===== verification/Corpus.thy ===== *)
theory Corpus
  imports Toolchain Disasm "HOL-Library.Product_Lexorder"
begin

text \<open>
  \<^verbatim>\<open>src/src/reschema/corpus/generate.py\<close>: the matrix of corpus slots, its build and its manifest.  The
  directory of seed programs, the container run (\<^verbatim>\<open>toolchain.run_build\<close>), the ELF reader, the file
  system and the JSON decoder are fields of the record \<^verbatim>\<open>corpus_env\<close>; writing a file creates its
  directories.
\<close>

section \<open>The matrix\<close>

definition FUNCS :: "str list dict" where
  "FUNCS =
     [(''rot13'', [''rot13_char'', ''rot13'']), (''check'', [''pw_hash'', ''check_pw'']),
      (''calc'', [''clamp_i32'', ''sum_range'', ''scale_buf'']), (''filewrite'', [''xform_byte'']),
      (''pkfmt'', [''pk_version_ok''])]"

definition COMPILERS :: "str list" where "COMPILERS = [''gcc'', ''clang'']"

definition OPTS :: "str list" where "OPTS = [''-O0'', ''-O1'', ''-O2'']"

definition VARIANTS :: "str list" where "VARIANTS = [''sym'', ''stripped'']"

definition CORPUS_CFLAGS :: "str list" where
  "CORPUS_CFLAGS = [''-static'', ''-fno-pie'', ''-no-pie'', ''-g0'', ''-fno-stack-protector'']"

definition CANONICALIZER_VERSION :: str where "CANONICALIZER_VERSION = ''2.1''"

text \<open>\<^verbatim>\<open>s.split(sep)\<close> for a non-empty separator.\<close>

function split_from :: "str \<Rightarrow> str \<Rightarrow> str \<Rightarrow> str list" where
  "split_from sep acc [] = [rev acc]"
| "split_from sep acc (c # s) =
     (if take (length sep) (c # s) = sep
      then rev acc # split_from sep [] (drop (length sep - 1) s)
      else split_from sep (c # acc) s)"
  by pat_completeness auto
termination
  by (relation "measure (\<lambda>(sep, acc, s). length s)") auto

abbreviation split_on :: "str \<Rightarrow> str \<Rightarrow> str list" where
  "split_on sep s \<equiv> split_from sep [] s"

text \<open>\<^verbatim>\<open>xs.index(x)\<close>.\<close>

fun index_of :: "str \<Rightarrow> str list \<Rightarrow> nat result" where
  "index_of x [] = Inl (ValueError ''is not in list'')"
| "index_of x (y # ys) = (if x = y then Inr 0 else bindE (index_of x ys) (\<lambda>i. Inr (Suc i)))"

type_synonym slot_key = "str \<times> nat \<times> nat \<times> nat"

definition slot_sort_key :: "str \<Rightarrow> slot_key result" where
  "slot_sort_key task_id =
     (case split_on ''::'' task_id of
        [seed, rest] \<Rightarrow>
          (case split_on ''-'' rest of
             [cc, opt, variant] \<Rightarrow>
               bindE (index_of cc COMPILERS) (\<lambda>i.
               bindE (index_of (''-'' @ opt) OPTS) (\<lambda>j.
               bindE (index_of variant VARIANTS) (\<lambda>k. Inr (seed, i, j, k))))
           | _ \<Rightarrow> Inl (ValueError ''unpack''))
      | _ \<Rightarrow> Inl (ValueError ''unpack''))"

definition slot_name :: "str \<Rightarrow> str \<Rightarrow> bool \<Rightarrow> str" where
  "slot_name cc opt strip =
     cc @ ''-'' @ dropWhile (\<lambda>c. c = CHR ''-'') opt @ ''-'' @ (if strip then ''stripped'' else ''sym'')"

definition matrix_slots :: "(str \<times> str \<times> bool) list" where
  "matrix_slots = concat (map (\<lambda>cc. concat (map (\<lambda>opt. [(cc, opt, False), (cc, opt, True)]) OPTS)) COMPILERS)"

definition task_id_of :: "str \<Rightarrow> str \<times> str \<times> bool \<Rightarrow> str" where
  "task_id_of seed x = (case x of (cc, opt, strip) \<Rightarrow> seed @ ''::'' @ slot_name cc opt strip)"

definition all_task_ids :: "str list \<Rightarrow> str list" where
  "all_task_ids seeds = concat (map (\<lambda>seed. map (task_id_of seed) matrix_slots) seeds)"

section \<open>Entries\<close>

record slot_meta =
  sm_seed :: str
  sm_compiler :: str
  sm_opt :: str
  sm_stripped :: bool
  sm_binary :: str
  sm_task_id :: str
  sm_functions :: "fn_info dict"

definition fn_json :: "fn_info \<Rightarrow> json" where
  "fn_json f = JObj [(''addr'', JInt (fi_addr f)), (''size'', JInt (fi_size f))]"

definition meta_json :: "slot_meta \<Rightarrow> json" where
  "meta_json m =
     JObj [(''seed'', JStr (sm_seed m)), (''compiler'', JStr (sm_compiler m)), (''opt'', JStr (sm_opt m)),
           (''stripped'', JBool (sm_stripped m)), (''binary'', JStr (sm_binary m)), (''task_id'', JStr (sm_task_id m)),
           (''functions'', JObj (map (map_prod id fn_json) (sm_functions m)))]"

section \<open>Building\<close>

record 'w corpus_env =
  ce_seeds :: "str list"
  ce_build :: "json dict \<Rightarrow> str \<Rightarrow> nat \<Rightarrow> 'w \<Rightarrow> json result \<times> 'w"
  ce_tools :: tools
  ce_read :: "str \<Rightarrow> 'w \<Rightarrow> bytes option"
  ce_write :: "str \<Rightarrow> bytes \<Rightarrow> 'w \<Rightarrow> 'w"
  ce_loads :: "str \<Rightarrow> json result"

definition rc_failed :: "json \<Rightarrow> bool result" where
  "rc_failed j = bindE (item ''rc'' j) (\<lambda>rc. Inr (case rc of JInt i \<Rightarrow> i \<noteq> 0 | JBool b \<Rightarrow> b | JFloat t \<Rightarrow> t \<noteq> ''0.0'' \<and> t \<noteq> ''-0.0'' | _ \<Rightarrow> True))"

fun first_failed :: "json list \<Rightarrow> json option result" where
  "first_failed [] = Inr None"
| "first_failed (j # js) =
     bindE (rc_failed j) (\<lambda>bad. bindE (first_failed js) (\<lambda>r. Inr (if bad then Some j else r)))"

definition check_round :: "(nat \<Rightarrow> bool) \<Rightarrow> json \<Rightarrow> str \<Rightarrow> str \<Rightarrow> unit result" where
  "check_round U r what key =
     bindE (contains ''stage'' r) (\<lambda>staged.
       if staged then
         bindE (item ''detail'' r) (\<lambda>d. Inl (RuntimeError (''corpus '' @ what @ '' container failed: '' @ py_str U d)))
       else
         bindE (item ''results'' r) (\<lambda>rs.
           (case rs of
              JList js \<Rightarrow>
                bindE (first_failed js) (\<lambda>bad.
                  (case bad of
                     None \<Rightarrow> Inr ()
                   | Some j \<Rightarrow>
                       bindE (item key j) (\<lambda>k. bindE (item ''stderr'' j) (\<lambda>e.
                         Inl (RuntimeError (''corpus '' @ what @ '' failed for '' @ py_str U k @ '': '' @ py_str U e))))))
            | _ \<Rightarrow> Inl (TypeError ''results''))))"

definition selected :: "str list option \<Rightarrow> str \<Rightarrow> bool" where
  "selected only x = (case only of None \<Rightarrow> True | Some xs \<Rightarrow> x \<in> set xs)"

definition build_plan :: "str list \<Rightarrow> str list option \<Rightarrow> str list option \<Rightarrow> (str \<times> str \<times> str \<times> bool) list" where
  "build_plan seeds seed_ids matrix =
     concat (map (\<lambda>name. map (Pair name) (filter (\<lambda>(cc, opt, strip). selected matrix (slot_name cc opt strip)) matrix_slots))
       (filter (selected seed_ids) seeds))"

definition rel_prog :: "str \<times> str \<times> str \<times> bool \<Rightarrow> str" where
  "rel_prog x = (case x of (name, cc, opt, strip) \<Rightarrow> name @ ''/'' @ slot_name cc opt strip @ ''/prog'')"

definition compile_job :: "str \<times> str \<times> str \<times> bool \<Rightarrow> json" where
  "compile_job x =
     (case x of (name, cc, opt, strip) \<Rightarrow>
        JObj [(''src_path'', JStr (''reschema/corpus/seeds/'' @ name @ ''.c'')), (''out'', JStr (rel_prog x)),
              (''compiler'', JStr cc), (''flags'', JList (map JStr (opt # CORPUS_CFLAGS)))])"

definition captured_funcs :: "(int \<times> int) dict \<Rightarrow> str list \<Rightarrow> fn_info dict" where
  "captured_funcs syms fs =
     List.map_filter (\<lambda>f. map_option (\<lambda>(a, s). (f, \<lparr>fi_addr = a, fi_size = s\<rparr>)) (map_of syms f)) fs"

definition built_entry :: "'w corpus_env \<Rightarrow> str \<Rightarrow> 'w \<Rightarrow> str \<times> str \<times> str \<times> bool \<Rightarrow> slot_meta result" where
  "built_entry E root w x =
     (case x of (name, cc, opt, strip) \<Rightarrow>
        let binary = root @ ''/'' @ rel_prog x in
        (case ce_read E binary w of
           None \<Rightarrow> Inl (FileNotFoundError (''No such file or directory: '' @ binary))
         | Some b \<Rightarrow>
             bindE (dict_get FUNCS name) (\<lambda>fs.
               let funcs = captured_funcs (symtab (ce_tools E) b) fs in
               if funcs = [] then Inl (AssertionError (''no functions captured for '' @ name @ ''/'' @ slot_name cc opt strip))
               else Inr \<lparr>sm_seed = name, sm_compiler = cc, sm_opt = opt, sm_stripped = strip, sm_binary = binary,
                         sm_task_id = name @ ''::'' @ slot_name cc opt strip, sm_functions = funcs\<rparr>)))"

section \<open>The manifest\<close>

text \<open>The keyed manifest: later entries replace earlier ones in place.\<close>

definition entry_id :: "json \<Rightarrow> (str \<times> json) result" where
  "entry_id x = bindE (item ''task_id'' x) (\<lambda>t. (case t of JStr i \<Rightarrow> Inr (i, x) | _ \<Rightarrow> Inl (TypeError ''task_id'')))"

definition keyed :: "(str \<times> json) list \<Rightarrow> json dict \<Rightarrow> json dict" where
  "keyed es d = fold (\<lambda>(k, x). AList.update k x) es d"

definition old_manifest :: "'w corpus_env \<Rightarrow> str \<Rightarrow> bool \<Rightarrow> 'w \<Rightarrow> json dict result" where
  "old_manifest E root merge w =
     (if \<not> merge then Inr []
      else (case ce_read E (root @ ''/manifest.json'') w of
              None \<Rightarrow> Inr []
            | Some b \<Rightarrow>
                bindE (decode b) (\<lambda>s. bindE (ce_loads E s) (\<lambda>j.
                  (case j of JList xs \<Rightarrow> bindE (mapE entry_id xs) (\<lambda>es. Inr (keyed es []))
                   | _ \<Rightarrow> Inl (TypeError ''manifest''))))))"

definition merge_manifest :: "json dict \<Rightarrow> slot_meta list \<Rightarrow> json dict" where
  "merge_manifest old built = keyed (map (\<lambda>m. (sm_task_id m, meta_json m)) built) old"

definition sort_manifest :: "json dict \<Rightarrow> json list result" where
  "sort_manifest d =
     bindE (mapE (\<lambda>(k, x). bindE (slot_sort_key k) (\<lambda>s. Inr (s, x))) d) (\<lambda>ks. Inr (map snd (sort_key fst ks)))"

definition write_manifest :: "'w corpus_env \<Rightarrow> str \<Rightarrow> bool \<Rightarrow> slot_meta list \<Rightarrow> 'w \<Rightarrow> slot_meta list result \<times> 'w" where
  "write_manifest E root merge built w =
     (case bindE (old_manifest E root merge w) (\<lambda>old. sort_manifest (merge_manifest old built)) of
        Inl e \<Rightarrow> (Inl e, w)
      | Inr entries \<Rightarrow>
          (Inr built, ce_write E (root @ ''/canonicalizer_version'') CANONICALIZER_VERSION
             (ce_write E (root @ ''/manifest.json'') (dumps_indent False (JList entries)) w)))"

definition strip_round :: "'w corpus_env \<Rightarrow> (nat \<Rightarrow> bool) \<Rightarrow> str \<Rightarrow> str list \<Rightarrow> 'w \<Rightarrow> unit result \<times> 'w" where
  "strip_round E U root files w =
     (if files = [] then (Inr (), w)
      else (case ce_build E [(''mode'', JStr ''strip''), (''files'', JList (map JStr files))] root 300 w of (r, w1) \<Rightarrow>
              (bindE r (\<lambda>j. check_round U j ''strip'' ''file''), w1)))"

definition build ::
    "'w corpus_env \<Rightarrow> (nat \<Rightarrow> bool) \<Rightarrow> str \<Rightarrow> str list option \<Rightarrow> str list option \<Rightarrow> 'w \<Rightarrow> slot_meta list result \<times> 'w" where
  "build E U root seed_ids matrix w =
     (let plan = build_plan (ce_seeds E) seed_ids matrix in
      if plan = [] then (Inr [], w)
      else
        (case ce_build E [(''mode'', JStr ''compile''), (''jobs'', JList (map compile_job plan))] root 600 w of (r, w1) \<Rightarrow>
           (case bindE r (\<lambda>j. bindE (check_round U j ''compile'' ''out'') (\<lambda>_. mapE (built_entry E root w1) plan)) of
              Inl e \<Rightarrow> (Inl e, w1)
            | Inr built \<Rightarrow>
                (case strip_round E U root (map rel_prog (filter (\<lambda>(name, cc, opt, strip). strip) plan)) w1 of
                   (Inl e, w2) \<Rightarrow> (Inl e, w2)
                 | (Inr _, w2) \<Rightarrow> write_manifest E root (seed_ids \<noteq> None \<or> matrix \<noteq> None) built w2))))"

section \<open>Reading\<close>

definition load_manifest :: "'w corpus_env \<Rightarrow> str \<Rightarrow> 'w \<Rightarrow> json result" where
  "load_manifest E root w =
     (let stamped = (case ce_read E (root @ ''/canonicalizer_version'') w of None \<Rightarrow> ''(missing)'' | Some s \<Rightarrow> s) in
      if stamped \<noteq> CANONICALIZER_VERSION
      then Inl (RuntimeError (''corpus recorded under canonicalizer '' @ stamped @ '', current '' @ CANONICALIZER_VERSION
             @ '': rebuild it (`python -m reschema.corpus.generate`)''))
      else (case ce_read E (root @ ''/manifest.json'') w of
              None \<Rightarrow> Inl (FileNotFoundError (''No such file or directory: '' @ root @ ''/manifest.json''))
            | Some b \<Rightarrow> bindE (decode b) (ce_loads E)))"

fun find_slot :: "str \<Rightarrow> json list \<Rightarrow> json option result" where
  "find_slot task_id [] = Inr None"
| "find_slot task_id (t # ts) =
     bindE (item ''task_id'' t) (\<lambda>i. if i = JStr task_id then Inr (Some t) else find_slot task_id ts)"

definition slot_entry :: "'w corpus_env \<Rightarrow> (nat \<Rightarrow> bool) \<Rightarrow> str \<Rightarrow> str \<Rightarrow> 'w \<Rightarrow> json result" where
  "slot_entry E U root task_id w =
     bindE (load_manifest E root w) (\<lambda>man.
       (case man of
          JList ts \<Rightarrow>
            bindE (find_slot task_id ts) (\<lambda>r.
              (case r of
                 Some t \<Rightarrow> Inr t
               | None \<Rightarrow>
                   bindE (mapE (item ''task_id'') ts) (\<lambda>ids.
                     Inl (KeyError (''unknown task_id: '' @ task_id @ ''; available: '' @ py_repr U (JList ids))))))
        | _ \<Rightarrow> Inl (TypeError ''manifest'')))"

end
