(* ===== verification/Corpus_Props.thy ===== *)
theory Corpus_Props
  imports Corpus
begin

text \<open>
  The manifest of the corpus: the order of its slots, and what a targeted build changes.
\<close>

section \<open>Keys of slots\<close>

lemma split_from_prefix:
  assumes "c0 \<notin> set pre" and "hd sep = c0" and "sep \<noteq> []"
  shows "split_from sep acc (pre @ s) = split_from sep (rev pre @ acc) s"
  using assms
proof (induction pre arbitrary: acc)
  case (Cons c pre)
  then have "take (length sep) (c # pre @ s) \<noteq> sep" by (cases sep) auto
  with Cons show ?case by simp
qed simp

lemma split_from_sep: "sep \<noteq> [] \<Longrightarrow> split_from sep acc (sep @ s) = rev acc # split_from sep [] s"
  by (cases sep) simp_all

lemma split_on_last: "c0 \<notin> set x \<Longrightarrow> hd sep = c0 \<Longrightarrow> sep \<noteq> [] \<Longrightarrow> split_from sep acc x = [rev acc @ x]"
  using split_from_prefix [of c0 x sep acc "[]"] by simp

definition slot_keys :: "(nat \<times> nat \<times> nat) list" where
  "slot_keys = [(0, 0, 0), (0, 0, 1), (0, 1, 0), (0, 1, 1), (0, 2, 0), (0, 2, 1),
                (1, 0, 0), (1, 0, 1), (1, 1, 0), (1, 1, 1), (1, 2, 0), (1, 2, 1)]"

definition slot_rest_key :: "str \<Rightarrow> (nat \<times> nat \<times> nat) result" where
  "slot_rest_key rest =
     (case split_on ''-'' rest of
        [cc, opt, variant] \<Rightarrow>
          bindE (index_of cc COMPILERS) (\<lambda>i.
          bindE (index_of (''-'' @ opt) OPTS) (\<lambda>j.
          bindE (index_of variant VARIANTS) (\<lambda>k. Inr (i, j, k))))
      | _ \<Rightarrow> Inl (ValueError ''unpack''))"

lemma matrix_keys: "map (\<lambda>(cc, opt, strip). slot_rest_key (slot_name cc opt strip)) matrix_slots = map Inr slot_keys"
  by code_simp

lemma matrix_no_colon: "list_all (\<lambda>(cc, opt, strip). CHR '':'' \<notin> set (slot_name cc opt strip)) matrix_slots"
  by code_simp

lemma slot_sort_key_split:
  assumes "CHR '':'' \<notin> set seed" and "CHR '':'' \<notin> set rest"
  shows "slot_sort_key (seed @ ''::'' @ rest) = bindE (slot_rest_key rest) (\<lambda>ijk. Inr (seed, ijk))"
proof -
  have "split_on ''::'' (seed @ ''::'' @ rest) = [seed, rest]"
    using assms by (simp add: split_from_prefix [of "CHR '':''"] split_on_last [of "CHR '':''"] del: append.simps)
      (simp add: split_from_sep [of "''::''", simplified] split_on_last [of "CHR '':''"])
  then show ?thesis
    by (simp add: slot_sort_key_def slot_rest_key_def bindE_def split: list.split sum.split)
qed

lemma seed_keys:
  assumes "CHR '':'' \<notin> set seed"
  shows "mapE slot_sort_key (map (task_id_of seed) matrix_slots) = Inr (map (Pair seed) slot_keys)"
proof -
  have "map (slot_sort_key \<circ> task_id_of seed) matrix_slots = map (\<lambda>k. Inr (seed, k)) slot_keys"
  proof -
    have "map (slot_sort_key \<circ> task_id_of seed) matrix_slots
        = map (\<lambda>r. bindE r (\<lambda>ijk. Inr (seed, ijk))) (map (\<lambda>(cc, opt, strip). slot_rest_key (slot_name cc opt strip)) matrix_slots)"
      using matrix_no_colon slot_sort_key_split [OF assms]
      by (auto simp: list_all_iff task_id_of_def)
    then show ?thesis by (simp add: matrix_keys)
  qed
  then show ?thesis
    using mapE_map_Inr [of "slot_sort_key \<circ> task_id_of seed" matrix_slots "Pair seed" slot_keys] by (simp add: mapE_map)
qed

lemma all_keys:
  assumes "list_all (\<lambda>s. CHR '':'' \<notin> set s) seeds"
  shows "mapE slot_sort_key (all_task_ids seeds) = Inr (concat (map (\<lambda>s. map (Pair s) slot_keys) seeds))"
  using assms by (induction seeds) (simp_all add: all_task_ids_def mapE_append seed_keys)

lemma sorted_seed_keys: "sorted (map (Pair s) slot_keys)"
  by (simp add: slot_keys_def)

lemma sorted_all_keys:
  "sorted seeds \<Longrightarrow> distinct seeds \<Longrightarrow> sorted (concat (map (\<lambda>s. map (Pair s) slot_keys) seeds))"
proof (induction seeds)
  case (Cons s seeds)
  then have "\<forall>t \<in> set seeds. s < t" by (auto simp: order.strict_iff_order)
  with Cons show ?case by (auto simp: sorted_append sorted_seed_keys)
qed simp

section \<open>A targeted build changes its slots in place\<close>

lemma keyed_map_fst: "fst ` set es \<subseteq> fst ` set d \<Longrightarrow> map fst (keyed es d) = map fst d"
proof (induction es arbitrary: d)
  case (Cons e es)
  let ?d = "AList.update (fst e) (snd e) d"
  have k: "map fst ?d = map fst d"
    using Cons.prems by (auto simp: update_keys image_iff)
  then have "fst ` set ?d = fst ` set d" by (metis set_map)
  with Cons.prems have "map fst (keyed es ?d) = map fst ?d" by (intro Cons.IH) auto
  with k show ?case by (simp add: keyed_def case_prod_beta)
qed (simp add: keyed_def)

lemma keyed_lookup: "map_of (keyed es d) k = (case map_of (rev es) k of Some x \<Rightarrow> Some x | None \<Rightarrow> map_of d k)"
  by (induction es arbitrary: d) (auto simp: keyed_def map_add_def split: option.splits)

lemma alist_by_lookup:
  "distinct (map fst d) \<Longrightarrow> map fst d' = map fst d \<Longrightarrow> d' = map (\<lambda>(k, x). (k, the (map_of d' k))) d"
proof -
  assume d: "distinct (map fst d)" and k: "map fst d' = map fst d"
  show ?thesis
  proof (rule nth_equalityI)
    show "length d' = length (map (\<lambda>(k, x). (k, the (map_of d' k))) d)" using k by (metis length_map)
    fix i assume i: "i < length d'"
    then have "fst (d' ! i) = fst (d ! i)" using k by (metis length_map nth_map)
    moreover have "map_of d' (fst (d' ! i)) = Some (snd (d' ! i))"
      using d k i by (intro map_of_is_SomeI) auto
    moreover have "i < length d" using i k by (metis length_map)
    ultimately show "d' ! i = map (\<lambda>(k, x). (k, the (map_of d' k))) d ! i"
      by (cases "d ! i"; cases "d' ! i") auto
  qed
qed

lemma keyed_in_place:
  assumes "distinct (map fst d)" and "fst ` set es \<subseteq> fst ` set d"
  shows "keyed es d = map (\<lambda>(k, x). (k, case map_of (rev es) k of Some y \<Rightarrow> y | None \<Rightarrow> x)) d"
proof -
  have "keyed es d = map (\<lambda>(k, x). (k, the (map_of (keyed es d) k))) d"
    by (rule alist_by_lookup [OF assms(1) keyed_map_fst [OF assms(2)]])
  also have "\<dots> = map (\<lambda>(k, x). (k, case map_of (rev es) k of Some y \<Rightarrow> y | None \<Rightarrow> x)) d"
    using assms(1) by (auto simp: keyed_lookup split: option.split)
  finally show ?thesis .
qed

lemma keyed_fresh: "distinct (map fst es) \<Longrightarrow> keyed es [] = es"
proof -
  assume "distinct (map fst es)"
  moreover have "distinct (map fst (d @ es)) \<Longrightarrow> keyed es d = d @ es" for d
  proof (induction es arbitrary: d)
    case (Cons e es)
    then have "AList.update (fst e) (snd e) d = d @ [e]"
      by (induction d) auto
    with Cons.prems Cons.IH [of "d @ [e]"] show ?case by (simp add: keyed_def case_prod_beta)
  qed (simp add: keyed_def)
  ultimately show ?thesis by force
qed

lemma sort_manifest_sorted:
  assumes "mapE slot_sort_key (map fst d) = Inr ks" and "sorted ks"
  shows "sort_manifest d = Inr (map snd d)"
proof -
  have "mapE (\<lambda>(k, x). bindE (slot_sort_key k) (\<lambda>s. Inr (s, x))) d = Inr (zip ks (map snd d)) \<and> length ks = length d"
    using assms(1) by (induction d arbitrary: ks) (auto split: sum.splits)
  moreover have "sort_key fst (zip ks (map snd d)) = zip ks (map snd d)" if "length ks = length d"
    using assms(2) that by (intro sort_key_id_if_sorted) simp
  ultimately show ?thesis by (auto simp: sort_manifest_def)
qed

text \<open>The entries of a manifest, those of the built slots replaced.\<close>

definition updated_entries :: "slot_meta list \<Rightarrow> json dict \<Rightarrow> json list" where
  "updated_entries built es =
     map (\<lambda>(k, x). case find (\<lambda>m. sm_task_id m = k) (rev built) of Some m \<Rightarrow> meta_json m | None \<Rightarrow> x) es"

lemma map_of_find: "map_of (map (\<lambda>m. (f m, g m)) xs) k = map_option g (find (\<lambda>m. f m = k) xs)"
  by (induction xs) auto

lemma write_manifest_in_place:
  assumes "ce_read E (root @ ''/manifest.json'') w = Some b" and "decode b = Inr s" and "ce_loads E s = Inr (JList xs)"
    and "mapE entry_id xs = Inr es" and "distinct (map fst es)"
    and "mapE slot_sort_key (map fst es) = Inr ks" and "sorted ks"
    and "sm_task_id ` set built \<subseteq> fst ` set es"
  shows "write_manifest E root True built w =
    (Inr built, ce_write E (root @ ''/canonicalizer_version'') CANONICALIZER_VERSION
       (ce_write E (root @ ''/manifest.json'') (dumps_indent False (JList
          (updated_entries built es))) w))"
proof -
  let ?new = "map (\<lambda>m. (sm_task_id m, meta_json m)) built"
  have look: "map_of (rev ?new) k = map_option meta_json (find (\<lambda>m. sm_task_id m = k) (rev built))" for k
    unfolding rev_map by (rule map_of_find)
  have "fst ` set ?new \<subseteq> fst ` set es" using assms(8) by (simp add: image_image)
  note m = keyed_in_place [OF assms(5) this]
  have "sort_manifest (keyed ?new es) = Inr (map snd (keyed ?new es))"
    by (rule sort_manifest_sorted [OF _ assms(7)]) (simp add: m assms(6) comp_def case_prod_beta)
  also have "map snd (keyed ?new es) =
      updated_entries built es"
    unfolding m look updated_entries_def by (auto split: option.split)
  finally show ?thesis
    using assms(1-4) by (simp add: write_manifest_def old_manifest_def merge_manifest_def keyed_fresh [OF assms(5)]
        del: dump_indent.simps)
qed

text \<open>
  C24: a targeted build updates its slots in place.  When the manifest on disk is in canonical order
  with distinct slots and knows every slot that was built, the build writes the same list, with
  the entries of the built slots replaced by their new ones and every other entry kept at its place,
  and the stamp of the current canonicaliser.
\<close>

theorem targeted_build_in_place:
  assumes "ce_read E (root @ ''/manifest.json'') w = Some b" and "decode b = Inr s" and "ce_loads E s = Inr (JList xs)"
    and "mapE entry_id xs = Inr es" and "distinct (map fst es)"
    and "mapE slot_sort_key (map fst es) = Inr ks" and "sorted ks"
    and "sm_task_id ` set built \<subseteq> fst ` set es"
  shows "write_manifest E root True built w =
    (Inr built, ce_write E (root @ ''/canonicalizer_version'') CANONICALIZER_VERSION
       (ce_write E (root @ ''/manifest.json'') (dumps_indent False (JList
          (updated_entries built es))) w))"
  by (rule write_manifest_in_place [OF assms])

text \<open>The full matrix is such a manifest.\<close>

lemma full_matrix_sorted:
  assumes "sorted seeds" and "distinct seeds" and "list_all (\<lambda>s. CHR '':'' \<notin> set s) seeds"
  shows "\<exists>ks. mapE slot_sort_key (all_task_ids seeds) = Inr ks \<and> sorted ks"
  using all_keys [OF assms(3)] sorted_all_keys [OF assms(1,2)] by blast

section \<open>The stamp\<close>

text \<open>
  C25: a targeted build restamps the whole corpus.  A corpus whose stamp is that of another
  canonicaliser is refused by \<^verbatim>\<open>load_manifest\<close>; after a targeted build of some of its slots the stamp is the
  current one, and \<^verbatim>\<open>load_manifest\<close> delivers the slots that were not rebuilt as well.
\<close>

theorem targeted_build_restamps:
  assumes "\<And>p q c v. ce_read E q (ce_write E p c v) = (if q = p then Some c else ce_read E q v)"
    and "ce_read E (root @ ''/canonicalizer_version'') w = Some old" and "old \<noteq> CANONICALIZER_VERSION"
    and "ce_read E (root @ ''/manifest.json'') w = Some b" "decode b = Inr s" "ce_loads E s = Inr (JList xs)"
      "mapE entry_id xs = Inr es" "distinct (map fst es)" "mapE slot_sort_key (map fst es) = Inr ks" "sorted ks"
      "sm_task_id ` set built \<subseteq> fst ` set es"
    and "(k, x) \<in> set es" and "k \<notin> sm_task_id ` set built"
    and "bindE (decode (dumps_indent False (JList (updated_entries built es)))) (ce_loads E)
       = Inr (JList (updated_entries built es))"
  shows "(\<exists>m. load_manifest E root w = Inl (RuntimeError m))
    \<and> (\<exists>w' ts. write_manifest E root True built w = (Inr built, w')
         \<and> load_manifest E root w' = Inr (JList ts) \<and> x \<in> set ts)"
proof -
  have "find (\<lambda>m. sm_task_id m = k) (rev built) = None"
    using assms(13) by (auto simp: find_None_iff)
  with assms(12) have x: "x \<in> set (updated_entries built es)"
    by (force simp: updated_entries_def)
  show ?thesis
    unfolding write_manifest_in_place [OF assms(4-11)]
    using assms(1-3,14) x by (auto simp: load_manifest_def Let_def simp del: dump_indent.simps)
qed

section \<open>A concrete corpus\<close>

text \<open>Two slots of one seed, recorded under version 1, of which one is rebuilt.\<close>

definition two_ids :: "str list" where
  "two_ids = [''calc::gcc-O0-sym'', ''calc::gcc-O0-stripped'']"

definition bare_entry :: "str \<Rightarrow> json" where
  "bare_entry i = JObj [(''task_id'', JStr i)]"

definition rebuilt :: slot_meta where
  "rebuilt = \<lparr>sm_seed = ''calc'', sm_compiler = ''gcc'', sm_opt = ''-O0'', sm_stripped = False, sm_binary = ''/b'',
     sm_task_id = ''calc::gcc-O0-sym'', sm_functions = []\<rparr>"

definition two_es :: "json dict" where
  "two_es = map (\<lambda>i. (i, bare_entry i)) two_ids"

definition two_env :: "(str \<Rightarrow> bytes option) corpus_env" where
  "two_env = \<lparr>ce_seeds = [''calc''], ce_build = (\<lambda>job root t w. (Inr JNull, w)),
     ce_tools = \<lparr>elf_of = (\<lambda>_. \<lparr>text_addr = 0, text_data = [], elf_symbols = None\<rparr>), disasm = (\<lambda>_ _. [])\<rparr>,
     ce_read = (\<lambda>p w. w p), ce_write = (\<lambda>p c w. w(p \<mapsto> c)),
     ce_loads = (\<lambda>t. if t = ''M'' then Inr (JList (map bare_entry two_ids)) else Inr (JList (updated_entries [rebuilt] two_es)))\<rparr>"

definition two_world :: "str \<Rightarrow> bytes option" where
  "two_world = [''r/manifest.json'' \<mapsto> ''M'', ''r/canonicalizer_version'' \<mapsto> ''1'']"

lemma two_facts:
  shows "ce_read two_env (''r'' @ ''/manifest.json'') two_world = Some ''M''" and "decode ''M'' = Inr ''M''"
    and "ce_loads two_env ''M'' = Inr (JList (map bare_entry two_ids))"
    and "mapE entry_id (map bare_entry two_ids) = Inr two_es" and "distinct (map fst two_es)"
    and "mapE slot_sort_key (map fst two_es) = Inr [(''calc'', 0, 0, 0), (''calc'', 0, 0, 1)]"
    and "sorted [(''calc'', 0 :: nat, 0 :: nat, 0 :: nat), (''calc'', 0, 0, 1)]"
    and "sm_task_id ` set [rebuilt] \<subseteq> fst ` set two_es"
proof -
  show "mapE slot_sort_key (map fst two_es) = Inr [(''calc'', 0, 0, 0), (''calc'', 0, 0, 1)]"
    by (simp add: two_es_def two_ids_def) code_simp
  show "decode ''M'' = Inr ''M''" by code_simp
qed (simp_all add: two_env_def two_world_def two_ids_def bare_entry_def entry_id_def dict_get_def two_es_def rebuilt_def)

lemma two_updated: "updated_entries [rebuilt] two_es = [meta_json rebuilt, bare_entry ''calc::gcc-O0-stripped'']"
  by (simp add: updated_entries_def two_es_def two_ids_def rebuilt_def)

theorem targeted_build_in_place_witness:
  "snd (write_manifest two_env ''r'' True [rebuilt] two_world) ''r/manifest.json''
     = Some (dumps_indent False (JList [meta_json rebuilt, bare_entry ''calc::gcc-O0-stripped'']))"
  by (subst targeted_build_in_place [OF two_facts]) (simp add: two_updated two_env_def del: dump_indent.simps)

lemma two_valid: "utf8_valid (dumps_indent False (JList [meta_json rebuilt, bare_entry ''calc::gcc-O0-stripped'']))"
  by code_simp

lemma two_not_old: "dumps_indent False (JList [meta_json rebuilt, bare_entry ''calc::gcc-O0-stripped'']) \<noteq> ''M''"
  by simp

theorem targeted_build_restamps_witness:
  "\<exists>w' ts. write_manifest two_env ''r'' True [rebuilt] two_world = (Inr [rebuilt], w')
     \<and> load_manifest two_env ''r'' w' = Inr (JList ts) \<and> bare_entry ''calc::gcc-O0-stripped'' \<in> set ts"
proof -
  have r: "ce_read two_env q (ce_write two_env p c v) = (if q = p then Some c else ce_read two_env q v)" for p q c v
    by (simp add: two_env_def)
  have o: "ce_read two_env (''r'' @ ''/canonicalizer_version'') two_world = Some ''1''" "''1'' \<noteq> CANONICALIZER_VERSION"
    by (simp_all add: two_env_def two_world_def CANONICALIZER_VERSION_def)
  have k: "(''calc::gcc-O0-stripped'', bare_entry ''calc::gcc-O0-stripped'') \<in> set two_es"
    "''calc::gcc-O0-stripped'' \<notin> sm_task_id ` set [rebuilt]"
    by (simp_all add: two_es_def two_ids_def rebuilt_def)
  have d: "bindE (decode (dumps_indent False (JList (updated_entries [rebuilt] two_es)))) (ce_loads two_env)
      = Inr (JList (updated_entries [rebuilt] two_es))"
    using two_not_old two_valid by (simp add: decode_def two_updated two_env_def del: dump_indent.simps)
  show ?thesis using targeted_build_restamps [OF r o two_facts k d] by blast
qed

end
