(* ===== verification/Task_Text.thy ===== *)
theory Task_Text
  imports Py_Values
begin

text \<open>
  The instruction templates of \<^verbatim>\<open>src/src/reschema/tasks.py\<close> (\<^verbatim>\<open>_COMMON\<close>, \<^verbatim>\<open>_FUNCTION_MD\<close>, \<^verbatim>\<open>_PROGRAM_MD\<close>) and
  \<^verbatim>\<open>string.Template.substitute\<close>.  A template is given as its pieces: text, and the name of a placeholder.
\<close>

datatype seg = L str | V string

definition md_lines :: "seg list list \<Rightarrow> seg list" where
  "md_lines ls = concat (map (\<lambda>l. l @ [L [CHR 0x0A]]) ls)"

definition seg_text :: "str dict \<Rightarrow> seg \<Rightarrow> str result" where
  "seg_text values s = (case s of L t \<Rightarrow> Inr t | V k \<Rightarrow> dict_get values k)"

definition substitute :: "seg list \<Rightarrow> str dict \<Rightarrow> str result" where
  "substitute t values = bindE (mapE (seg_text values) t) (\<lambda>ss. Inr (concat ss))"

text \<open>\<^verbatim>\<open>_COMMON\<close> is inserted as it is: it has no placeholder.\<close>

definition plain_text :: "seg list \<Rightarrow> str" where
  "plain_text t = concat (map (\<lambda>s. case s of L u \<Rightarrow> u | V k \<Rightarrow> CHR ''$'' # k) t)"

definition placeholders :: "seg list \<Rightarrow> string list" where
  "placeholders t = List.map_filter (\<lambda>s. case s of L _ \<Rightarrow> None | V k \<Rightarrow> Some k) t"

lemma substitute_total:
  assumes "list_all (\<lambda>k. has_key k values) (placeholders t)"
  shows "\<exists>r. substitute t values = Inr r"
proof -
  have "\<exists>ss. mapE (seg_text values) t = Inr ss"
    using assms
    by (induction t)
      (auto simp: placeholders_def seg_text_def has_key_def dict_get_def List.map_filter_simps split: seg.splits option.splits)
  then show ?thesis by (auto simp: substitute_def)
qed

definition COMMON_MD :: "seg list" where
  "COMMON_MD = md_lines
     [[L ''## Files''],
      [],
      [L ''Everything in /work is read-only except /work/workspace/, which is kept from one''],
      [L ''submission to the next; nothing else you write survives a submission. Write your''],
      [L ''files there.''],
      [],
      [L ''- `task.md`: this file.''],
      [L (''- `family.json`: the program family'' @ [CHR 0x27] @ ''s identity (bookkeeping, nothing to solve).'')],
      [L ''- `memory.json`: what earlier tasks of this family left. Entries of tier''],
      [L ''  `verified` are models the checker accepted, with their source (and params for''],
      [L (''  a function): reliable, reuse them. Notes are other workers'' @ [CHR 0x27] @ '' unchecked claims.'')],
      [L (''- `feedback-NNN.json`: the checker'' @ [CHR 0x27] @ ''s verdict on each earlier submission.'')],
      [L ''- `responses/`: files the host delivers with large operation results.''],
      [],
      [L ''You never get the binary itself; the host runs it for you (probing, below).''],
      [L ''`gcc -fsyntax-only workspace/model.c` checks that your model compiles; nothing''],
      [L ''compiled here can run.''],
      [],
      [L ''## Probing''],
      [],
      [L ''Probing commands print a request; the host runs it and shows each result in the''],
      [L (''next observation'' @ [CHR 0x27] @ ''s `host_results`, in order, as `{status, operation, result}`'')],
      [L ''(a large result also as files under `responses/<n>/<item>/`). Put up to 32 probes in one command: it costs one turn.''],
      [L ''Each probe costs one unit of your probe budget; an identical repeat is free.'']]"

definition FUNCTION_MD :: "seg list" where
  "FUNCTION_MD = md_lines
     [[L ''# Function task: model `'', V ''name'', L ''`''],
      [],
      [L ''Write a C model of the function `'', V ''name'', L ''` from a compiled program that behaves''],
      [L ''exactly like the original, declare its parameters in `params.json`, and submit.''],
      [L ''Acceptance ends this task and records your model as a verified fact that the''],
      [L (''family'' @ [CHR 0x27] @ ''s later tasks (other functions, and the whole-program task) see in'')],
      [L ''their `memory.json`.''],
      [],
      [V ''common''],
      [L ''Your task files: `function.json` (address, a heuristic signature guess: arity''],
      [L ''and whether it returns a value, labeled a guess; and its callees),''],
      [L ''`disasm.txt` (its disassembly), `abi_template.c` (a compile-ready starter with''],
      [L ''a params.json sketch).''],
      [],
      [L ''`experiment-function` calls the ORIGINAL `'', V ''name'', L ''` once per case, using your''],
      [L ''`workspace/params.json` (write it first; `--params FILE` uses another):''],
      [],
      [L (''    experiment-function '' @ [CHR 0x27] @ ''{'' @ [CHR 0x22] @ ''c'' @ [CHR 0x22] @ '': 104}'' @ [CHR 0x27] @ '' '' @ [CHR 0x27] @ ''{'' @ [CHR 0x22] @ ''c'' @ [CHR 0x22] @ '': 65}'' @ [CHR 0x27])],
      [],
      [L ''A case gives one value per param name: an i32 as a number, a buffer_i32 as a''],
      [L ''list of at most '', V ''max_buffer'', L '' numbers (or a number: the length of an output''],
      [L (''buffer), a cstring as hex bytes ending in a NUL (`'' @ [CHR 0x22] @ ''68690000'' @ [CHR 0x22] @ ''`, at most ''), V ''max_arg''],
      [L ''bytes). Each result is `{ret, mem}`: the return value and the final contents of''],
      [L ''every buffer and cstring param (cstrings as hex). `experiment-function` is for''],
      [L (''function tasks only. `experiment` (one whole-program run, see a program task'' @ [CHR 0x27] @ ''s'')],
      [L (''task.md) also works here: `experiment '' @ [CHR 0x27] @ ''{'' @ [CHR 0x22] @ ''argv'' @ [CHR 0x22] @ '': ['' @ [CHR 0x22] @ ''hello'' @ [CHR 0x22] @ '']}'' @ [CHR 0x27] @ ''`.'')],
      [],
      [L ''## Your model''],
      [],
      [L ''`workspace/model.c` defines `'', V ''name'', L ''` with the declared parameters, in order, as''],
      [L ''C types: i32 is `int32_t`, buffer_i32 is `int32_t *`, cstring is `char *`;''],
      [L ''the result is `int32_t`, or `void`. Declare it `__attribute__((sysv_abi))`.''],
      [],
      [L ''`workspace/params.json` is a JSON list, one object per parameter in call order''],
      [L ''(at most '', V ''max_params'', L ''):''],
      [],
      [L ''- `name`: a C identifier of at most 64 characters, unique.''],
      [L ''- `kind`: one of '', V ''kinds'', L ''.''],
      [L ''- `range`: `[lo, hi]`, the i32 bounds the checker draws values from (default''],
      [L ''  '', V ''default_range'', L ''). For a buffer_i32, the range of its cells.''],
      [L ''- `length_param`: for a buffer_i32, the name of the i32 param holding its''],
      [L (''  length; that param'' @ [CHR 0x27] @ ''s `hi` must be at most ''), V ''max_buffer'', L ''.''],
      [L (''- `ret`: on the first param only: `'' @ [CHR 0x22] @ ''i32'' @ [CHR 0x22] @ ''` (default) or `'' @ [CHR 0x22] @ ''void'' @ [CHR 0x22] @ ''` (compare memory'')],
      [L ''  only). A void declaration needs at least one buffer_i32 or cstring param.''],
      [],
      [L ''The declaration must admit at least 2 distinct inputs.''],
      [],
      [L ''## Submitting''],
      [],
      [L ''    submit''],
      [],
      [L ''packs `workspace/model.c` and `workspace/params.json` into `/work/result.json`''],
      [L ''and submits them. Run it as the whole command (its marker must be the first''],
      [L ''line of output). You have '', V ''submissions'', L '' submissions.''],
      [],
      [L ''## Judgment''],
      [],
      [L ''The checker compiles your model and calls it and the original on '', V ''n_fuzz'', L '' cases''],
      [L ''drawn at random from your ranges, fresh for every submission (you cannot choose''],
      [L ''or replay them), comparing the return value and memory. A crash or hang in your''],
      [L (''model is a rejection. A rejection'' @ [CHR 0x27] @ ''s feedback names the stage (`spec` for a'')],
      [L ''malformed declaration, `compile`, ...) and the first diverging case with both''],
      [L ''results. A model that differs from one already rejected only in comments or''],
      [L ''whitespace, or barely at all, is refused without a check and still uses a''],
      [L ''submission.'']]"

definition PROGRAM_MD :: "seg list" where
  "PROGRAM_MD = md_lines
     [[L ''# Program task: model the whole program''],
      [],
      [L ''Write a complete C program (`main` and all) whose observable behaviour matches''],
      [L ''the original program exactly, nominate the cases you claim it reproduces, and''],
      [L ''submit. Acceptance completes the task.''],
      [],
      [V ''common''],
      [L ''Your task file: `program.json` (seed, compiler, optimisation, whether stripped,''],
      [L ''the functions with addresses, and `input`: whether the program reads its input''],
      [L (''from `argv` or from `stdin`). Models of this program'' @ [CHR 0x27] @ ''s functions accepted in'')],
      [L ''earlier tasks are in `memory.json`: build on them.''],
      [],
      [L ''`experiment` runs the ORIGINAL program once per JSON object:''],
      [],
      [L (''    experiment '' @ [CHR 0x27] @ ''{'' @ [CHR 0x22] @ ''argv'' @ [CHR 0x22] @ '': ['' @ [CHR 0x22] @ ''hello'' @ [CHR 0x22] @ '']}'' @ [CHR 0x27] @ '' '' @ [CHR 0x27] @ ''{'' @ [CHR 0x22] @ ''stdin'' @ [CHR 0x22] @ '': '' @ [CHR 0x22] @ ''abc'' @ [CHR 0x5C] @ ''n'' @ [CHR 0x22] @ '', '' @ [CHR 0x22] @ ''quiet'' @ [CHR 0x22] @ '': true}'' @ [CHR 0x27])],
      [],
      [L ''`argv` is at most '', V ''max_args'', L '' strings of at most '', V ''max_arg'', L '' characters, without the''],
      [L ''program name and without NUL; `stdin` is plain text of at most '', V ''max_stdin'', L '' bytes;''],
      [L ''`quiet` leaves the syscall events out of what you are shown. Each result is the''],
      [L (''canonical trace: `argv` with '' @ [CHR 0x22] @ ''prog'' @ [CHR 0x22] @ '' prepended, `stdout`, `stderr` and'')],
      [L ''`stdin_hex` as hex, `exit_code` (-1 on a crash or timeout, with a fault event),''],
      [L ''`files_written` as `{path: hex}`, and `events`, the syscall timeline with''],
      [L ''addresses as `ADDR_n` and written-to descriptors as `FD_n`. A trace too large''],
      [L ''to show arrives without its events, the whole trace in `trace.json` under''],
      [L ''`responses/`. `experiment-function` is for function tasks only; here it fails,''],
      [L ''uncharged.''],
      [],
      [L ''## Your model and cases''],
      [],
      [L ''`workspace/model.c` is the whole program; it is compiled with gcc''],
      [L ''`'', V ''cflags'', L ''`.''],
      [],
      [L ''`workspace/cases.json` nominates up to '', V ''max_cases'', L '' cases, a JSON list of''],
      [L (''`{'' @ [CHR 0x22] @ ''argv'' @ [CHR 0x22] @ '': [str], '' @ [CHR 0x22] @ ''stdin_hex'' @ [CHR 0x22] @ '': str}` (argv without the program name, stdin as'')],
      [L ''hex; same limits as `experiment`). Probing does not nominate anything: only''],
      [L ''cases in cases.json are judged as yours.''],
      [],
      [L ''## Submitting''],
      [],
      [L ''    submit''],
      [],
      [L ''packs `workspace/model.c` and `workspace/cases.json` into `/work/result.json`''],
      [L ''and submits them. Run it as the whole command (its marker must be the first''],
      [L ''line of output). You have '', V ''submissions'', L '' submissions.''],
      [],
      [L ''## Judgment''],
      [],
      [L ''The checker records every nominated case on the original itself, then replays''],
      [L ''your model on them (stage `recorded`), then on '', V ''hidden_n'', L '' further inputs drawn''],
      [L ''fresh for every submission (stage `hidden`). Per case it compares, byte for''],
      [L ''byte after canonicalisation: stdout, stderr, exit code, the files written, and''],
      [L (''the shape of the write-family syscalls (descriptor and count). A rejection'' @ [CHR 0x27] @ ''s'')],
      [L ''feedback gives its `reason` (compile, io-mismatch, files-mismatch,''],
      [L ''event-divergence, event-length, flaky-case, ...) and stage, with the first''],
      [L ''divergence of that stage. A model that differs from one already rejected only''],
      [L ''in comments or whitespace, or barely at all, is refused without a check and''],
      [L ''still uses a submission.'']]"

lemma function_placeholders:
  "set (placeholders FUNCTION_MD) = {''name'', ''common'', ''max_buffer'', ''max_arg'', ''max_params'', ''kinds'', ''default_range'', ''submissions'', ''n_fuzz''}"
  by (simp add: FUNCTION_MD_def md_lines_def placeholders_def List.map_filter_simps) auto

lemma program_placeholders:
  "set (placeholders PROGRAM_MD) = {''common'', ''max_args'', ''max_arg'', ''max_stdin'', ''cflags'', ''max_cases'', ''submissions'', ''hidden_n''}"
  by (simp add: PROGRAM_MD_def md_lines_def placeholders_def List.map_filter_simps)

lemma common_placeholders: "placeholders COMMON_MD = []"
  by (simp add: COMMON_MD_def md_lines_def placeholders_def List.map_filter_simps)

end
