(* ===== verification/Tasks.thy ===== *)
theory Tasks
  imports Task_Text Corpus Operations
begin

text \<open>
  \<^verbatim>\<open>src/src/reschema/tasks.py\<close>: the tasks of a corpus slot.  A task is a record of what the Warranted package's
  \<^verbatim>\<open>TaskSpec\<close> holds.  The parameters are collected in \<^verbatim>\<open>site\<close>: the ELF reader and disassembler, the bytes of
  a file at a path, the C source of a seed and SHA-256.  Files do not change while tasks are built.
\<close>

section \<open>Tasks\<close>

record site =
  st_tools :: tools
  st_read :: "str \<Rightarrow> bytes result"
  st_seed :: "str \<Rightarrow> bytes result"
  st_sha256 :: "bytes \<Rightarrow> str"

record guard =
  gd_exact_repeats :: nat
  gd_near_repeats :: nat
  gd_near_edit_floor :: nat
  gd_near_edit_percent :: nat
  gd_window :: nat

record memory_spec =
  ms_scope :: str
  ms_depends :: "str list"

record task_spec =
  ts_id :: str
  ts_objective :: str
  ts_inputs :: "bytes dict"
  ts_private :: "bytes dict"
  ts_checks :: "str list"
  ts_submissions :: nat
  ts_check_budget :: "nat option"
  ts_guard :: "guard option"
  ts_memory :: "memory_spec option"

definition SUBMISSIONS :: nat where "SUBMISSIONS = 8"

definition GUARD :: guard where
  "GUARD = \<lparr>gd_exact_repeats = 2, gd_near_repeats = 3, gd_near_edit_floor = 24, gd_near_edit_percent = 6, gd_window = 8\<rparr>"

section \<open>The starter of a function\<close>

definition default_range_json :: json where
  "default_range_json = JList [JInt (fst DEFAULT_RANGE), JInt (snd DEFAULT_RANGE)]"

definition arg_name :: "nat \<Rightarrow> str" where
  "arg_name i = ''arg'' @ decn i"

definition scalar_sketch :: "nat \<Rightarrow> json" where
  "scalar_sketch i = JObj [(''name'', JStr (arg_name i)), (''kind'', JStr ''i32''), (''range'', default_range_json)]"

definition void_sketch :: "nat \<Rightarrow> json" where
  "void_sketch n =
     JObj ([(''name'', JStr ''arg0'')]
       @ (if n > 1 then [(''kind'', JStr ''buffer_i32''), (''length_param'', JStr ''arg1''), (''range'', default_range_json)]
          else [(''kind'', JStr ''cstring'')])
       @ [(''ret'', JStr ''void'')])"

definition sketch :: "nat \<Rightarrow> bool \<Rightarrow> json list" where
  "sketch n ret_void =
     (let params = map scalar_sketch [0..<n] in
      if ret_void \<and> params \<noteq> [] then params[0 := void_sketch n] else params)"

definition quoted :: "str \<Rightarrow> str" where
  "quoted s = [CHR 0x22] @ s @ [CHR 0x22]"

definition abi_template :: "str \<Rightarrow> facts \<Rightarrow> str" where
  "abi_template func fa =
     (let n = arity_guess fa; ret_void = \<not> fa_returns_hint fa;
          ret_ty = (if ret_void then ''void'' else ''int32_t'');
          sig = (if n = 0 then ''void'' else join '', '' (map (\<lambda>i. ''int32_t '' @ arg_name i) [0..<n]))
      in join [CHR 0x0A]
        [''/* ReSchema ABI starter '' @ em_dash @ '' '' @ func @ '' (facts are '' @ labeled fa @ '')'',
         '' *'',
         '' * COMPOSE RULE: a helper used by ONE function MUST be declared `static` '' @ em_dash,
         '' * internal linkage means no cross-TU duplicate-symbol failures at compose time.'',
         '' */'',
         ''#include <stdint.h>'',
         ''#define RESCHEMA_FN __attribute__((sysv_abi, noinline))'',
         [],
         ''/* Param-spec JSON sketch (schema from the driver constants):'',
         '' *   kind: '' @ join '' | '' (map quoted KINDS),
         '' *   ret: '' @ quoted ''i32'' @ '' (default) | '' @ quoted ''void'' @ '' '' @ em_dash @ '' carried on params[0]; a void spec with NO'',
         '' *        memory-channel param (buffer_i32/cstring) is REJECTED (compares {} == {}).'',
         '' *   length_param: scalar param name carrying a buffer_i32'' @ [CHR 0x27] @ ''s length'',
         '' *   range: i32 default [-100, 100]; cstring case values travel as hex'',
         '' *'',
         '' * '' @ dumps (JList (sketch n ret_void)),
         '' *'',
         '' * Sketched signature: '' @ ret_ty @ '' '' @ func @ ''('' @ sig @ '') '' @ em_dash @ '' arity '' @ decn n @ '', returns '' @ ret_ty @ '':'',
         '' * heuristic guess; verify via experiments before declaring. */'',
         [], []])"

section \<open>The instructions\<close>

datatype task_kind = Function_Task | Program_Task

definition backticked :: "str \<Rightarrow> str" where
  "backticked s = ''`'' @ s @ ''`''"

definition md_values :: "task_kind \<Rightarrow> nat \<Rightarrow> str \<Rightarrow> str dict" where
  "md_values kd submissions name =
     [(''common'', plain_text COMMON_MD), (''submissions'', decn submissions), (''max_arg'', decn MAX_ARG)]
     @ (case kd of
          Function_Task \<Rightarrow>
            [(''name'', name), (''max_buffer'', dec MAX_BUFFER_LEN), (''max_params'', decn (length BAREGS)),
             (''kinds'', join '', '' (map backticked KINDS)),
             (''default_range'', backticked (py_repr (\<lambda>_. True) default_range_json)), (''n_fuzz'', decn N_FUZZ)]
        | Program_Task \<Rightarrow>
            [(''max_args'', decn MAX_ARGS), (''max_stdin'', decn MAX_STDIN), (''max_cases'', decn MAX_CASES),
             (''cflags'', join '' '' CFLAGS), (''hidden_n'', decn HIDDEN_N)])"

definition task_md :: "task_kind \<Rightarrow> nat \<Rightarrow> str \<Rightarrow> bytes result" where
  "task_md kd submissions name =
     substitute (case kd of Function_Task \<Rightarrow> FUNCTION_MD | Program_Task \<Rightarrow> PROGRAM_MD) (md_values kd submissions name)"

section \<open>Tasks of a slot\<close>

definition file_json :: "json \<Rightarrow> bytes" where
  "file_json j = dumps_indent True j @ [CHR 0x0A]"

definition family :: "site \<Rightarrow> str \<Rightarrow> bytes result" where
  "family S seed =
     bindE (st_seed S seed) (\<lambda>c.
     bindE (dict_get FUNCS seed) (\<lambda>fs.
       Inr (file_json (JObj [(''seed'', JStr seed), (''source_sha256'', JStr (st_sha256 S c)),
              (''functions'', JList (map JStr fs)), (''canonicalizer'', JStr CANONICALIZER_VERSION)]))))"

definition mk_task ::
    "site \<Rightarrow> slot_meta \<Rightarrow> str \<Rightarrow> str \<Rightarrow> bytes dict \<Rightarrow> json dict \<Rightarrow> str \<Rightarrow> nat \<Rightarrow> nat \<Rightarrow> task_spec result" where
  "mk_task S meta suffix objective inputs task check submissions checks =
     bindE (family S (sm_seed meta)) (\<lambda>fam.
     bindE (st_read S (sm_binary meta)) (\<lambda>b.
       Inr \<lparr>ts_id = sm_task_id meta @ ''::'' @ suffix, ts_objective = objective,
            ts_inputs = (''family.json'', fam) # inputs,
            ts_private = [(''binary'', b), (''task.json'', file_json (JObj ((''seed'', JStr (sm_seed meta)) # task)))],
            ts_checks = [check], ts_submissions = submissions, ts_check_budget = Some checks,
            ts_guard = Some GUARD, ts_memory = Some \<lparr>ms_scope = sm_seed meta, ms_depends = [''family.json'']\<rparr>\<rparr>))"

definition callee_json :: "str \<times> str option \<Rightarrow> json" where
  "callee_json c = JObj [(''address'', JStr (fst c)), (''name'', (case snd c of None \<Rightarrow> JNull | Some n \<Rightarrow> JStr n))]"

definition function_json :: "str \<Rightarrow> fn_info \<Rightarrow> facts \<Rightarrow> json" where
  "function_json name f fa =
     JObj [(''function'', JStr name), (''address'', JStr (py_hex (fi_addr f))),
           (''signature_guess'', JObj [(''arity_guess'', JInt (int (arity_guess fa))),
              (''returns_hint'', JBool (fa_returns_hint fa)), (''labeled'', JStr (labeled fa))]),
           (''callees'', JList (map callee_json (callees fa)))]"

definition target_json :: "str \<Rightarrow> fn_info \<Rightarrow> json" where
  "target_json name f = JObj [(''name'', JStr name), (''addr'', JInt (fi_addr f)), (''size'', JInt (fi_size f))]"

definition function_task :: "site \<Rightarrow> slot_meta \<Rightarrow> str \<Rightarrow> nat \<Rightarrow> nat \<Rightarrow> task_spec result" where
  "function_task S meta name submissions check_budget =
     bindE (dict_get (sm_functions meta) name) (\<lambda>f.
     bindE (st_read S (sm_binary meta)) (\<lambda>b.
     bindE (analyze_function (st_tools S) b (sm_functions meta)) (\<lambda>all.
     bindE (dict_get all name) (\<lambda>fa.
     bindE (task_md Function_Task submissions name) (\<lambda>md.
     bindE (disasm_function (st_tools S) b (fi_addr f) (fi_size f)) (\<lambda>dis.
       mk_task S meta (''fn::'' @ name)
         (''Read task.md. Model the function '' @ name @ '': write workspace/model.c and workspace/params.json, then run submit.'')
         [(''task.md'', md), (''function.json'', file_json (function_json name f fa)), (''disasm.txt'', dis),
          (''abi_template.c'', abi_template name fa)]
         [(''function'', target_json name f)] ''function-fuzz'' submissions check_budget))))))"

definition program_json :: "slot_meta \<Rightarrow> json" where
  "program_json meta =
     JObj [(''seed'', JStr (sm_seed meta)), (''compiler'', JStr (sm_compiler meta)), (''opt'', JStr (sm_opt meta)),
           (''stripped'', JBool (sm_stripped meta)), (''functions'', JObj (map (map_prod id fn_json) (sm_functions meta))),
           (''input'', JStr (if has_key (sm_seed meta) INPUT_MODE then ''stdin'' else ''argv''))]"

definition program_task :: "site \<Rightarrow> slot_meta \<Rightarrow> nat \<Rightarrow> nat \<Rightarrow> task_spec result" where
  "program_task S meta submissions check_budget =
     bindE (task_md Program_Task submissions []) (\<lambda>md.
       mk_task S meta ''program''
         ''Read task.md. Model the whole program: write workspace/model.c and workspace/cases.json, then run submit.''
         [(''task.md'', md), (''program.json'', file_json (program_json meta))] [] ''program-replay''
         submissions check_budget)"

definition slot_tasks :: "site \<Rightarrow> slot_meta \<Rightarrow> task_spec list result" where
  "slot_tasks S meta =
     bindE (mapE (\<lambda>n. function_task S meta n SUBMISSIONS SUBMISSIONS) (map fst (sm_functions meta))) (\<lambda>fs.
     bindE (program_task S meta SUBMISSIONS SUBMISSIONS) (\<lambda>p. Inr (fs @ [p])))"

record 'c campaign_spec =
  cs_id :: str
  cs_tasks :: "(task_spec \<times> str) list"
  cs_configs :: "'c dict"

definition campaign :: "site \<Rightarrow> str \<Rightarrow> slot_meta list \<Rightarrow> 'c dict \<Rightarrow> str \<Rightarrow> 'c campaign_spec result" where
  "campaign S cid metas configs split =
     bindE (mapE (slot_tasks S) metas) (\<lambda>tss.
       Inr \<lparr>cs_id = cid, cs_tasks = map (\<lambda>t. (t, split)) (concat tss), cs_configs = configs\<rparr>)"

section \<open>Tasks on disk\<close>

text \<open>
  The files below \<^verbatim>\<open>out\<close> that \<^verbatim>\<open>write_task\<close> writes, in order, the TOML file last.
\<close>

definition toml_str :: "str \<Rightarrow> str" where
  "toml_str s = dumps (JStr s)"

definition toml_list :: "str list \<Rightarrow> str" where
  "toml_list xs = dumps (JList (map JStr xs))"

definition guard_lines :: "guard \<Rightarrow> str list" where
  "guard_lines g =
     [''[duplicate_guard]'', ''exact_repeats = '' @ decn (gd_exact_repeats g), ''near_repeats = '' @ decn (gd_near_repeats g),
      ''near_edit_floor = '' @ decn (gd_near_edit_floor g), ''near_edit_percent = '' @ decn (gd_near_edit_percent g),
      ''window = '' @ decn (gd_window g)]"

definition memory_lines :: "memory_spec \<Rightarrow> str list" where
  "memory_lines m = [''[memory]'', ''scope = '' @ toml_str (ms_scope m), ''depends = '' @ toml_list (ms_depends m)]"

definition table_lines :: "str \<Rightarrow> bytes dict \<Rightarrow> str list" where
  "table_lines table files =
     (''['' @ table @ '']'') # map (\<lambda>(name, _). toml_str name @ '' = '' @ toml_str (table @ ''/'' @ name)) files"

definition task_lines :: "task_spec \<Rightarrow> str list" where
  "task_lines t =
     [''id = '' @ toml_str (ts_id t), ''objective = '' @ toml_str (ts_objective t), ''checks = '' @ toml_list (ts_checks t),
      ''[budgets]'', ''submissions = '' @ decn (ts_submissions t)]
     @ (case ts_check_budget t of None \<Rightarrow> [] | Some n \<Rightarrow> [''checks = '' @ decn n])
     @ (case ts_guard t of None \<Rightarrow> [] | Some g \<Rightarrow> guard_lines g)
     @ (case ts_memory t of None \<Rightarrow> [] | Some m \<Rightarrow> memory_lines m)
     @ table_lines ''inputs'' (ts_inputs t) @ table_lines ''private'' (ts_private t)"

definition lines_file :: "str list \<Rightarrow> bytes" where
  "lines_file ls = join [CHR 0x0A] ls @ [CHR 0x0A]"

definition write_task :: "task_spec \<Rightarrow> bytes dict" where
  "write_task t =
     map (\<lambda>(n, d). (''inputs/'' @ n, d)) (ts_inputs t) @ map (\<lambda>(n, d). (''private/'' @ n, d)) (ts_private t)
     @ [(''task.toml'', lines_file (task_lines t))]"

text \<open>\<^verbatim>\<open>f"{i:03d}"\<close> and the replacement of every character (code point) outside \<^verbatim>\<open>[A-Za-z0-9_.-]\<close>.\<close>

definition dec3 :: "nat \<Rightarrow> str" where
  "dec3 i = replicate (3 - length (decn i)) CHR ''0'' @ decn i"

definition plain_cp :: "nat \<Rightarrow> bool" where
  "plain_cp n = ((65 \<le> n \<and> n < 91) \<or> (97 \<le> n \<and> n < 123) \<or> (48 \<le> n \<and> n < 58) \<or> n = 95 \<or> n = 46 \<or> n = 45)"

definition sanitised :: "str \<Rightarrow> str" where
  "sanitised s = map (\<lambda>n. if plain_cp n then char_of n else CHR ''_'') (code_points s)"

definition task_dir :: "nat \<Rightarrow> str \<Rightarrow> str" where
  "task_dir i tid = ''tasks/'' @ dec3 i @ ''-'' @ sanitised tid"

definition campaign_lines :: "str \<Rightarrow> str dict \<Rightarrow> str list \<Rightarrow> str \<Rightarrow> str list" where
  "campaign_lines cid configs ids split =
     [''id = '' @ toml_str cid, ''[configs]''] @ map (\<lambda>(k, v). toml_str k @ '' = '' @ toml_str v) configs
     @ concat (map (\<lambda>(i, tid). [''[[tasks]]'', ''path = '' @ toml_str (task_dir i tid @ ''/task.toml''),
           ''split = '' @ toml_str split]) (enumerate 0 ids))"

definition write_campaign :: "str \<Rightarrow> task_spec list \<Rightarrow> str dict \<Rightarrow> str \<Rightarrow> bytes dict" where
  "write_campaign cid specs configs split =
     concat (map (\<lambda>(i, t). map (\<lambda>(n, d). (task_dir i (ts_id t) @ ''/'' @ n, d)) (write_task t)) (enumerate 0 specs))
     @ [(''campaign.toml'', lines_file (campaign_lines cid configs (map ts_id specs) split))]"

end
