(* ===== verification/Tasks_Props.thy ===== *)
theory Tasks_Props
  imports Tasks
begin

text \<open>
  What a built task delivers: instructions that can be rendered, private files that the checkers and
  the probes read back, worker files that show no more of the binary than the disassembly of its
  functions, and a layout on disk without collisions.
\<close>

section \<open>Instructions\<close>

lemma task_md_total: "\<exists>b. task_md kd k name = Inr b"
proof -
  have f: "list_all (\<lambda>x. has_key x (md_values Function_Task k name)) (placeholders FUNCTION_MD)"
    unfolding list_all_iff function_placeholders by (auto simp: md_values_def has_key_def)
  have p: "list_all (\<lambda>x. has_key x (md_values Program_Task k name)) (placeholders PROGRAM_MD)"
    unfolding list_all_iff program_placeholders by (auto simp: md_values_def has_key_def)
  show ?thesis
    unfolding task_md_def using substitute_total [OF f] substitute_total [OF p] by (cases kd) auto
qed

section \<open>The sketch of a starter\<close>








section \<open>The private files, as they are read\<close>

text \<open>\<^verbatim>\<open>json.loads\<close> of a document written with \<^verbatim>\<open>sort_keys=True\<close>.\<close>

primrec json_sorted :: "json \<Rightarrow> json" where
  "json_sorted JNull = JNull"
| "json_sorted (JBool b) = JBool b"
| "json_sorted (JInt i) = JInt i"
| "json_sorted (JFloat t) = JFloat t"
| "json_sorted (JStr s) = JStr s"
| "json_sorted (JList xs) = JList (map json_sorted xs)"
| "json_sorted (JObj kvs) = JObj (order_items True (map (map_prod id json_sorted) kvs))"

lemma mk_task_fields:
  assumes "mk_task S meta suffix obj inputs task check k c = Inr t"
  obtains fam b where "family S (sm_seed meta) = Inr fam" "st_read S (sm_binary meta) = Inr b"
    "ts_inputs t = (''family.json'', fam) # inputs" "ts_checks t = [check]"
    "ts_private t = [(''binary'', b), (''task.json'', file_json (JObj ((''seed'', JStr (sm_seed meta)) # task)))]"
    "ts_id t = sm_task_id meta @ ''::'' @ suffix"
    "ts_memory t = Some \<lparr>ms_scope = sm_seed meta, ms_depends = [''family.json'']\<rparr>"
  using assms by (auto simp: mk_task_def bindE_Inr_iff)

lemma function_task_fields:
  assumes "function_task S meta name k c = Inr t"
  obtains f b all fa md dis fam where "map_of (sm_functions meta) name = Some f" "st_read S (sm_binary meta) = Inr b"
    "analyze_function (st_tools S) b (sm_functions meta) = Inr all" "map_of all name = Some fa"
    "task_md Function_Task k name = Inr md" "disasm_function (st_tools S) b (fi_addr f) (fi_size f) = Inr dis"
    "family S (sm_seed meta) = Inr fam"
    "ts_inputs t = [(''family.json'', fam), (''task.md'', md), (''function.json'', file_json (function_json name f fa)),
       (''disasm.txt'', dis), (''abi_template.c'', abi_template name fa)]"
    "ts_private t = [(''binary'', b), (''task.json'', file_json (JObj [(''seed'', JStr (sm_seed meta)), (''function'', target_json name f)]))]"
    "ts_id t = sm_task_id meta @ ''::fn::'' @ name" "ts_checks t = [''function-fuzz'']"
    "ts_memory t = Some \<lparr>ms_scope = sm_seed meta, ms_depends = [''family.json'']\<rparr>"
proof -
  from assms show thesis
    unfolding function_task_def bindE_Inr_iff dict_get_Inr_iff
    by (elim exE conjE mk_task_fields) (rule that, assumption+, simp_all)
qed

lemma program_task_fields:
  assumes "program_task S meta k c = Inr t"
  obtains b md fam where "st_read S (sm_binary meta) = Inr b" "task_md Program_Task k [] = Inr md"
    "family S (sm_seed meta) = Inr fam"
    "ts_inputs t = [(''family.json'', fam), (''task.md'', md), (''program.json'', file_json (program_json meta))]"
    "ts_private t = [(''binary'', b), (''task.json'', file_json (JObj [(''seed'', JStr (sm_seed meta))]))]"
    "ts_id t = sm_task_id meta @ ''::program''" "ts_checks t = [''program-replay'']"
    "ts_memory t = Some \<lparr>ms_scope = sm_seed meta, ms_depends = [''family.json'']\<rparr>"
proof -
  from assms show thesis
    unfolding program_task_def bindE_Inr_iff
    by (elim exE conjE mk_task_fields) (rule that, assumption+, simp_all)
qed

lemma task_json_function:
  assumes "map_of priv ''task.json'' = Some (file_json (JObj [(''seed'', JStr seed), (''function'', target_json name f)]))"
    and "pf_loads P (file_json (JObj [(''seed'', JStr seed), (''function'', target_json name f)]))
       = Inr (json_sorted (JObj [(''seed'', JStr seed), (''function'', target_json name f)]))"
  shows "task_function P priv = Inr \<lparr>tk_name = name, tk_addr = fi_addr f, tk_size = Some (fi_size f)\<rparr>"
    and "task_seed P priv = Inr seed" and "probe_target P priv = Inr (Some (fi_addr f))"
  using assms
  by (simp_all add: task_function_def task_seed_def probe_target_def dict_get_def order_items_def target_json_def)

lemma task_json_program:
  assumes "map_of priv ''task.json'' = Some (file_json (JObj [(''seed'', JStr seed)]))"
    and "pf_loads P (file_json (JObj [(''seed'', JStr seed)])) = Inr (json_sorted (JObj [(''seed'', JStr seed)]))"
  shows "task_function P priv = Inl (KeyError ''function'')" and "task_seed P priv = Inr seed" and "probe_target P priv = Inr None"
  using assms by (simp_all add: task_function_def task_seed_def probe_target_def dict_get_def order_items_def)

text \<open>
  C11: what the task layer writes is what the checkers and the probes read.  From the private files of a
  function task the function checker reads the task's function with the address and size of the
  manifest, the program side reads its seed, the probe its target, and the binary is the slot's.
\<close>

theorem function_task_read_back:
  assumes "function_task S meta name k c = Inr t" and "map_of (sm_functions meta) name = Some f"
    and "doc = JObj [(''seed'', JStr (sm_seed meta)), (''function'', target_json name f)]"
    and "pf_loads P (file_json doc) = Inr (json_sorted doc)"
  shows "task_function P (ts_private t) = Inr \<lparr>tk_name = name, tk_addr = fi_addr f, tk_size = Some (fi_size f)\<rparr>
    \<and> task_seed P (ts_private t) = Inr (sm_seed meta) \<and> probe_target P (ts_private t) = Inr (Some (fi_addr f))
    \<and> (\<exists>b. st_read S (sm_binary meta) = Inr b \<and> map_of (ts_private t) ''binary'' = Some b)"
proof (rule function_task_fields [OF assms(1)])
  fix g b assume g: "map_of (sm_functions meta) name = Some g" and b: "st_read S (sm_binary meta) = Inr b"
    and p: "ts_private t = [(''binary'', b), (''task.json'', file_json (JObj [(''seed'', JStr (sm_seed meta)), (''function'', target_json name g)]))]"
  from g assms(2) have "g = f" by simp
  with p assms(3) have "map_of (ts_private t) ''task.json'' = Some (file_json (JObj [(''seed'', JStr (sm_seed meta)), (''function'', target_json name f)]))"
    by simp
  from task_json_function [OF this assms(4) [unfolded assms(3)]] b p show ?thesis by simp
qed

section \<open>The worker's files\<close>

text \<open>Two binaries with the same instructions in the functions of the manifest.\<close>

definition same_functions :: "tools \<Rightarrow> fn_info dict \<Rightarrow> bytes \<Rightarrow> bytes \<Rightarrow> bool" where
  "same_functions T fs b b' =
     list_all (\<lambda>(n, f). function_insns T b (fi_addr f) (fi_size f) = function_insns T b' (fi_addr f) (fi_size f)) fs"

lemma analyze_same: "same_functions T fs b b' \<Longrightarrow> analyze_function T b fs = analyze_function T b' fs"
  unfolding analyze_function_def same_functions_def
  by (rule arg_cong2 [where f = bindE]) (auto intro!: mapE_cong simp: list_all_iff)

lemma disasm_same:
  "same_functions T fs b b' \<Longrightarrow> map_of fs n = Some f \<Longrightarrow>
     disasm_function T b (fi_addr f) (fi_size f) = disasm_function T b' (fi_addr f) (fi_size f)"
  by (drule map_of_SomeD) (auto simp: same_functions_def disasm_function_def list_all_iff)

lemma family_read: "family (S\<lparr>st_read := r\<rparr>) seed = family S seed"
  by (simp add: family_def)

lemma function_inputs_same:
  assumes "st_read S (sm_binary meta) = Inr b" and "r (sm_binary meta) = Inr b'"
    and "same_functions (st_tools S) (sm_functions meta) b b'"
    and "function_task S meta n k c = Inr t" and "function_task (S\<lparr>st_read := r\<rparr>) meta n k c = Inr t'"
  shows "ts_inputs t' = ts_inputs t"
proof (rule function_task_fields [OF assms(4)], rule function_task_fields [OF assms(5)])
  fix f b1 all fa md dis fam f' b1' all' fa' md' dis' fam'
  assume *: "map_of (sm_functions meta) n = Some f" "map_of (sm_functions meta) n = Some f'"
    "st_read S (sm_binary meta) = Inr b1" "st_read (S\<lparr>st_read := r\<rparr>) (sm_binary meta) = Inr b1'"
    "analyze_function (st_tools S) b1 (sm_functions meta) = Inr all"
    "analyze_function (st_tools (S\<lparr>st_read := r\<rparr>)) b1' (sm_functions meta) = Inr all'"
    "map_of all n = Some fa" "map_of all' n = Some fa'"
    "task_md Function_Task k n = Inr md" "task_md Function_Task k n = Inr md'"
    "disasm_function (st_tools S) b1 (fi_addr f) (fi_size f) = Inr dis"
    "disasm_function (st_tools (S\<lparr>st_read := r\<rparr>)) b1' (fi_addr f') (fi_size f') = Inr dis'"
    "family S (sm_seed meta) = Inr fam" "family (S\<lparr>st_read := r\<rparr>) (sm_seed meta) = Inr fam'"
  assume i: "ts_inputs t = [(''family.json'', fam), (''task.md'', md), (''function.json'', file_json (function_json n f fa)),
       (''disasm.txt'', dis), (''abi_template.c'', abi_template n fa)]"
    "ts_inputs t' = [(''family.json'', fam'), (''task.md'', md'), (''function.json'', file_json (function_json n f' fa')),
       (''disasm.txt'', dis'), (''abi_template.c'', abi_template n fa')]"
  have "b1 = b" "b1' = b'" "f' = f" "md' = md" "fam' = fam" using * assms(1,2) by (simp_all add: family_read)
  moreover from this have "all' = all" using * analyze_same [OF assms(3)] by simp
  moreover have "dis' = dis" using calculation * disasm_same [OF assms(3) *(1)] by simp
  moreover have "fa' = fa" using calculation * by simp
  ultimately show ?thesis using i by simp
qed

lemma program_inputs_same:
  assumes "program_task S meta k c = Inr t" and "program_task (S\<lparr>st_read := r\<rparr>) meta k c = Inr t'"
  shows "ts_inputs t' = ts_inputs t"
proof (rule program_task_fields [OF assms(1)], rule program_task_fields [OF assms(2)])
  fix md fam md' fam'
  assume *: "task_md Program_Task k [] = Inr md" "task_md Program_Task k [] = Inr md'"
    "family S (sm_seed meta) = Inr fam" "family (S\<lparr>st_read := r\<rparr>) (sm_seed meta) = Inr fam'"
    "ts_inputs t = [(''family.json'', fam), (''task.md'', md), (''program.json'', file_json (program_json meta))]"
    "ts_inputs t' = [(''family.json'', fam'), (''task.md'', md'), (''program.json'', file_json (program_json meta))]"
  then show ?thesis by (simp add: family_read)
qed

lemma slot_tasksD:
  assumes "slot_tasks S meta = Inr ts"
  obtains fs p where "ts = fs @ [p]" "program_task S meta SUBMISSIONS SUBMISSIONS = Inr p"
    "list_all2 (\<lambda>n t. function_task S meta n SUBMISSIONS SUBMISSIONS = Inr t) (map fst (sm_functions meta)) fs"
  using assms unfolding slot_tasks_def bindE_Inr_iff by (auto dest: mapE_Inr_list_all2)

text \<open>
  C10: the worker's files show no more of a binary than the disassembly of its listed functions.
  Two binaries with the same instructions there give a slot's tasks the same worker files, whatever else
  they contain; the binary itself is only among the private files.
\<close>

theorem worker_sees_functions_only:
  assumes "st_read S (sm_binary meta) = Inr b" and "r (sm_binary meta) = Inr b'"
    and "same_functions (st_tools S) (sm_functions meta) b b'"
    and "slot_tasks S meta = Inr ts" and "slot_tasks (S\<lparr>st_read := r\<rparr>) meta = Inr ts'"
  shows "map ts_inputs ts' = map ts_inputs ts"
proof (rule slot_tasksD [OF assms(4)], rule slot_tasksD [OF assms(5)])
  fix fs p fs' p'
  assume *: "ts = fs @ [p]" "ts' = fs' @ [p']" "program_task S meta SUBMISSIONS SUBMISSIONS = Inr p"
    "program_task (S\<lparr>st_read := r\<rparr>) meta SUBMISSIONS SUBMISSIONS = Inr p'"
    and l: "list_all2 (\<lambda>n t. function_task S meta n SUBMISSIONS SUBMISSIONS = Inr t) (map fst (sm_functions meta)) fs"
      "list_all2 (\<lambda>n t. function_task (S\<lparr>st_read := r\<rparr>) meta n SUBMISSIONS SUBMISSIONS = Inr t) (map fst (sm_functions meta)) fs'"
  have "map ts_inputs fs' = map ts_inputs fs"
    using l function_inputs_same [where r = r, OF assms(1-3)] by (auto simp: list_all2_conv_all_nth list_eq_iff_nth_eq)
  with * program_inputs_same [OF *(3,4)] show ?thesis by simp
qed

section \<open>The tasks of a slot, in order\<close>

lemma slot_task_shape:
  assumes "slot_tasks S meta = Inr ts" and "t \<in> set ts"
  shows "ts_memory t = Some \<lparr>ms_scope = sm_seed meta, ms_depends = [''family.json'']\<rparr>"
    and "distinct (map fst (ts_inputs t))" and "map fst (ts_private t) = [''binary'', ''task.json'']"
    and "has_key ''family.json'' (ts_inputs t)" and "\<not> has_key ''binary'' (ts_inputs t)"
proof -
  have f: "ts_memory t = Some \<lparr>ms_scope = sm_seed meta, ms_depends = [''family.json'']\<rparr>
      \<and> distinct (map fst (ts_inputs t)) \<and> map fst (ts_private t) = [''binary'', ''task.json'']
      \<and> has_key ''family.json'' (ts_inputs t) \<and> \<not> has_key ''binary'' (ts_inputs t)"
    if "function_task S meta n k c = Inr t" for n k c
    by (rule function_task_fields [OF that]) (simp add: has_key_def)
  have p: "ts_memory t = Some \<lparr>ms_scope = sm_seed meta, ms_depends = [''family.json'']\<rparr>
      \<and> distinct (map fst (ts_inputs t)) \<and> map fst (ts_private t) = [''binary'', ''task.json'']
      \<and> has_key ''family.json'' (ts_inputs t) \<and> \<not> has_key ''binary'' (ts_inputs t)"
    if "program_task S meta k c = Inr t" for k c
    by (rule program_task_fields [OF that]) (simp add: has_key_def)
  from assms(1) obtain fs q where ts: "ts = fs @ [q]" "program_task S meta SUBMISSIONS SUBMISSIONS = Inr q"
    "list_all2 (\<lambda>n t. function_task S meta n SUBMISSIONS SUBMISSIONS = Inr t) (map fst (sm_functions meta)) fs"
    by (rule slot_tasksD)
  have "ts_memory t = Some \<lparr>ms_scope = sm_seed meta, ms_depends = [''family.json'']\<rparr>
      \<and> distinct (map fst (ts_inputs t)) \<and> map fst (ts_private t) = [''binary'', ''task.json'']
      \<and> has_key ''family.json'' (ts_inputs t) \<and> \<not> has_key ''binary'' (ts_inputs t)"
  proof (cases "t = q")
    case True
    then show ?thesis using p ts(2) by blast
  next
    case False
    with assms(2) ts(1) have "t \<in> set fs" by simp
    then obtain n where "function_task S meta n SUBMISSIONS SUBMISSIONS = Inr t"
      using ts(3) by (auto simp: list_all2_conv_all_nth in_set_conv_nth)
    then show ?thesis by (rule f)
  qed
  then show "ts_memory t = Some \<lparr>ms_scope = sm_seed meta, ms_depends = [''family.json'']\<rparr>"
    and "distinct (map fst (ts_inputs t))" and "map fst (ts_private t) = [''binary'', ''task.json'']"
    and "has_key ''family.json'' (ts_inputs t)" and "\<not> has_key ''binary'' (ts_inputs t)"
    by blast+
qed

text \<open>
  A slot's tasks come in campaign order.  First one task per function of the manifest, in its order
  and judged by the function checker, then the program task; all share the seed's memory scope and
  carry the identity file it depends on, and none shows the binary to the worker.
\<close>

lemma slot_tasks_order:
  assumes "slot_tasks S meta = Inr ts"
  shows "map ts_id ts = map (\<lambda>n. sm_task_id meta @ ''::fn::'' @ n) (map fst (sm_functions meta)) @ [sm_task_id meta @ ''::program'']
    \<and> map ts_checks ts = replicate (length (sm_functions meta)) [''function-fuzz''] @ [[''program-replay'']]
    \<and> (\<forall>t \<in> set ts. ts_memory t = Some \<lparr>ms_scope = sm_seed meta, ms_depends = [''family.json'']\<rparr>
         \<and> has_key ''family.json'' (ts_inputs t) \<and> \<not> has_key ''binary'' (ts_inputs t))"
proof -
  obtain fs q where ts: "ts = fs @ [q]" "program_task S meta SUBMISSIONS SUBMISSIONS = Inr q"
    "list_all2 (\<lambda>n t. function_task S meta n SUBMISSIONS SUBMISSIONS = Inr t) (map fst (sm_functions meta)) fs"
    using assms by (rule slot_tasksD)
  have f: "ts_id t = sm_task_id meta @ ''::fn::'' @ n \<and> ts_checks t = [''function-fuzz'']"
    if "function_task S meta n k c = Inr t" for n k c t
    by (rule function_task_fields [OF that]) simp
  have "map ts_id fs = map (\<lambda>n. sm_task_id meta @ ''::fn::'' @ n) (map fst (sm_functions meta))"
    "map ts_checks fs = replicate (length (sm_functions meta)) [''function-fuzz'']"
    using ts(3) f by (auto simp: list_all2_conv_all_nth list_eq_iff_nth_eq)
  moreover have "ts_id q = sm_task_id meta @ ''::program''" "ts_checks q = [''program-replay'']"
    by (rule program_task_fields [OF ts(2)], simp)+
  ultimately show ?thesis using ts(1) slot_task_shape [OF assms] by simp
qed

section \<open>Tasks on disk do not collide\<close>

definition dec_val :: "str \<Rightarrow> nat" where
  "dec_val s = foldl (\<lambda>a c. 10 * a + (byte_val c - 48)) 0 s"

lemma dec_val_digits: "dec_val (base_digits 10 n) = n"
proof (induction "10 :: nat" n rule: base_digits.induct)
  case (1 n)
  show ?case
  proof (cases "n < 10")
    case True
    then show ?thesis by (subst base_digits.simps) (simp add: dec_val_def digit_char_byte_val)
  next
    case False
    have "n mod 10 < 16" by (rule less_trans [OF mod_less_divisor]) simp_all
    moreover have "n mod 10 < 10" by simp
    ultimately have "byte_val (digit_char (n mod 10)) - 48 = n mod 10" by (simp add: digit_char_byte_val)
    with False 1 show ?thesis by (subst base_digits.simps) (simp add: dec_val_def)
  qed
qed

lemma dec_val_pad: "dec_val (replicate k CHR ''0'' @ s) = dec_val s"
proof -
  have "byte_val CHR ''0'' = 48" by code_simp
  then have "foldl (\<lambda>a c. 10 * a + (byte_val c - 48)) 0 (replicate k CHR ''0'') = 0" by (induction k) simp_all
  then show ?thesis by (simp add: dec_val_def)
qed

lemma dec3_inj: "dec3 i = dec3 j \<Longrightarrow> i = j"
proof -
  have "dec_val (dec3 i) = i" for i by (simp add: dec3_def dec_val_pad dec_def dec_val_digits)
  then show "dec3 i = dec3 j \<Longrightarrow> i = j" by metis
qed

lemma digits_no_dash: "CHR ''-'' \<notin> set (base_digits 10 n)"
proof (induction "10 :: nat" n rule: base_digits.induct)
  case (1 n)
  have d: "CHR ''-'' \<noteq> digit_char d" if "d < 16" for d
  proof
    assume "CHR ''-'' = digit_char d"
    moreover have "byte_val CHR ''-'' = 45" by code_simp
    ultimately show False using digit_char_byte_val [OF that] by (auto split: if_splits)
  qed
  have "n mod 10 < 16" by (rule less_trans [OF mod_less_divisor]) simp_all
  note d [OF this]
  moreover have "n < 10 \<Longrightarrow> CHR ''-'' \<noteq> digit_char n" by (rule d) simp
  ultimately show ?case using 1 by (subst base_digits.simps) simp
qed

lemma dec3_no_dash: "CHR ''-'' \<notin> set (dec3 i)"
  using digits_no_dash [of i] by (auto simp: dec3_def dec_def)

lemma takeWhile_before: "c \<notin> set xs \<Longrightarrow> takeWhile (\<lambda>d. d \<noteq> c) (xs @ c # ys) = xs"
  by (induction xs) auto

lemma task_dir_index: "task_dir i a @ x = task_dir j b @ y \<Longrightarrow> i = j"
proof -
  assume "task_dir i a @ x = task_dir j b @ y"
  then have "dec3 i @ CHR ''-'' # (sanitised a @ x) = dec3 j @ CHR ''-'' # (sanitised b @ y)"
    by (simp add: task_dir_def)
  then have "takeWhile (\<lambda>d. d \<noteq> CHR ''-'') (dec3 i @ CHR ''-'' # (sanitised a @ x))
      = takeWhile (\<lambda>d. d \<noteq> CHR ''-'') (dec3 j @ CHR ''-'' # (sanitised b @ y))" by simp
  then have "dec3 i = dec3 j" by (simp only: takeWhile_before [OF dec3_no_dash])
  then show ?thesis by (rule dec3_inj)
qed

lemma write_task_names:
  assumes "distinct (map fst (ts_inputs t))" and "distinct (map fst (ts_private t))"
  shows "distinct (map fst (write_task t))"
proof -
  have "map fst (write_task t) = map ((@) ''inputs/'') (map fst (ts_inputs t)) @ map ((@) ''private/'') (map fst (ts_private t)) @ [''task.toml'']"
    by (simp add: write_task_def case_prod_beta comp_def)
  moreover have "distinct (map ((@) ''inputs/'') (map fst (ts_inputs t)))" "distinct (map ((@) ''private/'') (map fst (ts_private t)))"
    using assms by (auto simp: distinct_map inj_on_def)
  ultimately show ?thesis by (auto simp del: map_map)
qed

definition placed :: "nat \<Rightarrow> task_spec \<Rightarrow> bytes dict" where
  "placed i t = map (\<lambda>(n, d). (task_dir i (ts_id t) @ ''/'' @ n, d)) (write_task t)"

lemma placed_names:
  assumes "distinct (map fst (ts_inputs t))" and "distinct (map fst (ts_private t))"
  shows "distinct (map fst (placed i t))"
proof -
  have "map fst (placed i t) = map (\<lambda>n. task_dir i (ts_id t) @ ''/'' @ n) (map fst (write_task t))"
    by (simp add: placed_def case_prod_beta comp_def)
  moreover have "inj (\<lambda>n. task_dir i (ts_id t) @ ''/'' @ n)" by (auto simp: inj_on_def)
  ultimately show ?thesis
    using write_task_names [OF assms] by (simp add: distinct_map inj_on_def del: map_map)
qed

lemma placed_index: "p \<in> fst ` set (placed i t) \<Longrightarrow> p \<in> fst ` set (placed j u) \<Longrightarrow> i = j"
  by (auto simp: placed_def dest: task_dir_index)

lemma placed_all_names:
  assumes "\<forall>t \<in> set specs. distinct (map fst (ts_inputs t)) \<and> distinct (map fst (ts_private t))"
  shows "distinct (map fst (concat (map (\<lambda>(i, t). placed i t) (enumerate k specs))))"
  using assms
proof (induction specs arbitrary: k)
  case (Cons t specs)
  have "fst ` set (placed k t) \<inter> fst ` set (concat (map (\<lambda>(i, t). placed i t) (enumerate (Suc k) specs))) = {}"
  proof (rule ccontr)
    assume "\<not> ?thesis"
    then obtain p j u where p: "p \<in> fst ` set (placed k t)" "(j, u) \<in> set (enumerate (Suc k) specs)" "p \<in> fst ` set (placed j u)"
      by force
    from p(2) have "Suc k \<le> j" by (auto simp: in_set_enumerate_eq)
    with placed_index [OF p(1,3)] show False by simp
  qed
  with Cons placed_names show ?case by (simp add: Int_commute)
qed simp

text \<open>
  C12: the tasks of a campaign do not collide on disk.  However the task ids look after sanitising, no
  path below the campaign's directory is written twice, and each input file of the task at a position
  is found with its content below the directory of that position.
\<close>

theorem write_campaign_no_collision:
  assumes "mapE (slot_tasks S) metas = Inr tss" and "specs = concat tss"
  shows "distinct (map fst (write_campaign cid specs configs split))
    \<and> (\<forall>i < length specs. \<forall>(n, d) \<in> set (ts_inputs (specs ! i)).
         map_of (write_campaign cid specs configs split) (task_dir i (ts_id (specs ! i)) @ ''/inputs/'' @ n) = Some d)"
proof -
  have "distinct (map fst (ts_inputs t)) \<and> distinct (map fst (ts_private t))" if "t \<in> set specs" for t
  proof -
    from that assms obtain ts meta where "t \<in> set ts" "slot_tasks S meta = Inr ts"
      by (auto elim: mapE_Inr_set)
    then show ?thesis using slot_task_shape by fastforce
  qed
  then have all: "distinct (map fst (concat (map (\<lambda>(i, t). placed i t) (enumerate 0 specs))))"
    by (intro placed_all_names) blast
  have w: "write_campaign cid specs configs split = concat (map (\<lambda>(i, t). placed i t) (enumerate 0 specs))
      @ [(''campaign.toml'', lines_file (campaign_lines cid configs (map ts_id specs) split))]"
    by (simp add: write_campaign_def placed_def)
  have "''campaign.toml'' \<notin> fst ` set (concat (map (\<lambda>(i, t). placed i t) (enumerate 0 specs)))"
    by (auto simp: placed_def task_dir_def)
  with all have dist: "distinct (map fst (write_campaign cid specs configs split))" unfolding w by simp
  moreover have "map_of (write_campaign cid specs configs split) (task_dir i (ts_id (specs ! i)) @ ''/inputs/'' @ n) = Some d"
    if i: "i < length specs" and nd: "(n, d) \<in> set (ts_inputs (specs ! i))" for i n d
  proof (rule map_of_is_SomeI [OF dist])
    have "(''inputs/'' @ n, d) \<in> set (write_task (specs ! i))" using nd by (force simp: write_task_def)
    then have "(task_dir i (ts_id (specs ! i)) @ ''/'' @ ''inputs/'' @ n, d) \<in> set (placed i (specs ! i))"
      unfolding placed_def by force
    moreover have "(i, specs ! i) \<in> set (enumerate 0 specs)" using i by (simp add: in_set_enumerate_eq)
    ultimately show "(task_dir i (ts_id (specs ! i)) @ ''/inputs/'' @ n, d) \<in> set (write_campaign cid specs configs split)"
      unfolding w by force
  qed
  ultimately show ?thesis by blast
qed

section \<open>A concrete slot\<close>

text \<open>One function of one byte at 4096, in two binaries that differ only outside of it.\<close>

definition tiny_tools :: tools where
  "tiny_tools = \<lparr>elf_of = (\<lambda>_. \<lparr>text_addr = 4096, text_data = [CHR 0xC3], elf_symbols = None\<rparr>), disasm = (\<lambda>_ _. [])\<rparr>"

definition tiny_site :: site where
  "tiny_site = \<lparr>st_tools = tiny_tools, st_read = (\<lambda>_. Inr ''one''), st_seed = (\<lambda>_. Inr ''int main;''), st_sha256 = bytes_hex\<rparr>"

definition tiny_fn :: fn_info where
  "tiny_fn = \<lparr>fi_addr = 4096, fi_size = 1\<rparr>"

definition tiny_meta :: slot_meta where
  "tiny_meta = \<lparr>sm_seed = ''filewrite'', sm_compiler = ''gcc'', sm_opt = ''-O0'', sm_stripped = True, sm_binary = ''/b'',
     sm_task_id = ''filewrite::gcc-O0-stripped'', sm_functions = [(''xform_byte'', tiny_fn)]\<rparr>"

lemma tiny_function_task: "\<exists>t. function_task (tiny_site\<lparr>st_read := \<lambda>_. Inr b\<rparr>) tiny_meta ''xform_byte'' k c = Inr t"
proof -
  obtain md where "task_md Function_Task k ''xform_byte'' = Inr md" using task_md_total by blast
  then show ?thesis
    by (simp add: function_task_def tiny_meta_def tiny_site_def tiny_tools_def tiny_fn_def analyze_function_def function_insns_def
        disasm_function_def mk_task_def family_def dict_get_def FUNCS_def Let_def)
qed

lemma tiny_program_task: "\<exists>t. program_task (tiny_site\<lparr>st_read := \<lambda>_. Inr b\<rparr>) tiny_meta k c = Inr t"
proof -
  obtain md where "task_md Program_Task k [] = Inr md" using task_md_total by blast
  then show ?thesis
    by (simp add: program_task_def tiny_meta_def tiny_site_def mk_task_def family_def dict_get_def FUNCS_def)
qed

lemma tiny_slot: "\<exists>ts. slot_tasks (tiny_site\<lparr>st_read := \<lambda>_. Inr b\<rparr>) tiny_meta = Inr ts"
proof -
  obtain t p where "function_task (tiny_site\<lparr>st_read := \<lambda>_. Inr b\<rparr>) tiny_meta ''xform_byte'' SUBMISSIONS SUBMISSIONS = Inr t"
    "program_task (tiny_site\<lparr>st_read := \<lambda>_. Inr b\<rparr>) tiny_meta SUBMISSIONS SUBMISSIONS = Inr p"
    using tiny_function_task tiny_program_task by blast
  then show ?thesis by (simp add: slot_tasks_def tiny_meta_def)
qed

lemma tiny_site_read: "tiny_site\<lparr>st_read := \<lambda>_. Inr ''one''\<rparr> = tiny_site"
  by (simp add: tiny_site_def)


theorem function_task_read_back_witness:
  "\<exists>t. function_task tiny_site tiny_meta ''xform_byte'' 8 8 = Inr t
     \<and> task_function (plain_platform\<lparr>pf_loads := \<lambda>_. Inr (json_sorted (JObj [(''seed'', JStr ''filewrite''),
          (''function'', target_json ''xform_byte'' tiny_fn)]))\<rparr>) (ts_private t)
       = Inr \<lparr>tk_name = ''xform_byte'', tk_addr = 4096, tk_size = Some 1\<rparr>"
proof -
  let ?P = "plain_platform\<lparr>pf_loads := \<lambda>_. Inr (json_sorted (JObj [(''seed'', JStr ''filewrite''),
          (''function'', target_json ''xform_byte'' tiny_fn)]))\<rparr>"
  obtain t where t: "function_task tiny_site tiny_meta ''xform_byte'' 8 8 = Inr t"
    using tiny_function_task [of "''one''"] unfolding tiny_site_read by blast
  have "map_of (sm_functions tiny_meta) ''xform_byte'' = Some tiny_fn" by (simp add: tiny_meta_def)
  moreover have "JObj [(''seed'', JStr ''filewrite''), (''function'', target_json ''xform_byte'' tiny_fn)]
      = JObj [(''seed'', JStr (sm_seed tiny_meta)), (''function'', target_json ''xform_byte'' tiny_fn)]"
    by (simp add: tiny_meta_def)
  moreover have "pf_loads ?P b = Inr (json_sorted (JObj [(''seed'', JStr ''filewrite''),
      (''function'', target_json ''xform_byte'' tiny_fn)]))" for b
    by (simp del: json_sorted.simps)
  ultimately show ?thesis
    using t function_task_read_back [OF t, where P = ?P] by (simp add: tiny_fn_def [THEN arg_cong [where f = fi_addr]]
        tiny_fn_def [THEN arg_cong [where f = fi_size]] del: json_sorted.simps)
qed

theorem worker_sees_functions_only_witness:
  "\<exists>ts ts'. slot_tasks tiny_site tiny_meta = Inr ts \<and> slot_tasks (tiny_site\<lparr>st_read := \<lambda>_. Inr ''two''\<rparr>) tiny_meta = Inr ts'
     \<and> map ts_inputs ts' = map ts_inputs ts"
proof -
  obtain ts ts' where s: "slot_tasks tiny_site tiny_meta = Inr ts"
    "slot_tasks (tiny_site\<lparr>st_read := \<lambda>_. Inr ''two''\<rparr>) tiny_meta = Inr ts'"
    using tiny_slot [of "''one''"] tiny_slot [of "''two''"] unfolding tiny_site_read by blast
  have "st_read tiny_site (sm_binary tiny_meta) = Inr ''one''" by (simp add: tiny_site_def)
  moreover have "same_functions (st_tools tiny_site) (sm_functions tiny_meta) ''one'' ''two''"
    by (simp add: same_functions_def tiny_site_def tiny_tools_def tiny_meta_def function_insns_def)
  ultimately show ?thesis using s worker_sees_functions_only [OF _ _ _ s] by blast
qed

theorem write_campaign_no_collision_witness:
  "\<exists>ts. slot_tasks tiny_site tiny_meta = Inr ts \<and> distinct (map fst (write_campaign ''c'' (ts @ ts) [] ''training''))"
proof -
  obtain ts where ts: "slot_tasks tiny_site tiny_meta = Inr ts"
    using tiny_slot [of "''one''"] unfolding tiny_site_read by blast
  then have "mapE (slot_tasks tiny_site) [tiny_meta, tiny_meta] = Inr [ts, ts]" by simp
  from write_campaign_no_collision [OF this refl] ts show ?thesis by simp
qed

end
