(* ===== verification/Campaign.thy ===== *)
theory Campaign
  imports Tasks
begin

text \<open>
  \<^verbatim>\<open>src/src/reschema/campaign.py\<close>: the command that writes a campaign.  The parsed command line is a record;
  the TOML decoder, the two validating constructors of the Warranted package (\<^verbatim>\<open>LocalChatCompletions\<close>,
  \<^verbatim>\<open>RunConfig\<close>) and the file system are fields of \<^verbatim>\<open>campaign_env\<close>.  Values of a TOML table are given as JSON.
\<close>

section \<open>Run configurations\<close>

definition DOMAIN :: str where "DOMAIN = ''reschema.domain:ReSchemaDomain''"

definition REQUIRED_BUDGETS :: "string list" where "REQUIRED_BUDGETS = [''model'', ''probe'', ''tool'']"

definition LITELLM_REQUIRED :: "string list" where
  "LITELLM_REQUIRED = [''api_key_file'', ''max_tokens'', ''timeout_seconds'']"

definition LITELLM_FIELDS :: "string list" where
  "LITELLM_FIELDS = [''api_base'', ''api_key_file'', ''max_tokens'', ''parameters'', ''timeout_seconds'']"

definition OLLAMA_URL :: str where "OLLAMA_URL = ''http://127.0.0.1:11434/v1''"

definition KNOWN :: "string list" where
  "KNOWN = [''adapter'', ''budgets'', ''container_timeout_seconds'', ''max_steps'', ''model'', ''provider'']"

definition int_in :: "json \<Rightarrow> int \<Rightarrow> int \<Rightarrow> bool" where
  "int_in j lo hi = (case j of JInt n \<Rightarrow> lo \<le> n \<and> n \<le> hi | _ \<Rightarrow> False)"

definition names_text :: "string list \<Rightarrow> str" where
  "names_text ks = py_repr (\<lambda>_. True) (JList (map JStr ks))"

definition keys_within :: "'v dict \<Rightarrow> string list \<Rightarrow> bool" where
  "keys_within d ks = list_all (\<lambda>k. k \<in> set ks) (map fst d)"

definition keys_cover :: "'v dict \<Rightarrow> string list \<Rightarrow> bool" where
  "keys_cover d ks = list_all (\<lambda>k. has_key k d) ks"

text \<open>\<^verbatim>\<open>model.partition("/")\<close>: the text before the first slash and after it.\<close>

definition partition_slash :: "str \<Rightarrow> str \<times> str" where
  "partition_slash s = (takeWhile (\<lambda>c. c \<noteq> CHR ''/'') s, drop 1 (dropWhile (\<lambda>c. c \<noteq> CHR ''/'') s))"

definition litellm_ok :: "str \<Rightarrow> json dict \<Rightarrow> bool" where
  "litellm_ok model adapter =
     (let (vendor, name) = partition_slash model; key = get_default adapter ''api_key_file'' JNull in
      py_strip vendor \<noteq> [] \<and> py_strip name \<noteq> [] \<and> model = py_strip model
      \<and> is_str key \<and> py_strip (as_str key) \<noteq> []
      \<and> int_in (get_default adapter ''max_tokens'' JNull) 1 131072
      \<and> int_in (get_default adapter ''timeout_seconds'' JNull) 1 600
      \<and> is_str (get_default adapter ''api_base'' (JStr [])) \<and> is_obj (get_default adapter ''parameters'' (JObj [])))"

record warranted =
  wr_chat :: "json \<Rightarrow> str \<Rightarrow> json dict \<Rightarrow> unit result"
  wr_run_config :: "str \<Rightarrow> json \<Rightarrow> json dict \<Rightarrow> json \<Rightarrow> unit result"

definition check_adapter :: "warranted \<Rightarrow> json \<Rightarrow> str \<Rightarrow> json dict \<Rightarrow> unit result" where
  "check_adapter W provider model adapter =
     (if provider = JStr ''ollama'' then
        wr_chat W (get_default adapter ''base_url'' (JStr OLLAMA_URL)) model (AList.delete ''base_url'' adapter)
      else if \<not> (keys_cover adapter LITELLM_REQUIRED \<and> keys_within adapter LITELLM_FIELDS) then
        Inl (ValueError (''a litellm [adapter] needs '' @ names_text LITELLM_REQUIRED @ '', and only '' @ names_text LITELLM_FIELDS))
      else if \<not> litellm_ok model adapter then
        Inl (ValueError ''litellm: model is provider/model; api_key_file a path; max_tokens 1..131072; timeout_seconds 1..600'')
      else Inr ())"

definition budgets_ok :: "json \<Rightarrow> bool" where
  "budgets_ok b =
     (case b of
        JObj d \<Rightarrow> keys_cover d REQUIRED_BUDGETS \<and> list_all (\<lambda>(u, n). is_int n \<and> 0 \<le> as_int n) d
      | _ \<Rightarrow> False)"

definition run_budgets :: "warranted \<Rightarrow> json dict \<Rightarrow> json dict result" where
  "run_budgets W data =
     (let model = get_default data ''model'' JNull; provider = get_default data ''provider'' (JStr ''ollama'');
          adapter = get_default data ''adapter'' (JObj []); b = get_default data ''budgets'' (JObj [])
      in if \<not> (keys_within data KNOWN \<and> is_str model) then
           Inl (ValueError (''needs a model string, and only '' @ names_text KNOWN))
         else if \<not> (provider \<in> {JStr ''ollama'', JStr ''litellm''} \<and> is_obj adapter) then
           Inl (ValueError ''provider is ollama or litellm; [adapter] is a table'')
         else bindE (check_adapter W provider (as_str model) (json_dict adapter)) (\<lambda>_.
           if \<not> budgets_ok b then
             Inl (ValueError (''[budgets] must set '' @ names_text REQUIRED_BUDGETS @ '' (and any other units) to integers >= 0''))
           else bindE (wr_run_config W (as_str model) (get_default data ''max_steps'' (JInt 4)) (json_dict b)
                        (get_default data ''container_timeout_seconds'' (JInt 120))) (\<lambda>_. Inr (json_dict b))))"

section \<open>The allowances of a project\<close>

text \<open>\<^verbatim>\<open>Counter.update\<close> adds the counts of a mapping.\<close>

definition count_add :: "int \<Rightarrow> json dict \<Rightarrow> int dict \<Rightarrow> int dict" where
  "count_add k b d = fold (\<lambda>(u, n) d. AList.update u (get_default d u 0 + as_int n * k) d) b d"

definition allowances :: "json dict list \<Rightarrow> task_spec list \<Rightarrow> int dict" where
  "allowances budgets specs =
     AList.update ''check''
       (int (length budgets) * sum_list (map (\<lambda>t. case ts_check_budget t of None \<Rightarrow> 0 | Some n \<Rightarrow> int n) specs))
       (fold (count_add (int (length specs))) budgets [])"

definition allow_args :: "int dict \<Rightarrow> str list" where
  "allow_args d = concat (map (\<lambda>(u, n). [''--allow'', u @ ''='' @ dec n]) (sort_key fst d))"

section \<open>Shell words\<close>

definition shell_safe :: "char \<Rightarrow> bool" where
  "shell_safe c =
     ((65 \<le> byte_val c \<and> byte_val c < 91) \<or> (97 \<le> byte_val c \<and> byte_val c < 123) \<or> (48 \<le> byte_val c \<and> byte_val c < 58)
      \<or> c \<in> set ''_@%+=:,./-'')"

definition shell_quote :: "str \<Rightarrow> str" where
  "shell_quote s =
     (if s = [] then [CHR 0x27, CHR 0x27]
      else if list_all shell_safe s then s
      else [CHR 0x27]
           @ concat (map (\<lambda>c. if c = CHR 0x27 then [CHR 0x27, CHR 0x22, CHR 0x27, CHR 0x22, CHR 0x27] else [c]) s)
           @ [CHR 0x27])"

definition shell_join :: "str list \<Rightarrow> str" where
  "shell_join ws = join '' '' (map shell_quote ws)"

section \<open>\<^verbatim>\<open>main\<close>\<close>

record config_arg =
  cg_path :: str
  cg_stem :: str
  cg_rel :: str

record campaign_args =
  ca_out :: str
  ca_out_abs :: str
  ca_out_name :: str
  ca_id :: "str option"
  ca_configs :: "config_arg list"
  ca_project :: "str option"
  ca_slots :: "str list"
  ca_all :: bool

text \<open>\<^verbatim>\<open>cm_fresh\<close>: the directory does not exist or is empty.  \<^verbatim>\<open>cm_read\<close>: the text of a file.\<close>

record 'w campaign_env =
  cm_corpus :: "'w corpus_env"
  cm_root :: str
  cm_site :: "'w \<Rightarrow> site"
  cm_warranted :: warranted
  cm_toml :: "str \<Rightarrow> json dict result"
  cm_read :: "str \<Rightarrow> 'w \<Rightarrow> str result"
  cm_fresh :: "str \<Rightarrow> 'w \<Rightarrow> bool"
  cm_write :: "str \<Rightarrow> bytes \<Rightarrow> 'w \<Rightarrow> 'w"
  cm_printable :: "nat \<Rightarrow> bool"

datatype cli = Usage | Exit int str str

definition fail_cli :: "str \<Rightarrow> json dict \<Rightarrow> cli" where
  "fail_cli reason detail =
     Exit 2 [] (dumps (JObj ([(''accepted'', JBool False), (''reason'', JStr reason)] @ detail)) @ [CHR 0x0A])"

text \<open>\<^verbatim>\<open>except (OSError, UnicodeDecodeError, TOMLDecodeError)\<close> and \<^verbatim>\<open>except (ValueError, TypeError)\<close>.\<close>

fun config_error :: "exn \<Rightarrow> bool" where
  "config_error (ValueError m) = True"
| "config_error (TypeError m) = True"
| "config_error (FileNotFoundError m) = True"
| "config_error UnicodeDecodeError = True"
| "config_error _ = False"

definition config_budgets :: "'w campaign_env \<Rightarrow> 'w \<Rightarrow> config_arg \<Rightarrow> json dict result" where
  "config_budgets K w c =
     bindE (cm_read K (cg_path c) w) (\<lambda>s. bindE (cm_toml K s) (run_budgets (cm_warranted K)))"

text \<open>All budgets, or the first configuration that fails with its error.\<close>

fun all_budgets :: "'w campaign_env \<Rightarrow> 'w \<Rightarrow> config_arg list \<Rightarrow> (config_arg \<times> exn) + json dict list" where
  "all_budgets K w [] = Inr []"
| "all_budgets K w (c # cs) =
     (case config_budgets K w c of
        Inl e \<Rightarrow> Inl (c, e)
      | Inr b \<Rightarrow> (case all_budgets K w cs of Inl x \<Rightarrow> Inl x | Inr bs \<Rightarrow> Inr (b # bs)))"

text \<open>What the tasks read of a manifest entry; entries are written by \<^verbatim>\<open>build\<close>.\<close>

definition read_fn :: "json \<Rightarrow> fn_info" where
  "read_fn j = (let d = json_dict j in
     \<lparr>fi_addr = as_int (get_default d ''addr'' JNull), fi_size = as_int (get_default d ''size'' JNull)\<rparr>)"

definition read_meta :: "json \<Rightarrow> slot_meta" where
  "read_meta j =
     (let d = json_dict j; field = (\<lambda>k. as_str (get_default d k JNull)) in
      \<lparr>sm_seed = field ''seed'', sm_compiler = field ''compiler'', sm_opt = field ''opt'',
       sm_stripped = (get_default d ''stripped'' JNull = JBool True), sm_binary = field ''binary'',
       sm_task_id = field ''task_id'',
       sm_functions = map (map_prod id read_fn) (json_dict (get_default d ''functions'' JNull))\<rparr>)"

definition chosen_metas :: "campaign_args \<Rightarrow> str list \<Rightarrow> json \<Rightarrow> slot_meta list result" where
  "chosen_metas a current man =
     (case man of
        JList xs \<Rightarrow>
          bindE (mapE entry_id xs) (\<lambda>es.
            let manifest = keyed es [] in
            if ca_all a then Inr (map (read_meta \<circ> snd) (filter (\<lambda>(i, m). i \<in> set current) manifest))
            else bindE (mapE (dict_get manifest) (ca_slots a)) (\<lambda>ms. Inr (map read_meta ms)))
      | _ \<Rightarrow> Inl (TypeError ''manifest''))"

definition project_path :: "campaign_args \<Rightarrow> str" where
  "project_path a = (case ca_project a of Some p \<Rightarrow> p | None \<Rightarrow> ca_out a @ ''/project'')"

definition campaign_id :: "campaign_args \<Rightarrow> str" where
  "campaign_id a = (case ca_id a of Some i \<Rightarrow> if i = [] then ca_out_name a else i | None \<Rightarrow> ca_out_name a)"

definition commands :: "campaign_args \<Rightarrow> int dict \<Rightarrow> str list list" where
  "commands a allow =
     [[''uv'', ''run'', ''warranted'', ''init'', project_path a, ''--domain'', DOMAIN] @ allow_args allow,
      [''uv'', ''run'', ''warranted'', ''campaign'', ''run'', project_path a, ca_out a @ ''/campaign.toml''],
      [''uv'', ''run'', ''warranted'', ''campaign'', ''report'', project_path a, campaign_id a],
      [''uv'', ''run'', ''python'', ''-m'', ''reschema.regrade'', project_path a]]"

definition report_text :: "campaign_args \<Rightarrow> nat \<Rightarrow> nat \<Rightarrow> int dict \<Rightarrow> str" where
  "report_text a ntasks nslots allow =
     lines_file ([''wrote '' @ ca_out_abs a @ ''/campaign.toml ('' @ decn ntasks @ '' tasks, '' @ decn nslots @ '' slots)'', ''next:'']
       @ map (\<lambda>cmd. ''  '' @ shell_join cmd) (commands a allow))"

definition write_files :: "'w campaign_env \<Rightarrow> str \<Rightarrow> bytes dict \<Rightarrow> 'w \<Rightarrow> 'w" where
  "write_files K dir fs w = fold (\<lambda>(n, d). cm_write K (dir @ ''/'' @ n) d) fs w"

definition write_out ::
    "'w campaign_env \<Rightarrow> campaign_args \<Rightarrow> json dict list \<Rightarrow> slot_meta list \<Rightarrow> 'w \<Rightarrow> cli result \<times> 'w" where
  "write_out K a budgets metas w =
     (case mapE (slot_tasks (cm_site K w)) metas of
        Inl e \<Rightarrow> (Inl e, w)
      | Inr tss \<Rightarrow>
          (let specs = concat tss; allow = allowances budgets specs;
               configs = map (\<lambda>c. (cg_stem c, cg_rel c)) (ca_configs a) in
           (Inr (Exit 0 (report_text a (length specs) (length metas) allow) []),
            write_files K (ca_out_abs a) (write_campaign (campaign_id a) specs configs ''training'') w)))"

definition build_and_write :: "'w campaign_env \<Rightarrow> campaign_args \<Rightarrow> json dict list \<Rightarrow> 'w \<Rightarrow> cli result \<times> 'w" where
  "build_and_write K a budgets w =
     (case build (cm_corpus K) (cm_printable K) (cm_root K) None None w of
        (Inl e, w1) \<Rightarrow> (Inl e, w1)
      | (Inr _, w1) \<Rightarrow>
          (case bindE (load_manifest (cm_corpus K) (cm_root K) w1) (chosen_metas a (all_task_ids (ce_seeds (cm_corpus K)))) of
             Inl e \<Rightarrow> (Inl e, w1)
           | Inr metas \<Rightarrow> write_out K a budgets metas w1))"

definition campaign_main :: "'w campaign_env \<Rightarrow> campaign_args \<Rightarrow> 'w \<Rightarrow> cli result \<times> 'w" where
  "campaign_main K a w =
     (let names = map cg_stem (ca_configs a); current = all_task_ids (ce_seeds (cm_corpus K));
          unknown = filter (\<lambda>s. s \<notin> set current) (ca_slots a) in
      if (ca_slots a \<noteq> []) = ca_all a then (Inr Usage, w)
      else if \<not> cm_fresh K (ca_out_abs a) w then
        (Inr (fail_cli ''bad-config'' [(''detail'', JStr (''--out must be new or empty: '' @ ca_out_abs a))]), w)
      else if \<not> distinct names then
        (Inr (fail_cli ''duplicate-config-name'' [(''configs'', JList (map JStr names))]), w)
      else
        (case all_budgets K w (ca_configs a) of
           Inl (c, e) \<Rightarrow>
             (if config_error e
              then Inr (fail_cli ''bad-config'' [(''detail'', JStr (cg_path c @ '': '' @ exn_text (cm_printable K) e))])
              else Inl e, w)
         | Inr budgets \<Rightarrow>
             if unknown \<noteq> [] then
               (Inr (fail_cli ''unknown-slot'' [(''slots'', JList (map JStr unknown)), (''available'', JList (map JStr (sort (remdups current))))]), w)
             else build_and_write K a budgets w))"

end
