(* ===== verification/Campaign_Props.thy ===== *)
theory Campaign_Props
  imports Campaign Tasks_Props Corpus_Props
begin

text \<open>
  The campaign command: refusals change nothing, the campaign holds the requested slots in order,
  the printed allowances, and shell quoting.
\<close>

section \<open>Refusals\<close>

lemma build_and_write_not_refused:
  "build_and_write K a budgets w = (Inr r, w') \<Longrightarrow> \<exists>out. r = Exit 0 out []"
  by (auto simp: build_and_write_def write_out_def Let_def split: prod.splits sum.splits)

text \<open>
  An operator error leaves everything as it was.  When the command ends with its usage or with exit
  status 2, no file was written and no container was started.
\<close>

lemma campaign_refusal_untouched:
  assumes "campaign_main K a w = (Inr r, w')" and "r = Usage \<or> (\<exists>out err. r = Exit 2 out err)"
  shows "w' = w"
proof (rule ccontr)
  assume ne: "w' \<noteq> w"
  with assms(1) obtain budgets where "build_and_write K a budgets w = (Inr r, w')"
    by (auto simp: campaign_main_def Let_def split: if_splits sum.splits prod.splits)
  from build_and_write_not_refused [OF this] assms(2) show False by auto
qed

section \<open>Allowances\<close>

lemma count_add_lookup:
  "distinct (map fst b) \<Longrightarrow> map_of (count_add k b d) u =
     (case map_of b u of None \<Rightarrow> map_of d u | Some n \<Rightarrow> Some (get_default d u 0 + as_int n * k))"
proof (induction b arbitrary: d)
  case (Cons x b)
  obtain v n where x: "x = (v, n)" by fastforce
  let ?d = "AList.update v (get_default d v 0 + as_int n * k) d"
  have "count_add k (x # b) d = count_add k b ?d" by (simp add: count_add_def x)
  moreover have "map_of b v = None" using Cons.prems x by (simp add: map_of_eq_None_iff)
  ultimately show ?case using Cons x by (auto simp: get_default_def split: option.split)
qed (simp add: count_add_def)

definition budget_sum :: "json dict list \<Rightarrow> string \<Rightarrow> int" where
  "budget_sum bs u = sum_list (map (\<lambda>b. case map_of b u of None \<Rightarrow> 0 | Some n \<Rightarrow> as_int n) bs)"

lemma counts_lookup:
  assumes "list_all (\<lambda>b. distinct (map fst b)) bs"
  shows "map_of (fold (count_add k) bs d) u =
    (if list_ex (has_key u) bs then Some (get_default d u 0 + budget_sum bs u * k) else map_of d u)"
  using assms
proof (induction bs arbitrary: d)
  case (Cons b bs)
  have dd: "distinct (map fst b)" using Cons.prems by simp
  have g: "get_default (count_add k b d) u 0 = get_default d u 0 + (case map_of b u of None \<Rightarrow> 0 | Some n \<Rightarrow> as_int n) * k"
    unfolding get_default_def count_add_lookup [OF dd] by (auto simp: get_default_def split: option.split)
  have z: "budget_sum bs u = 0" if "\<not> list_ex (has_key u) bs"
  proof -
    have "\<forall>b \<in> set bs. map_of b u = None" using that by (auto simp: list_ex_iff has_key_def)
    then show ?thesis by (induction bs) (simp_all add: budget_sum_def)
  qed
  have e: "map_of (fold (count_add k) (b # bs) d) u =
      (if list_ex (has_key u) bs then Some (get_default (count_add k b d) u 0 + budget_sum bs u * k)
       else map_of (count_add k b d) u)"
    using Cons by simp
  have s: "budget_sum (b # bs) u = (case map_of b u of None \<Rightarrow> 0 | Some n \<Rightarrow> as_int n) + budget_sum bs u"
    by (simp add: budget_sum_def)
  show ?case
  proof (cases "list_ex (has_key u) bs")
    case True
    then show ?thesis unfolding e g s by (simp add: distrib_right)
  next
    case False
    then show ?thesis
      unfolding e s by (cases "map_of b u") (simp_all add: count_add_lookup [OF dd] z has_key_def [of u b])
  qed
qed (simp add: budget_sum_def)

text \<open>
  C26: the printed allowances.  A unit of the run configurations other than \<^verbatim>\<open>check\<close> is allowed the sum of its
  budgets times the number of tasks.  The unit \<^verbatim>\<open>check\<close> is allowed the tasks' check budgets once per
  configuration, whatever the configurations themselves budget for it.
\<close>

theorem campaign_allowances:
  assumes "list_all (\<lambda>b. distinct (map fst b)) budgets"
  shows "map_of (allowances budgets specs) u =
    (if u = ''check'' then Some (int (length budgets) * sum_list (map (\<lambda>t. case ts_check_budget t of None \<Rightarrow> 0 | Some n \<Rightarrow> int n) specs))
     else if list_ex (has_key u) budgets then Some (budget_sum budgets u * int (length specs)) else None)"
  using counts_lookup [OF assms, of "int (length specs)" "[]" u]
  by (auto simp: allowances_def get_default_def)

section \<open>The tasks of the campaign\<close>

lemma keyed_task_ids:
  assumes "mapE entry_id xs = Inr es" and "map_of (keyed es []) s = Some x"
  shows "map_of (json_dict x) ''task_id'' = Some (JStr s)"
proof -
  from assms(2) have "(s, x) \<in> set es" by (auto simp: keyed_lookup split: option.splits dest: map_of_SomeD)
  with assms(1) obtain y where "entry_id y = Inr (s, x)" by (auto elim: mapE_Inr_set)
  then obtain t where t: "item ''task_id'' y = Inr t"
    "(case t of JStr i \<Rightarrow> Inr (i, y) | _ \<Rightarrow> Inl (TypeError ''task_id'')) = Inr (s, x)"
    by (auto simp: entry_id_def bindE_Inr_iff)
  from t(2) have "t = JStr s" "y = x" by (cases t; simp)+
  with t(1) have "item ''task_id'' x = Inr (JStr s)" by simp
  then show ?thesis by (cases x) (simp_all add: dict_get_Inr_iff)
qed

lemma chosen_in_order:
  assumes "chosen_metas a current man = Inr metas" and "\<not> ca_all a"
  shows "map sm_task_id metas = ca_slots a"
proof -
  from assms obtain xs es ms where man: "man = JList xs" and es: "mapE entry_id xs = Inr es"
    and ms: "mapE (dict_get (keyed es [])) (ca_slots a) = Inr ms" "metas = map read_meta ms"
    by (auto simp: chosen_metas_def bindE_Inr_iff Let_def split: json.splits)
  have "list_all2 (\<lambda>s x. dict_get (keyed es []) s = Inr x) (ca_slots a) ms" by (rule mapE_Inr_list_all2 [OF ms(1)])
  then have "list_all2 (\<lambda>s x. sm_task_id (read_meta x) = s) (ca_slots a) ms"
    by (rule list_all2_mono)
      (auto simp: dict_get_Inr_iff read_meta_def Let_def get_default_def dest: keyed_task_ids [OF es])
  then show ?thesis unfolding ms(2) by (auto simp: list_all2_conv_all_nth list_eq_iff_nth_eq)
qed

definition slot_ids :: "slot_meta \<Rightarrow> str list" where
  "slot_ids m = map (\<lambda>n. sm_task_id m @ ''::fn::'' @ n) (map fst (sm_functions m)) @ [sm_task_id m @ ''::program'']"

lemma slot_tasks_ids: "slot_tasks S meta = Inr ts \<Longrightarrow> map ts_id ts = slot_ids meta"
proof -
  assume "slot_tasks S meta = Inr ts"
  then obtain fs q where ts: "ts = fs @ [q]" "program_task S meta SUBMISSIONS SUBMISSIONS = Inr q"
    "list_all2 (\<lambda>n t. function_task S meta n SUBMISSIONS SUBMISSIONS = Inr t) (map fst (sm_functions meta)) fs"
    by (rule slot_tasksD)
  have f: "ts_id t = sm_task_id meta @ ''::fn::'' @ n" if "function_task S meta n k c = Inr t" for n k c t
    by (rule function_task_fields [OF that]) simp
  have "map ts_id fs = map (\<lambda>n. sm_task_id meta @ ''::fn::'' @ n) (map fst (sm_functions meta))"
    using ts(3) f by (auto simp: list_all2_conv_all_nth list_eq_iff_nth_eq)
  moreover have "ts_id q = sm_task_id meta @ ''::program''" by (rule program_task_fields [OF ts(2)])
  ultimately show ?thesis using ts(1) by (simp add: slot_ids_def)
qed

text \<open>
  A written campaign holds the requested slots.  When the command succeeds for a list of slots, the
  files below the output directory are exactly those of a campaign whose tasks are, slot by slot in
  the requested order, the slot's function tasks and then its program task.
\<close>

lemma campaign_written:
  assumes "campaign_main K a w = (Inr (Exit 0 out err), w')" and "\<not> ca_all a"
  shows "\<exists>metas specs configs w1. map sm_task_id metas = ca_slots a \<and> map ts_id specs = concat (map slot_ids metas)
    \<and> w' = write_files K (ca_out_abs a) (write_campaign (campaign_id a) specs configs ''training'') w1"
proof -
  from assms obtain budgets where "build_and_write K a budgets w = (Inr (Exit 0 out err), w')"
    by (auto simp: campaign_main_def fail_cli_def Let_def split: if_splits sum.splits prod.splits)
  then obtain w1 man metas where
    m: "chosen_metas a (all_task_ids (ce_seeds (cm_corpus K))) man = Inr metas"
    and o: "write_out K a budgets metas w1 = (Inr (Exit 0 out err), w')"
    by (auto simp: build_and_write_def bindE_Inr_iff split: sum.splits prod.splits)
  from o obtain tss where tss: "mapE (slot_tasks (cm_site K w1)) metas = Inr tss"
    and w': "w' = write_files K (ca_out_abs a) (write_campaign (campaign_id a) (concat tss)
        (map (\<lambda>c. (cg_stem c, cg_rel c)) (ca_configs a)) ''training'') w1"
    by (auto simp: write_out_def Let_def split: sum.splits)
  have "list_all2 (\<lambda>m ts. map ts_id ts = slot_ids m) metas tss"
    using mapE_Inr_list_all2 [OF tss] by (rule list_all2_mono) (rule slot_tasks_ids)
  then have "map ts_id (concat tss) = concat (map slot_ids metas)"
    by (induction rule: list_all2_induct) auto
  with chosen_in_order [OF m assms(2)] w' show ?thesis by blast
qed

section \<open>Shell quoting\<close>

text \<open>
  Word splitting of a POSIX shell for lines without substitutions: spaces separate words, single
  quotes keep everything, double quotes keep what is not special inside them, and unquoted characters
  must be plain.
\<close>

datatype sh_mode = Out | Word | Single | Double

fun sh_words :: "sh_mode \<Rightarrow> str \<Rightarrow> str \<Rightarrow> str list option" where
  "sh_words Out acc [] = Some []"
| "sh_words Word acc [] = Some [rev acc]"
| "sh_words Single acc [] = None"
| "sh_words Double acc [] = None"
| "sh_words Out acc (c # s) =
     (if c = CHR '' '' then sh_words Out [] s
      else if c = CHR 0x27 then sh_words Single [] s
      else if c = CHR 0x22 then sh_words Double [] s
      else if shell_safe c then sh_words Word [c] s else None)"
| "sh_words Word acc (c # s) =
     (if c = CHR '' '' then map_option ((#) (rev acc)) (sh_words Out [] s)
      else if c = CHR 0x27 then sh_words Single acc s
      else if c = CHR 0x22 then sh_words Double acc s
      else if shell_safe c then sh_words Word (c # acc) s else None)"
| "sh_words Single acc (c # s) = (if c = CHR 0x27 then sh_words Word acc s else sh_words Single (c # acc) s)"
| "sh_words Double acc (c # s) =
     (if c = CHR 0x22 then sh_words Word acc s
      else if c \<in> {CHR 0x5C, CHR ''$'', CHR 0x60} then None
      else sh_words Double (c # acc) s)"

lemma safe_plain: "shell_safe c \<Longrightarrow> c \<noteq> CHR '' '' \<and> c \<noteq> CHR 0x27 \<and> c \<noteq> CHR 0x22"
proof -
  have "\<not> shell_safe CHR '' ''" "\<not> shell_safe CHR 0x27" "\<not> shell_safe CHR 0x22" by code_simp+
  then show "shell_safe c \<Longrightarrow> c \<noteq> CHR '' '' \<and> c \<noteq> CHR 0x27 \<and> c \<noteq> CHR 0x22" by auto
qed

lemma sh_plain: "list_all shell_safe w \<Longrightarrow> sh_words Word acc (w @ r) = sh_words Word (rev w @ acc) r"
  by (induction w arbitrary: acc) (auto dest: safe_plain)

lemma sh_single:
  "sh_words Single acc (concat (map (\<lambda>c. if c = CHR 0x27 then [CHR 0x27, CHR 0x22, CHR 0x27, CHR 0x22, CHR 0x27] else [c]) w)
     @ CHR 0x27 # r) = sh_words Word (rev w @ acc) r"
  by (induction w arbitrary: acc) auto

lemma sh_quote: "sh_words Out [] (shell_quote w @ r) = sh_words Word (rev w) r"
proof (cases "w = [] \<or> \<not> list_all shell_safe w")
  case True
  then show ?thesis using sh_single [of "[]" w r] by (auto simp: shell_quote_def)
next
  case False
  then obtain c v where w: "w = c # v" "shell_safe c" "list_all shell_safe v" by (cases w) auto
  then show ?thesis using safe_plain [OF w(2)] sh_plain [OF w(3), of "[c]" r] by (simp add: shell_quote_def)
qed

text \<open>
  The printed commands are what was meant.  Splitting a joined command line into words as a shell
  does gives back the argument vector, whatever the paths and ids contain.
\<close>

lemma shell_join_roundtrip: "sh_words Out [] (shell_join ws) = Some ws"
proof (induction ws)
  case (Cons w ws)
  show ?case
  proof (cases ws)
    case Nil
    then show ?thesis using sh_quote [of w "[]"] by (simp add: shell_join_def)
  next
    case (Cons v vs)
    then have "shell_join (w # ws) = shell_quote w @ CHR '' '' # shell_join ws" by (simp add: shell_join_def)
    then show ?thesis using Cons.IH by (simp add: sh_quote)
  qed
qed (simp add: shell_join_def)

section \<open>A concrete command\<close>

text \<open>
  A corpus of one seed whose builds always succeed; every file reads as \<^verbatim>\<open>2.1\<close>, and the decoder of the
  manifest knows one slot.
\<close>

definition tiny_corpus :: "nat corpus_env" where
  "tiny_corpus = \<lparr>ce_seeds = [''filewrite''], ce_build = (\<lambda>job root t w. (Inr (JObj [(''results'', JList [])]), w)),
     ce_tools = \<lparr>elf_of = (\<lambda>_. \<lparr>text_addr = 4096, text_data = [CHR 0xC3],
         elf_symbols = Some [\<lparr>sym_name = ''xform_byte'', sym_value = 4096, sym_size = 1, sym_type = ''STT_FUNC''\<rparr>]\<rparr>),
       disasm = (\<lambda>_ _. [])\<rparr>,
     ce_read = (\<lambda>p w. Some ''2.1''), ce_write = (\<lambda>p c w. Suc w),
     ce_loads = (\<lambda>t. Inr (JList [meta_json tiny_meta]))\<rparr>"

definition tiny_env :: "nat campaign_env" where
  "tiny_env = \<lparr>cm_corpus = tiny_corpus, cm_root = ''r'', cm_site = (\<lambda>_. tiny_site),
     cm_warranted = \<lparr>wr_chat = (\<lambda>_ _ _. Inr ()), wr_run_config = (\<lambda>_ _ _ _. Inr ())\<rparr>,
     cm_toml = (\<lambda>_. Inr [(''model'', JStr ''m''), (''budgets'', JObj [(''model'', JInt 1), (''tool'', JInt 2), (''probe'', JInt 3), (''check'', JInt 5)])]),
     cm_read = (\<lambda>_ _. Inr ''t''), cm_fresh = (\<lambda>_ _. True), cm_write = (\<lambda>p c w. Suc w), cm_printable = (\<lambda>_. True)\<rparr>"

definition tiny_args :: "str list \<Rightarrow> campaign_args" where
  "tiny_args slots = \<lparr>ca_out = ''o'', ca_out_abs = ''/o'', ca_out_name = ''o'', ca_id = None,
     ca_configs = [\<lparr>cg_path = ''c.toml'', cg_stem = ''c'', cg_rel = ''../c.toml''\<rparr>],
     ca_project = None, ca_slots = slots, ca_all = False\<rparr>"

lemma tiny_budgets:
  "all_budgets tiny_env w (ca_configs (tiny_args ss))
     = Inr [[(''model'', JInt 1), (''tool'', JInt 2), (''probe'', JInt 3), (''check'', JInt 5)]]"
  by (simp add: tiny_env_def tiny_args_def config_budgets_def run_budgets_def get_default_def keys_within_def KNOWN_def
      check_adapter_def budgets_ok_def keys_cover_def REQUIRED_BUDGETS_def has_key_def)

lemma tiny_ids: "''filewrite::gcc-O0-stripped'' \<in> set (all_task_ids [''filewrite''])"
  by code_simp

lemma tiny_unknown: "''nope'' \<notin> set (all_task_ids [''filewrite''])"
  by code_simp

lemma tiny_entry: "\<exists>m. built_entry tiny_corpus ''r'' w x = Inr m \<and> sm_task_id m = task_id_of ''filewrite'' (snd x)"
  if "fst x = ''filewrite''"
  using that
  by (cases x) (simp add: built_entry_def tiny_corpus_def dict_get_def FUNCS_def symtab_def captured_funcs_def
      List.map_filter_simps task_id_of_def Let_def)

lemma keyed_keys: "fst ` set (keyed es d) = fst ` set es \<union> fst ` set d"
proof (induction es arbitrary: d)
  case (Cons e es)
  have "keyed (e # es) d = keyed es (AList.update (fst e) (snd e) d)" by (simp add: keyed_def case_prod_beta)
  then show ?case by (simp only: Cons.IH dom_update) auto
qed (simp add: keyed_def)

lemma tiny_sorted:
  assumes "\<forall>m \<in> set built. sm_task_id m \<in> set (all_task_ids [''filewrite''])"
  shows "\<exists>ts. sort_manifest (merge_manifest [] built) = Inr ts"
proof -
  obtain ks where ks: "mapE slot_sort_key (all_task_ids [''filewrite'']) = Inr ks"
    using full_matrix_sorted [of "[''filewrite'']"] by auto
  have "\<exists>y. (\<lambda>(k, x). bindE (slot_sort_key k) (\<lambda>s. Inr (s, x))) e = Inr y" if e: "e \<in> set (merge_manifest [] built)" for e
  proof -
    have "fst e \<in> fst ` set (merge_manifest [] built)" using e by simp
    then have "fst e \<in> set (all_task_ids [''filewrite''])" using assms unfolding merge_manifest_def keyed_keys by auto
    with ks obtain k where "slot_sort_key (fst e) = Inr k" by (auto elim: mapE_Inr_ex)
    then show ?thesis by (cases k) (simp add: case_prod_beta)
  qed
  then have "\<exists>ys. mapE (\<lambda>(k, x). bindE (slot_sort_key k) (\<lambda>s. Inr (s, x))) (merge_manifest [] built) = Inr ys"
    by (intro mapE_exists)
  then show ?thesis by (auto simp: sort_manifest_def)
qed

lemma tiny_build: "\<exists>built w'. build tiny_corpus U ''r'' None None w = (Inr built, w')"
proof -
  let ?plan = "build_plan (ce_seeds tiny_corpus) None None"
  have plan: "?plan = map (Pair ''filewrite'') matrix_slots"
    by (simp add: build_plan_def tiny_corpus_def selected_def)
  then have ne: "?plan \<noteq> []" by (simp add: matrix_slots_def COMPILERS_def OPTS_def)
  have "\<exists>m. built_entry tiny_corpus ''r'' w x = Inr m" if "x \<in> set ?plan" for x
    using tiny_entry [of x w] that plan by auto
  then obtain built where built: "mapE (built_entry tiny_corpus ''r'' w) ?plan = Inr built" using mapE_exists by blast
  have ids: "\<forall>m \<in> set built. sm_task_id m \<in> set (all_task_ids [''filewrite''])"
  proof
    fix m assume "m \<in> set built"
    with built obtain x where x: "x \<in> set ?plan" "built_entry tiny_corpus ''r'' w x = Inr m" by (auto elim: mapE_Inr_set)
    with plan tiny_entry [of x w] show "sm_task_id m \<in> set (all_task_ids [''filewrite''])"
      by (auto simp: all_task_ids_def)
  qed
  have round: "check_round U (JObj [(''results'', JList [])]) what key = Inr ()" for what key
    by (simp add: check_round_def has_key_def dict_get_def)
  have ce: "ce_build tiny_corpus job root t v = (Inr (JObj [(''results'', JList [])]), v)" for job root t v
    by (simp add: tiny_corpus_def)
  obtain ts where "sort_manifest (merge_manifest [] built) = Inr ts" using tiny_sorted [OF ids] by blast
  then show ?thesis
    using ne built round by (simp add: build_def Let_def ce strip_round_def write_manifest_def old_manifest_def)
qed

lemma tiny_manifest: "load_manifest tiny_corpus ''r'' w = Inr (JList [meta_json tiny_meta])"
proof -
  have "utf8_valid ''2.1''" by code_simp
  then show ?thesis by (simp add: load_manifest_def tiny_corpus_def CANONICALIZER_VERSION_def decode_def)
qed

lemma tiny_read: "read_meta (meta_json tiny_meta) = tiny_meta"
  by (simp add: read_meta_def meta_json_def tiny_meta_def get_default_def fn_json_def read_fn_def tiny_fn_def)

lemma tiny_chosen:
  "chosen_metas (tiny_args [''filewrite::gcc-O0-stripped'']) current (JList [meta_json tiny_meta]) = Inr [tiny_meta]"
proof -
  have "entry_id (meta_json tiny_meta) = Inr (''filewrite::gcc-O0-stripped'', meta_json tiny_meta)"
    by (simp add: entry_id_def meta_json_def dict_get_def tiny_meta_def)
  then show ?thesis
    by (simp add: chosen_metas_def tiny_args_def keyed_def dict_get_def tiny_read)
qed

lemma tiny_main:
  "\<exists>out w'. campaign_main tiny_env (tiny_args [''filewrite::gcc-O0-stripped'']) w = (Inr (Exit 0 out []), w')"
proof -
  let ?a = "tiny_args [''filewrite::gcc-O0-stripped'']"
  have env: "cm_corpus tiny_env = tiny_corpus" "cm_root tiny_env = ''r''" "cm_site tiny_env v = tiny_site"
    "cm_fresh tiny_env p v" "ce_seeds tiny_corpus = [''filewrite'']" for p v
    by (simp_all add: tiny_env_def tiny_corpus_def)
  have args: "ca_slots ?a = [''filewrite::gcc-O0-stripped'']" "\<not> ca_all ?a" "distinct (map cg_stem (ca_configs ?a))"
    by (simp_all add: tiny_args_def)
  obtain built w1 where b: "build tiny_corpus (cm_printable tiny_env) ''r'' None None w = (Inr built, w1)"
    using tiny_build by blast
  obtain ts where ts: "slot_tasks tiny_site tiny_meta = Inr ts"
    using tiny_slot [of "''one''"] unfolding tiny_site_read by blast
  have "\<exists>out w'. build_and_write tiny_env ?a bs w = (Inr (Exit 0 out []), w')" for bs
    using ts by (simp add: build_and_write_def env b tiny_manifest tiny_chosen write_out_def Let_def)
  then show ?thesis using tiny_ids by (simp add: campaign_main_def Let_def env args tiny_budgets)
qed

theorem campaign_allowances_witness:
  "map_of (allowances [[(''model'', JInt 4), (''check'', JInt 5)]] []) ''check'' = Some 0"
  by (subst campaign_allowances) simp_all

end
