(* ===== verification/Domain.thy ===== *)
theory Domain
  imports Toolchain Checks
begin

text \<open>
  \<^verbatim>\<open>src/src/reschema/domain.py\<close>: the fingerprint of the duplicate guard.  The scanner works on code points, as the
  regular expression does; the decoder of the source and the JSON decoder are the platform's.
\<close>

section \<open>\<^verbatim>\<open>norm_source\<close>\<close>

text \<open>
  The rest of a literal after its opening quote: what it takes, through the closing quote, whether
  it was closed, and what follows.  A backslash takes the next character with it.
\<close>

fun lit_body :: "nat \<Rightarrow> nat list \<Rightarrow> nat list \<times> bool \<times> nat list" where
  "lit_body q [] = ([], False, [])"
| "lit_body q [c] = (if c = q then ([c], True, []) else if c = 92 then ([], False, [c]) else ([c], False, []))"
| "lit_body q (c # d # s) =
     (if c = q then ([c], True, d # s)
      else if c = 92 then (case lit_body q s of (t, ok, u) \<Rightarrow> (c # d # t, ok, u))
      else (case lit_body q (d # s) of (t, ok, u) \<Rightarrow> (c # t, ok, u)))"

text \<open>The rest after a block comment, and whether it was closed.\<close>

fun skip_block :: "nat list \<Rightarrow> bool \<times> nat list" where
  "skip_block [] = (False, [])"
| "skip_block (c # s) = (if c = 42 \<and> s \<noteq> [] \<and> hd s = 47 then (True, tl s) else skip_block s)"

definition skip_line :: "nat list \<Rightarrow> nat list" where
  "skip_line s = dropWhile (\<lambda>c. c \<noteq> 10) s"

lemma lit_body_length: "length (snd (snd (lit_body q s))) \<le> length s"
  by (induction q s rule: lit_body.induct) (auto split: prod.splits)

lemma skip_block_length: "length (snd (skip_block s)) \<le> length s"
  by (induction s) auto

lemma skip_line_length: "length (skip_line s) \<le> length s"
  by (simp add: skip_line_def length_dropWhile_le)

function norm_cps :: "nat list \<Rightarrow> nat list" where
  "norm_cps [] = []"
| "norm_cps (c # s) =
     (if c = 34 \<or> c = 39 then c # fst (lit_body c s) @ norm_cps (snd (snd (lit_body c s)))
      else if c = 47 \<and> s \<noteq> [] \<and> hd s = 47 then norm_cps (skip_line (tl s))
      else if c = 47 \<and> s \<noteq> [] \<and> hd s = 42 then norm_cps (snd (skip_block (tl s)))
      else if py_space c then norm_cps s
      else c # norm_cps s)"
  by pat_completeness auto
termination
  by (relation "measure length")
    (auto simp: less_Suc_eq_le lit_body_length intro: order_trans [OF skip_line_length] order_trans [OF skip_block_length])

declare norm_cps.simps(2) [simp del]

definition norm_source :: "str \<Rightarrow> str" where
  "norm_source src = of_code_points (norm_cps (code_points src))"

section \<open>\<^verbatim>\<open>normalize\<close>\<close>

definition canonical_json :: "'w platform \<Rightarrow> bytes \<Rightarrow> bytes" where
  "canonical_json P raw = (case pf_loads P raw of Inr j \<Rightarrow> dump_flat True '','' '':'' j | Inl e \<Rightarrow> raw)"

definition normalize :: "'w platform \<Rightarrow> bytes dict \<Rightarrow> bytes" where
  "normalize P candidate =
     (case candidate_files P candidate of
        Inl why \<Rightarrow> CHR 0x01 # get_default candidate ''result.json'' []
      | Inr files \<Rightarrow>
          join [CHR 0x00]
            (norm_source (pf_decode_replace P (get_default files ''model.c'' []))
             # List.map_filter (\<lambda>name. map_option (canonical_json P) (map_of files name)) [''params.json'', ''cases.json'']))"

section \<open>Complete tokens\<close>

text \<open>
  A text after which scanning starts afresh: every literal and comment in it is closed and its last
  character does not begin a comment.
\<close>

function settled :: "nat list \<Rightarrow> bool" where
  "settled [] = True"
| "settled (c # s) =
     (if c = 34 \<or> c = 39 then fst (snd (lit_body c s)) \<and> settled (snd (snd (lit_body c s)))
      else if c = 47 \<and> s = [] then False
      else if c = 47 \<and> hd s = 47 then skip_line (tl s) \<noteq> [] \<and> settled (skip_line (tl s))
      else if c = 47 \<and> hd s = 42 then fst (skip_block (tl s)) \<and> settled (snd (skip_block (tl s)))
      else settled s)"
  by pat_completeness auto
termination
  by (relation "measure length")
    (auto simp: less_Suc_eq_le lit_body_length intro: order_trans [OF skip_line_length] order_trans [OF skip_block_length])

declare settled.simps(2) [simp del]

lemma lit_body_append:
  "fst (snd (lit_body q s)) \<Longrightarrow> lit_body q (s @ x) = (fst (lit_body q s), True, snd (snd (lit_body q s)) @ x)"
proof (induction q s rule: lit_body.induct)
  case (2 q c)
  then show ?case by (cases x) (auto split: if_splits)
next
  case (3 q c d s)
  then show ?case by (auto split: prod.splits if_splits)
qed simp

lemma skip_block_append: "fst (skip_block s) \<Longrightarrow> skip_block (s @ x) = (True, snd (skip_block s) @ x)"
proof (induction s)
  case (Cons c s)
  then show ?case by (cases s) (auto split: if_splits)
qed simp

lemma skip_line_append: "skip_line s \<noteq> [] \<Longrightarrow> skip_line (s @ x) = skip_line s @ x"
  by (induction s) (auto simp: skip_line_def)

lemma norm_settled: "settled s \<Longrightarrow> norm_cps (s @ x) = norm_cps s @ norm_cps x"
proof (induction s rule: settled.induct)
  case (2 c s)
  consider (lit) "c = 34 \<or> c = 39" | (line) "c = 47" "s \<noteq> []" "hd s = 47" | (block) "c = 47" "s \<noteq> []" "hd s = 42"
    | (other) "\<not> (c = 34 \<or> c = 39)" "c = 47 \<Longrightarrow> s \<noteq> [] \<and> hd s \<noteq> 47 \<and> hd s \<noteq> 42"
    using 2(5) by (auto simp: settled.simps(2) split: if_splits)
  then show ?case
  proof cases
    case lit
    then have s: "fst (snd (lit_body c s))" "settled (snd (snd (lit_body c s)))"
      using 2(5) by (auto simp: settled.simps(2))
    then have "norm_cps (snd (snd (lit_body c s)) @ x) = norm_cps (snd (snd (lit_body c s))) @ norm_cps x"
      using 2(1,2) lit by blast
    with lit s show ?thesis by (simp add: norm_cps.simps(2) lit_body_append)
  next
    case line
    then have s: "skip_line (tl s) \<noteq> []" "settled (skip_line (tl s))"
      using 2(5) by (auto simp: settled.simps(2))
    then have "norm_cps (skip_line (tl s) @ x) = norm_cps (skip_line (tl s)) @ norm_cps x"
      using 2 line by simp
    with line s show ?thesis by (simp add: norm_cps.simps(2) skip_line_append)
  next
    case block
    then have s: "fst (skip_block (tl s))" "settled (snd (skip_block (tl s)))"
      using 2(5) by (auto simp: settled.simps(2))
    then have "norm_cps (snd (skip_block (tl s)) @ x) = norm_cps (snd (skip_block (tl s))) @ norm_cps x"
      using 2 block by simp
    with block s show ?thesis by (simp add: norm_cps.simps(2) skip_block_append)
  next
    case other
    then have "settled s" using 2(5) by (auto simp: settled.simps(2) split: if_splits)
    then have "norm_cps (s @ x) = norm_cps s @ norm_cps x" using 2 other by auto
    with other show ?thesis by (cases s) (auto simp: norm_cps.simps(2))
  qed
qed simp

section \<open>Gaps\<close>

text \<open>White space, a line comment with its line end, a block comment.\<close>

datatype gap = Space nat | Line "nat list" | Block "nat list"

fun gap_text :: "gap \<Rightarrow> nat list" where
  "gap_text (Space c) = [c]"
| "gap_text (Line t) = 47 # 47 # t @ [10]"
| "gap_text (Block t) = 47 # 42 # t @ [42, 47]"

fun gap_ok :: "gap \<Rightarrow> bool" where
  "gap_ok (Space c) = py_space c"
| "gap_ok (Line t) = (10 \<notin> set t)"
| "gap_ok (Block t) = (skip_block (t @ [42, 47]) = (True, []))"

lemma norm_gap: "gap_ok g \<Longrightarrow> norm_cps (gap_text g @ x) = norm_cps x"
proof (cases g)
  case (Space c)
  assume "gap_ok g"
  with Space have c: "py_space c" by simp
  moreover from this have "c \<noteq> 34 \<and> c \<noteq> 39 \<and> c \<noteq> 47" by (auto simp: py_space_def)
  ultimately show ?thesis using Space by (simp add: norm_cps.simps(2))
next
  case (Line t)
  assume "gap_ok g"
  with Line have "skip_line (t @ 10 # x) = 10 # x" by (induction t arbitrary: g) (auto simp: skip_line_def)
  moreover have "py_space 10" by (simp add: py_space_def)
  ultimately show ?thesis using Line by (simp add: norm_cps.simps(2))
next
  case (Block t)
  assume "gap_ok g"
  with Block have "skip_block ((t @ [42, 47]) @ x) = (True, x)" by (subst skip_block_append) simp_all
  with Block show ?thesis by (simp add: norm_cps.simps(2))
qed

lemma norm_gaps: "list_all gap_ok gs \<Longrightarrow> norm_cps (concat (map gap_text gs) @ x) = norm_cps x"
  by (induction gs) (simp_all add: norm_gap)

lemma norm_insert_gaps:
  "settled pre \<Longrightarrow> list_all gap_ok gs \<Longrightarrow> norm_cps (pre @ concat (map gap_text gs) @ post) = norm_cps (pre @ post)"
  by (simp add: norm_settled norm_gaps)

text \<open>
  A literal survives as it is.  Whatever a closed string or character literal contains, comment
  marks and spaces included, the fingerprint keeps it between what it keeps of the text before
  and after it.
\<close>

lemma norm_keeps_literals:
  assumes "settled pre" and "q = 34 \<or> q = 39" and "lit_body q (body @ [q]) = (body @ [q], True, [])"
  shows "norm_cps (pre @ q # body @ [q] @ post) = norm_cps pre @ q # body @ [q] @ norm_cps post"
proof -
  have "lit_body q ((body @ [q]) @ post) = (body @ [q], True, post)"
    using assms(3) lit_body_append [of q "body @ [q]" post] by simp
  then show ?thesis using assms(1,2) by (simp add: norm_settled norm_cps.simps(2))
qed

section \<open>Duplicates\<close>

definition model_text :: "'w platform \<Rightarrow> bytes dict \<Rightarrow> str" where
  "model_text P files = pf_decode_replace P (get_default files ''model.c'' [])"

lemma map_filter_same: "\<forall>x \<in> set xs. f x = g x \<Longrightarrow> List.map_filter f xs = List.map_filter g xs"
  by (induction xs) (simp_all add: List.map_filter_simps split: option.split)

text \<open>
  C20: reformatting is a duplicate.  Two candidates whose sources differ by white space and comments
  inserted outside of literals and comments, and whose declarations are the same JSON, have the same
  fingerprint.
\<close>

theorem reformatting_is_duplicate:
  assumes "candidate_files P c = Inr fs" and "candidate_files P c' = Inr fs'"
    and "code_points (model_text P fs) = pre @ post"
    and "code_points (model_text P fs') = pre @ concat (map gap_text gs) @ post"
    and "settled pre" and "list_all gap_ok gs"
    and "\<forall>name \<in> {''params.json'', ''cases.json''}.
       map_option (canonical_json P) (map_of fs' name) = map_option (canonical_json P) (map_of fs name)"
  shows "normalize P c' = normalize P c"
proof -
  have "norm_source (model_text P fs') = norm_source (model_text P fs)"
    unfolding norm_source_def assms(3,4) norm_insert_gaps [OF assms(5,6)] ..
  moreover have "List.map_filter (\<lambda>name. map_option (canonical_json P) (map_of fs' name)) [''params.json'', ''cases.json'']
      = List.map_filter (\<lambda>name. map_option (canonical_json P) (map_of fs name)) [''params.json'', ''cases.json'']"
    using assms(7) by (intro map_filter_same) simp
  ultimately show ?thesis unfolding normalize_def model_text_def [symmetric] by (simp add: assms(1,2))
qed

text \<open>
  A corrected declaration is a new candidate.  For the same source, the fingerprints of two function
  candidates agree exactly when their declarations are the same JSON.
\<close>

lemma declaration_distinguishes:
  assumes "candidate_files P c = Inr fs" and "candidate_files P c' = Inr fs'"
    and "map_of fs' ''model.c'' = map_of fs ''model.c''"
    and "map_of fs ''params.json'' = Some raw" and "map_of fs' ''params.json'' = Some raw'"
    and "map_of fs ''cases.json'' = None" and "map_of fs' ''cases.json'' = None"
  shows "normalize P c' = normalize P c \<longleftrightarrow> canonical_json P raw' = canonical_json P raw"
proof -
  have "get_default fs' ''model.c'' [] = get_default fs ''model.c'' []" using assms(3) by (simp add: get_default_def)
  then show ?thesis
    unfolding normalize_def using assms by (simp add: List.map_filter_simps)
qed

section \<open>Concrete fingerprints\<close>

lemma plain_files:
  "candidate_files plain_platform [(''model.c'', s), (''params.json'', p)] = Inr [(''model.c'', s), (''params.json'', p)]"
  by (simp add: candidate_files_def direct_files_def FILES_def List.map_filter_simps)

theorem reformatting_is_duplicate_witness:
  "normalize plain_platform [(''model.c'', ''int/*n*/ f;''), (''params.json'', ''{}'')]
     = normalize plain_platform [(''model.c'', ''intf;''), (''params.json'', ''{}'')]"
proof (rule reformatting_is_duplicate [OF plain_files plain_files])
  show "code_points (model_text plain_platform [(''model.c'', ''intf;''), (''params.json'', ''{}'')]) = map byte_val ''int'' @ map byte_val ''f;''"
    by (simp add: model_text_def get_default_def plain_platform_def) code_simp
  show "code_points (model_text plain_platform [(''model.c'', ''int/*n*/ f;''), (''params.json'', ''{}'')])
      = map byte_val ''int'' @ concat (map gap_text [Block (map byte_val ''n''), Space 32]) @ map byte_val ''f;''"
    by (simp add: model_text_def get_default_def plain_platform_def) code_simp
  show "settled (map byte_val ''int'')" by code_simp
  show "list_all gap_ok [Block (map byte_val ''n''), Space 32]" by code_simp
qed simp

end
