(* ===== verification/Regrade.thy ===== *)
theory Regrade
  imports Domain Corpus
begin

text \<open>
  \<^verbatim>\<open>src/src/reschema/regrade.py\<close>: re-judging the recorded checks of a Warranted project.  The ledger is a
  record of its history, its operations, the verified reading of an artifact and the re-verification
  of an operation; the domain is a record of its checkers, its current image and the text of a status.
\<close>

section \<open>Stops and the ledger\<close>

datatype stop = Refused str | Unreplayable str | Corrupt str | Raised exn

definition bindS :: "stop + 'a \<Rightarrow> ('a \<Rightarrow> stop + 'b) \<Rightarrow> stop + 'b" where
  "bindS m f = (case m of Inl e \<Rightarrow> Inl e | Inr a \<Rightarrow> f a)"

definition liftS :: "'a result \<Rightarrow> stop + 'a" where
  "liftS r = (case r of Inl e \<Rightarrow> Inl (Raised e) | Inr a \<Rightarrow> Inr a)"

lemma bindS_simps [simp]: "bindS (Inl e) f = Inl e" "bindS (Inr a) f = f a"
  by (simp_all add: bindS_def)

lemma bindS_Inr_iff: "bindS m f = Inr b \<longleftrightarrow> (\<exists>a. m = Inr a \<and> f a = Inr b)"
  by (cases m) auto

lemma liftS_Inr_iff [simp]: "liftS r = Inr a \<longleftrightarrow> r = Inr a"
  by (cases r) (auto simp: liftS_def)

type_synonym digest = str

record observation =
  ob_sequence :: nat
  ob_inputs :: "digest dict"

record operation =
  op_inputs :: "digest dict"
  op_id :: str
  op_kind :: str
  op_version :: str
  op_artifacts :: "digest dict option"

text \<open>A reference to an artifact is its digest; \<^verbatim>\<open>op_artifacts\<close> is there when the operation completed.\<close>

record ledger =
  lg_history :: "observation list"
  lg_operations :: "operation list"
  lg_read :: "digest \<Rightarrow> stop + bytes"
  lg_lookup :: "operation \<Rightarrow> stop + operation"

section \<open>Names of evidence\<close>

definition is_digit :: "char \<Rightarrow> bool" where
  "is_digit c = (48 \<le> byte_val c \<and> byte_val c < 58)"

definition digits_val :: "str \<Rightarrow> nat" where
  "digits_val s = foldl (\<lambda>a c. 10 * a + (byte_val c - 48)) 0 s"

text \<open>A non-empty run of digits (ASCII digits, of those \<^verbatim>\<open>\d\<close> matches) and a slash, and what follows.\<close>

definition number_slash :: "str \<Rightarrow> (nat \<times> str) option" where
  "number_slash s =
     (let ds = takeWhile is_digit s; r = dropWhile is_digit s in
      if ds = [] then None
      else (case r of c # r' \<Rightarrow> if c = CHR ''/'' then Some (digits_val ds, r') else None | [] \<Rightarrow> None))"

definition strip_prefix :: "str \<Rightarrow> str \<Rightarrow> str option" where
  "strip_prefix p s = (if take (length p) s = p then Some (drop (length p) s) else None)"

definition channel_ok :: "str \<Rightarrow> bool" where
  "channel_ok s = (s \<noteq> [] \<and> CHR 0x0A \<notin> set s)"

text \<open>
  \<^verbatim>\<open>_EVIDENCE.fullmatch\<close>: the optional revision is taken when a channel is left after it.
\<close>

definition evidence_name :: "str \<Rightarrow> (nat \<times> str) option" where
  "evidence_name name =
     (case strip_prefix ''observation/'' name of
        None \<Rightarrow> None
      | Some s \<Rightarrow>
          (case number_slash s of
             None \<Rightarrow> None
           | Some (seq, r) \<Rightarrow>
               (case (case strip_prefix ''revision/'' r of None \<Rightarrow> None | Some q \<Rightarrow> number_slash q) of
                  Some (_, ch) \<Rightarrow> if channel_ok ch then Some (seq, ch) else if channel_ok r then Some (seq, r) else None
                | None \<Rightarrow> if channel_ok r then Some (seq, r) else None)))"

definition channel_parts :: "str \<Rightarrow> str \<times> str" where
  "channel_parts ch = (takeWhile (\<lambda>c. c \<noteq> CHR ''/'') ch, drop 1 (dropWhile (\<lambda>c. c \<noteq> CHR ''/'') ch))"

text \<open>\<^verbatim>\<open>_CHECK.fullmatch\<close>: the run, the submission number and the checker's name.\<close>

definition check_name :: "str \<Rightarrow> (str \<times> nat \<times> str) option" where
  "check_name oid =
     (case split_on ''/'' oid of
        [a, run, b, n, c, name] \<Rightarrow>
          if a = ''run'' \<and> b = ''submission'' \<and> c = ''check'' \<and> run \<noteq> [] \<and> name \<noteq> [] \<and> n \<noteq> [] \<and> list_all is_digit n
          then Some (run, digits_val n, name) else None
      | _ \<Rightarrow> None)"

definition NOTES :: "str list" where "NOTES = [''notes.json'', ''notes-error.txt'']"

section \<open>\<^verbatim>\<open>_evidence\<close>\<close>

record gathered =
  ga_inputs :: "bytes dict"
  ga_private :: "bytes dict"
  ga_target :: "(nat \<times> digest) option"

definition ledger_json :: "(bytes \<Rightarrow> json result) \<Rightarrow> ledger \<Rightarrow> digest \<Rightarrow> stop + json" where
  "ledger_json loads LG d = bindS (lg_read LG d) (\<lambda>b. liftS (loads b))"

definition gather_one :: "(nat \<Rightarrow> bool) \<Rightarrow> ledger \<Rightarrow> string \<times> digest \<Rightarrow> gathered \<Rightarrow> stop + gathered" where
  "gather_one U LG nd g =
     (let (seq, ch) = (case evidence_name (fst nd) of Some x \<Rightarrow> x | None \<Rightarrow> (0, [])); (kind, file) = channel_parts ch in
      if ch = ''submission.json'' then Inr (g\<lparr>ga_target := Some (seq, snd nd)\<rparr>)
      else if kind = ''input'' \<and> file \<noteq> [] then
        bindS (lg_read LG (snd nd)) (\<lambda>b. Inr (g\<lparr>ga_inputs := AList.update file b (ga_inputs g)\<rparr>))
      else if kind = ''private'' \<and> file \<noteq> [] then
        bindS (lg_read LG (snd nd)) (\<lambda>b. Inr (g\<lparr>ga_private := AList.update file b (ga_private g)\<rparr>))
      else Inl (Refused (''unexpected check input '' @ repr_str U (fst nd))))"

fun gather :: "(nat \<Rightarrow> bool) \<Rightarrow> ledger \<Rightarrow> digest dict \<Rightarrow> gathered \<Rightarrow> stop + gathered" where
  "gather U LG [] g = Inr g"
| "gather U LG (nd # nds) g = bindS (gather_one U LG nd g) (gather U LG nds)"

text \<open>\<^verbatim>\<open>name.partition("/candidate/")[2]\<close>: what follows its first occurrence, else nothing.\<close>

fun after_first :: "str \<Rightarrow> str \<Rightarrow> str" where
  "after_first p [] = []"
| "after_first p (c # s) = (if take (length p) (c # s) = p then drop (length p) (c # s) else after_first p s)"

definition candidate_file :: "str \<Rightarrow> str" where
  "candidate_file name = after_first ''/candidate/'' name"

text \<open>\<^verbatim>\<open>claimed.get(file)\<close> and \<^verbatim>\<open>len(claimed)\<close> on the decoded submission.\<close>

definition claimed_get :: "json \<Rightarrow> str \<Rightarrow> stop + json option" where
  "claimed_get j file = (case j of JObj d \<Rightarrow> Inr (map_of d file) | _ \<Rightarrow> Inl (Raised (AttributeError ''get'')))"

definition claimed_len :: "json \<Rightarrow> stop + nat" where
  "claimed_len j =
     (case j of JObj d \<Rightarrow> Inr (length d) | JList xs \<Rightarrow> Inr (length xs) | JStr s \<Rightarrow> Inr (str_len s)
      | _ \<Rightarrow> Inl (Raised (TypeError ''len'')))"

fun gather_candidate :: "(nat \<Rightarrow> bool) \<Rightarrow> ledger \<Rightarrow> json \<Rightarrow> digest dict \<Rightarrow> bytes dict \<Rightarrow> stop + bytes dict" where
  "gather_candidate U LG claimed [] cand = Inr cand"
| "gather_candidate U LG claimed ((name, d) # nds) cand =
     (let file = candidate_file name in
      bindS (claimed_get claimed file) (\<lambda>c.
        if c \<noteq> Some (JStr d) then
          Inl (Refused (''candidate file '' @ repr_str U file @ '' does not match the submission''))
        else if file \<in> set NOTES then gather_candidate U LG claimed nds cand
        else bindS (lg_read LG d) (\<lambda>b. gather_candidate U LG claimed nds (AList.update file b cand))))"

record evidence =
  ev_candidate :: "bytes dict"
  ev_inputs :: "bytes dict"
  ev_private :: "bytes dict"
  ev_verdict :: json
  ev_seeds :: json
  ev_images :: "json list"

definition find_observation :: "ledger \<Rightarrow> nat \<Rightarrow> observation option" where
  "find_observation LG seq = find (\<lambda>x. ob_sequence x = seq) (rev (lg_history LG))"

text \<open>The submission the check names: its claimed digests and the captured files.\<close>

definition submission_of :: "(bytes \<Rightarrow> json result) \<Rightarrow> ledger \<Rightarrow> gathered \<Rightarrow> stop + (json \<times> digest dict)" where
  "submission_of loads LG g =
     (case (case ga_target g of None \<Rightarrow> None | Some (seq, d) \<Rightarrow> map_option (\<lambda>x. (x, d)) (find_observation LG seq)) of
        None \<Rightarrow> Inl (Refused ''the check names no recorded submission'')
      | Some (obs, d) \<Rightarrow> bindS (ledger_json loads LG d) (\<lambda>j. Inr (j, ob_inputs obs)))"

definition missing_artifacts :: "digest dict \<Rightarrow> string list" where
  "missing_artifacts arts = filter (\<lambda>k. \<not> has_key k arts) [''jobs.json'', ''seeds.json'']"

text \<open>A set comprehension over the jobs: a list or an object is not hashable.\<close>

fun hashable :: "json \<Rightarrow> bool" where
  "hashable (JList _) = False"
| "hashable (JObj _) = False"
| "hashable _ = True"

definition job_image :: "json \<Rightarrow> json result" where
  "job_image j = bindE (item ''image'' j) (\<lambda>i. if hashable i then Inr i else Inl (TypeError ''unhashable type''))"

definition job_images :: "json \<Rightarrow> stop + json list" where
  "job_images j =
     (case j of
        JList js \<Rightarrow> liftS (mapE job_image js)
      | JObj [] \<Rightarrow> Inr []
      | JStr [] \<Rightarrow> Inr []
      | _ \<Rightarrow> Inl (Raised (TypeError ''jobs'')))"

definition read_verdict ::
    "(nat \<Rightarrow> bool) \<Rightarrow> (bytes \<Rightarrow> json result) \<Rightarrow> ledger \<Rightarrow> digest dict \<Rightarrow> stop + (json \<times> json \<times> json list)" where
  "read_verdict U loads LG arts =
     (case map_of arts ''verdict.json'' of
        None \<Rightarrow> Inl (Unreplayable ''the recorded check has no verdict'')
      | Some vd \<Rightarrow>
          (case (missing_artifacts arts, map_of arts ''seeds.json'', map_of arts ''jobs.json'') of
             ([], Some sd, Some jd) \<Rightarrow>
               bindS (ledger_json loads LG vd) (\<lambda>v. bindS (ledger_json loads LG sd) (\<lambda>s.
               bindS (ledger_json loads LG jd) (\<lambda>j. bindS (job_images j) (\<lambda>imgs. Inr (v, s, imgs)))))
           | _ \<Rightarrow> Inl (Refused (''verdict recorded without '' @ py_repr U (JList (map JStr (missing_artifacts arts)))))))"

definition evidence_of :: "(nat \<Rightarrow> bool) \<Rightarrow> (bytes \<Rightarrow> json result) \<Rightarrow> ledger \<Rightarrow> operation \<Rightarrow> stop + evidence" where
  "evidence_of U loads LG op =
     bindS (gather U LG (op_inputs op) \<lparr>ga_inputs = [], ga_private = [], ga_target = None\<rparr>) (\<lambda>g.
     bindS (submission_of loads LG g) (\<lambda>(claimed, captured).
     bindS (gather_candidate U LG claimed captured []) (\<lambda>cand.
     bindS (claimed_len claimed) (\<lambda>n.
       if n \<noteq> length captured then Inl (Refused ''the submission names files that were not captured'')
       else
         bindS (read_verdict U loads LG (case op_artifacts op of Some a \<Rightarrow> a | None \<Rightarrow> [])) (\<lambda>(v, s, imgs).
           Inr \<lparr>ev_candidate = cand, ev_inputs = ga_inputs g, ev_private = ga_private g, ev_verdict = v, ev_seeds = s,
                ev_images = imgs\<rparr>)))))"

section \<open>Re-judging\<close>

text \<open>
  A checker on a replay of the evidence: a verdict, or the checker drew more seeds than were recorded, or
  it raised.  \<^verbatim>\<open>None\<close>: it does not come back.
\<close>

datatype replayed = Judged check_verdict | Overdrawn | Failed exn

record 'w current_checker =
  jd_version :: str
  jd_check :: "evidence \<Rightarrow> 'w \<Rightarrow> (replayed \<times> 'w) option"

record 'w domain =
  dm_checkers :: "'w current_checker dict"
  dm_image :: str
  dm_status :: "status \<Rightarrow> str"

text \<open>\<^verbatim>\<open>_Replay.draw_seed\<close> on the recorded seeds and those drawn so far.\<close>

definition replay_draw :: "int list \<Rightarrow> int list \<Rightarrow> stop + (int \<times> int list)" where
  "replay_draw recorded drawn =
     (if length drawn = length recorded then Inl (Unreplayable ''the checker draws more seeds than were recorded'')
      else Inr (recorded ! length drawn, drawn @ [recorded ! length drawn]))"

definition overdrawn_text :: str where
  "overdrawn_text = ''the checker draws more seeds than were recorded''"

text \<open>The row of one operation after its evidence: what is added to it, or the exception that ends the command.\<close>

definition unreplayable :: "str \<Rightarrow> json dict" where
  "unreplayable why = [(''unreplayable'', JStr why)]"

definition holds_row :: "(status \<Rightarrow> str) \<Rightarrow> json \<Rightarrow> check_verdict \<Rightarrow> json dict" where
  "holds_row text_of recorded v =
     (let ok = (JStr (text_of (cv_status v)) = recorded) in
      [(''regraded'', JStr (text_of (cv_status v))), (''holds'', JBool ok)]
      @ (if ok then [] else [(''feedback'', JObj (cv_feedback v))]))"

definition rejudge ::
    "'w domain \<Rightarrow> str \<Rightarrow> str \<Rightarrow> evidence \<Rightarrow> 'w \<Rightarrow> (json dict result \<times> 'w) option" where
  "rejudge D name version ev w =
     (case item ''status'' (ev_verdict ev) of
        Inl e \<Rightarrow> Some (Inl e, w)
      | Inr recorded \<Rightarrow>
          (let base = [(''recorded'', recorded)] in
           if recorded = JStr ''infrastructure_failure'' then
             Some (Inr (base @ unreplayable ''the recorded check was an infrastructure failure''), w)
           else (case map_of (dm_checkers D) name of
                   None \<Rightarrow> Some (Inr (base @ unreplayable ''no current checker of that name''), w)
                 | Some ck \<Rightarrow>
                     (let base2 = base @ [(''checker_version'', JObj [(''recorded'', JStr version), (''current'', JStr (jd_version ck))])] in
                      if ev_images ev \<noteq> [] \<and> set (ev_images ev) \<noteq> {JStr (dm_image D)} then
                        Some (Inr (base2 @ unreplayable ''image changed''), w)
                      else (case jd_check ck ev w of
                              None \<Rightarrow> None
                            | Some (Judged v, w1) \<Rightarrow> Some (Inr (base2 @ holds_row (dm_status D) recorded v), w1)
                            | Some (Overdrawn, w1) \<Rightarrow> Some (Inr (base2 @ unreplayable overdrawn_text), w1)
                            | Some (Failed e, w1) \<Rightarrow> Some (Inl e, w1))))))"

text \<open>
  \<^verbatim>\<open>except (Refused, CorruptArtifact, FileNotFoundError, ValueError)\<close> and \<^verbatim>\<open>except Unreplayable\<close>.  Of the message
  of a decoding error, the byte and its position are left out.
\<close>

definition row_of_stop :: "(nat \<Rightarrow> bool) \<Rightarrow> stop \<Rightarrow> json dict result" where
  "row_of_stop U s =
     (let tampered = (\<lambda>m. [(''refused'', JStr (''tampered evidence: '' @ m))]) in
      case s of
        Refused m \<Rightarrow> Inr (tampered m)
      | Corrupt m \<Rightarrow> Inr (tampered m)
      | Unreplayable m \<Rightarrow> Inr (unreplayable m)
      | Raised (ValueError m) \<Rightarrow> Inr (tampered m)
      | Raised UnicodeDecodeError \<Rightarrow> Inr (tampered '''utf-8' codec can't decode'')
      | Raised (FileNotFoundError m) \<Rightarrow> Inr (tampered m)
      | Raised e \<Rightarrow> Inl e)"

definition head_row :: "str \<Rightarrow> nat \<Rightarrow> str \<Rightarrow> json dict" where
  "head_row run n name = [(''run'', JStr run), (''submission'', JInt (int n)), (''check'', JStr name)]"

definition regrade_one ::
    "(nat \<Rightarrow> bool) \<Rightarrow> (bytes \<Rightarrow> json result) \<Rightarrow> ledger \<Rightarrow> 'w domain \<Rightarrow> operation \<Rightarrow> str \<Rightarrow> nat \<Rightarrow> str \<Rightarrow> 'w
     \<Rightarrow> (json dict result \<times> 'w) option" where
  "regrade_one U loads LG D op run n name w =
     (case bindS (lg_lookup LG op) (evidence_of U loads LG) of
        Inl s \<Rightarrow> Some (bindE (row_of_stop U s) (\<lambda>r. Inr (head_row run n name @ r)), w)
      | Inr ev \<Rightarrow>
          (case rejudge D name (op_version op) ev w of
             None \<Rightarrow> None
           | Some (r, w1) \<Rightarrow> Some (bindE r (\<lambda>d. Inr (head_row run n name @ d)), w1)))"

text \<open>The completed checks that the filters select.\<close>

definition selected_check :: "str option \<Rightarrow> nat option \<Rightarrow> operation \<Rightarrow> (str \<times> nat \<times> str) option" where
  "selected_check run sub op =
     (case check_name (op_id op) of
        None \<Rightarrow> None
      | Some (r, n, name) \<Rightarrow>
          if op_kind op \<noteq> ''check'' \<or> op_artifacts op = None then None
          else if (run \<noteq> None \<and> run \<noteq> Some r) \<or> (sub \<noteq> None \<and> sub \<noteq> Some n) then None
          else Some (r, n, name))"

fun regrade_ops ::
    "(nat \<Rightarrow> bool) \<Rightarrow> (bytes \<Rightarrow> json result) \<Rightarrow> ledger \<Rightarrow> 'w domain \<Rightarrow> str option \<Rightarrow> nat option \<Rightarrow> operation list \<Rightarrow> 'w
     \<Rightarrow> (json dict list result \<times> 'w) option" where
  "regrade_ops U loads LG D run sub [] w = Some (Inr [], w)"
| "regrade_ops U loads LG D run sub (op # ops) w =
     (case selected_check run sub op of
        None \<Rightarrow> regrade_ops U loads LG D run sub ops w
      | Some (r, n, name) \<Rightarrow>
          (case regrade_one U loads LG D op r n name w of
             None \<Rightarrow> None
           | Some (Inl e, w1) \<Rightarrow> Some (Inl e, w1)
           | Some (Inr row, w1) \<Rightarrow>
               (case regrade_ops U loads LG D run sub ops w1 of
                  None \<Rightarrow> None
                | Some (rs, w2) \<Rightarrow> Some (bindE rs (\<lambda>rs. Inr (row # rs)), w2))))"

definition regrade ::
    "(nat \<Rightarrow> bool) \<Rightarrow> (bytes \<Rightarrow> json result) \<Rightarrow> ledger \<Rightarrow> 'w domain \<Rightarrow> str option \<Rightarrow> nat option \<Rightarrow> 'w
     \<Rightarrow> (json dict list result \<times> 'w) option" where
  "regrade U loads LG D run sub w = regrade_ops U loads LG D run sub (lg_operations LG) w"

section \<open>The command\<close>

text \<open>The class of a row in the totals; a row without \<^verbatim>\<open>holds\<close> raises.\<close>

definition row_class :: "json dict \<Rightarrow> string result" where
  "row_class r =
     (if has_key ''refused'' r then Inr ''refused''
      else if has_key ''unreplayable'' r then Inr ''unreplayable''
      else bindE (dict_get r ''holds'') (\<lambda>h. Inr (if h = JBool True then ''holds'' else ''flipped'')))"

definition count_classes :: "string list \<Rightarrow> json dict" where
  "count_classes cs = map (\<lambda>c. (c, JInt (int (count_list cs c)))) (fromkeys cs)"

definition regrade_main ::
    "(nat \<Rightarrow> bool) \<Rightarrow> (bytes \<Rightarrow> json result) \<Rightarrow> ledger \<Rightarrow> 'w domain \<Rightarrow> str option \<Rightarrow> nat option \<Rightarrow> 'w
     \<Rightarrow> ((str list \<times> str) result \<times> 'w) option" where
  "regrade_main U loads LG D run sub w =
     (case regrade U loads LG D run sub w of
        None \<Rightarrow> None
      | Some (rs, w1) \<Rightarrow>
          Some (bindE rs (\<lambda>rows. bindE (mapE row_class rows) (\<lambda>cs.
            Inr (map (\<lambda>r. dumps_sorted (JObj r)) rows, dumps_sorted (JObj (count_classes cs))))), w1))"

end
