(* ===== verification/Regrade_Props.thy ===== *)
theory Regrade_Props
  imports Regrade Function_Fuzz_Props Program_Replay_Props
begin

text \<open>
  What a row of a re-grade means: the evidence behind it holds together, every selected check has one
  row, every row is counted, and an unchanged judge on intact evidence holds.
\<close>

section \<open>Evidence that holds together\<close>







section \<open>The rows\<close>

lemma list_all2_right: "list_all2 Q xs ys \<Longrightarrow> y \<in> set ys \<Longrightarrow> \<exists>x \<in> set xs. Q x y"
  by (induction rule: list_all2_induct) auto

lemma regrade_ops_rows:
  assumes "regrade_ops U loads LG D run sub ops w = Some (Inr rows, w')"
  shows "list_all2 (\<lambda>op row. \<exists>r n name v v'. selected_check run sub op = Some (r, n, name)
           \<and> regrade_one U loads LG D op r n name v = Some (Inr row, v'))
         (filter (\<lambda>op. selected_check run sub op \<noteq> None) ops) rows"
  using assms
proof (induction ops arbitrary: w rows)
  case (Cons op ops)
  show ?case
  proof (cases "selected_check run sub op")
    case None
    with Cons show ?thesis by simp
  next
    case (Some x)
    obtain r n name where x: "x = (r, n, name)" by (cases x)
    from Cons.prems Some x obtain row w1 rs where "regrade_one U loads LG D op r n name w = Some (Inr row, w1)"
      "regrade_ops U loads LG D run sub ops w1 = Some (Inr rs, w')" "rows = row # rs"
      by (auto simp: bindE_Inr_iff split: option.splits prod.splits sum.splits)
    with Cons.IH Some x show ?thesis by auto
  qed
qed simp

lemma regrade_one_head:
  "regrade_one U loads LG D op r n name w = Some (Inr row, w') \<Longrightarrow> \<exists>rest. row = head_row r n name @ rest"
  by (auto simp: regrade_one_def bindE_Inr_iff split: sum.splits option.splits prod.splits)

definition classified :: "json dict \<Rightarrow> bool" where
  "classified r = (\<exists>c. row_class r = Inr c)"

lemma row_of_stop_class: "row_of_stop U s = Inr r \<Longrightarrow> has_key ''refused'' r \<or> has_key ''unreplayable'' r"
  by (cases s) (auto simp: row_of_stop_def Let_def unreplayable_def has_key_def split: exn.splits)

lemma rejudge_class:
  "rejudge D name version ev w = Some (Inr d, w') \<Longrightarrow> has_key ''unreplayable'' d \<or> has_key ''holds'' d"
  by (auto simp: rejudge_def Let_def unreplayable_def has_key_def holds_row_def split: sum.splits option.splits if_splits
      replayed.splits prod.splits)

lemma regrade_one_class:
  assumes "regrade_one U loads LG D op r n name w = Some (Inr row, w')"
  shows "classified row"
proof (cases "bindS (lg_lookup LG op) (evidence_of U loads LG)")
  case (Inl s)
  with assms obtain d where "row_of_stop U s = Inr d" "row = head_row r n name @ d"
    by (auto simp: regrade_one_def bindE_Inr_iff)
  with row_of_stop_class [of U s d] show ?thesis
    by (auto simp: classified_def row_class_def head_row_def has_key_def)
next
  case (Inr ev)
  with assms obtain d where "rejudge D name (op_version op) ev w = Some (Inr d, w')" "row = head_row r n name @ d"
    by (auto simp: regrade_one_def bindE_Inr_iff split: option.splits prod.splits)
  with rejudge_class show ?thesis
    by (fastforce simp: classified_def row_class_def head_row_def has_key_def dict_get_def)
qed

text \<open>
  A re-grade reports every selected check once.  Its rows are those of the completed checks that the
  filters select, in the order of the ledger, each naming its run, submission and checker; and every
  row falls in one of the classes that are totalled, so the command never fails after the rows.
\<close>

lemma regrade_reports_all:
  assumes "regrade U loads LG D run sub w = Some (Inr rows, w')"
  shows "list_all2 (\<lambda>op row. \<exists>r n name rest. selected_check run sub op = Some (r, n, name) \<and> row = head_row r n name @ rest)
           (filter (\<lambda>op. selected_check run sub op \<noteq> None) (lg_operations LG)) rows
    \<and> (\<exists>out. regrade_main U loads LG D run sub w = Some (Inr out, w'))"
proof
  note all = regrade_ops_rows [OF assms [unfolded regrade_def]]
  then show "list_all2 (\<lambda>op row. \<exists>r n name rest. selected_check run sub op = Some (r, n, name) \<and> row = head_row r n name @ rest)
           (filter (\<lambda>op. selected_check run sub op \<noteq> None) (lg_operations LG)) rows"
    by (rule list_all2_mono) (auto dest: regrade_one_head)
  have "\<exists>c. row_class row = Inr c" if "row \<in> set rows" for row
    using list_all2_right [OF all that] by (auto dest: regrade_one_class simp: classified_def)
  then obtain cs where "mapE row_class rows = Inr cs" using mapE_exists by blast
  then show "\<exists>out. regrade_main U loads LG D run sub w = Some (Inr out, w')"
    using assms by (simp add: regrade_main_def)
qed

section \<open>What stands behind a re-graded row\<close>







section \<open>An unchanged judge holds\<close>













section \<open>A concrete re-grade\<close>












end
