(* ===== verification/Census.thy ===== *)
theory Census
  imports Validate_Function Calling_Batch Corpus
begin

text \<open>
  \<^verbatim>\<open>src/tools/crash_census.py\<close>: how often the original faults on the inputs of the gate.  The cases
  are those of \<^verbatim>\<open>validate_function\<close> for a pinned seed, run without a candidate.
\<close>

section \<open>Specs and faults\<close>

definition SEED :: int where "SEED = 50341"

definition plain_param :: "string \<Rightarrow> kind \<Rightarrow> param" where
  "plain_param n k = \<lparr>p_name = n, p_kind = k, p_length_param = None, p_range = DEFAULT_RANGE, p_ret = ''i32''\<rparr>"

definition REF :: "param list dict" where
  "REF =
     [(''clamp_i32'', [plain_param ''v'' I32, plain_param ''lo'' I32, plain_param ''hi'' I32]),
      (''sum_range'', [plain_param ''lo'' I32, plain_param ''hi'' I32]),
      (''scale_buf'', [(plain_param ''buf'' BufferI32)\<lparr>p_length_param := Some ''n'', p_ret := ''void''\<rparr>,
         plain_param ''n'' I32, plain_param ''factor'' I32]),
      (''rot13_char'', [plain_param ''c'' I32]),
      (''rot13'', [(plain_param ''in_out'' CString)\<lparr>p_ret := ''void''\<rparr>]),
      (''pw_hash'', [plain_param ''s'' CString]),
      (''check_pw'', [plain_param ''s'' CString]),
      (''xform_byte'', [plain_param ''b'' I32, plain_param ''i'' I32]),
      (''pk_version_ok'', [plain_param ''v'' I32])]"

definition mistyped :: "param list \<Rightarrow> param list" where
  "mistyped ps = map (\<lambda>p. plain_param (p_name p) I32) ps"

text \<open>\<^verbatim>\<open>s.split(" (")[0]\<close>: the text before the first blank that a parenthesis follows.\<close>

fun before_paren :: "str \<Rightarrow> str" where
  "before_paren [] = []"
| "before_paren (c # s) = (if c = CHR '' '' \<and> s \<noteq> [] \<and> hd s = CHR ''('' then [] else c # before_paren s)"

definition fault_of :: "fn_trace \<Rightarrow> str result" where
  "fault_of t =
     (if ft_events t = [] then Inl (IndexError ''list index out of range'')
      else if ev_sc (last (ft_events t)) = ''timeout'' then Inr ''timeout''
      else (case ev_args (last (ft_events t)) of
              [] \<Rightarrow> Inl (IndexError ''list index out of range'')
            | a # _ \<Rightarrow> Inr (before_paren a)))"

section \<open>The census of one function\<close>

record census_row =
  cs_skipped :: nat
  cs_n :: nat
  cs_faults :: "nat dict"
  cs_nondet :: nat

definition counter :: "string list \<Rightarrow> nat dict" where
  "counter xs = map (\<lambda>x. (x, count_list xs x)) (fromkeys xs)"

definition faulted :: "fn_trace \<Rightarrow> bool" where
  "faulted t = (ft_exit_code t = - 1)"

definition flaky :: "fn_trace \<Rightarrow> fn_trace \<Rightarrow> bool result" where
  "flaky again t =
     (if \<not> faulted again then Inr True
      else bindE (fault_of again) (\<lambda>f. bindE (fault_of t) (\<lambda>g. Inr (f \<noteq> g))))"

definition row_of :: "nat \<Rightarrow> fn_trace list \<Rightarrow> fn_trace list \<Rightarrow> census_row result" where
  "row_of n bad again =
     bindE (mapE (\<lambda>(t, a). flaky a t) (zip bad again)) (\<lambda>fl.
     bindE (mapE fault_of bad) (\<lambda>fs.
       Inr \<lparr>cs_skipped = length bad, cs_n = n, cs_faults = counter fs, cs_nondet = length (filter id fl)\<rparr>))"

text \<open>The batch over all cases, then once more over those that faulted.\<close>

definition measure_cases ::
    "('vm, 'snap, 'w) qiling \<Rightarrow> tools \<Rightarrow> bytes \<Rightarrow> int \<Rightarrow> param list \<Rightarrow> case_in list \<Rightarrow> 'w \<Rightarrow> census_row result \<times> 'w" where
  "measure_cases Q T b addr ps cases w =
     (case batch_call_original Q T no_hooks b addr ps cases w of
        (Inl e, w1) \<Rightarrow> (Inl e, w1)
      | (Inr outs, w1) \<Rightarrow>
          (let bad = filter (\<lambda>(c, t). faulted t) (zip cases outs) in
           case (if bad = [] then (Inr [], w1) else batch_call_original Q T no_hooks b addr ps (map fst bad) w1) of
             (r, w2) \<Rightarrow> (bindE r (row_of (length cases) (map snd bad)), w2)))"

text \<open>\<^verbatim>\<open>info.get("size") or 0x400\<close>.\<close>

definition info_size :: "json \<Rightarrow> int option" where
  "info_size info = (case get_default (json_dict info) ''size'' JNull of JInt n \<Rightarrow> Some n | _ \<Rightarrow> None)"

definition census_cases ::
    "('vm, 'snap, 'w) host \<Rightarrow> bytes \<Rightarrow> int \<Rightarrow> int option \<Rightarrow> param list \<Rightarrow> case_in list \<Rightarrow> 'w \<Rightarrow> census_row result \<times> 'w" where
  "census_cases H b addr sz ps uniform w =
     (case scrape_immediates (ho_tools H) b addr (window sz) of
        Inl e \<Rightarrow> (Inl e, w)
      | Inr imms \<Rightarrow>
          measure_cases (ho_qiling H) (ho_tools H) b addr ps (merge_scout_cases uniform (scout_inputs ps imms) N_FUZZ) w)"

text \<open>A binary is named by its path, which \<^verbatim>\<open>rd\<close> reads; \<^verbatim>\<open>None\<close> means that the draw does not come back.\<close>

definition census ::
    "('vm, 'snap, 'w) host \<Rightarrow> (str \<Rightarrow> 'w \<Rightarrow> bytes result) \<Rightarrow> json \<Rightarrow> json \<Rightarrow> param list \<Rightarrow> 'w
     \<Rightarrow> (census_row result \<times> 'w) option" where
  "census H rd task info ps w =
     (case bindE (item ''binary'' task) (\<lambda>p. bindE (item ''addr'' info) (\<lambda>a. Inr (as_str p, as_int a))) of
        Inl e \<Rightarrow> Some (Inl e, w)
      | Inr (path, addr) \<Rightarrow>
          (case gen_inputs ps N_FUZZ (ho_random H (JInt SEED)) of
             None \<Rightarrow> None
           | Some (Inl e, _) \<Rightarrow> Some (Inl e, w)
           | Some (Inr uniform, _) \<Rightarrow>
               Some (case rd path w of
                       Inl e \<Rightarrow> (Inl e, w)
                     | Inr b \<Rightarrow> census_cases H b addr (info_size info) ps uniform w)))"

section \<open>The run over the corpus\<close>

record tally =
  ty_slots :: nat
  ty_cases :: nat
  ty_skipped :: nat
  ty_slots_with_skips :: nat
  ty_nondet :: nat

definition zero_tally :: tally where
  "zero_tally = \<lparr>ty_slots = 0, ty_cases = 0, ty_skipped = 0, ty_slots_with_skips = 0, ty_nondet = 0\<rparr>"

definition add_row :: "census_row \<Rightarrow> tally \<Rightarrow> tally" where
  "add_row r t =
     \<lparr>ty_slots = ty_slots t + 1, ty_cases = ty_cases t + cs_n r, ty_skipped = ty_skipped t + cs_skipped r,
      ty_slots_with_skips = ty_slots_with_skips t + (if cs_skipped r > 0 then 1 else 0),
      ty_nondet = ty_nondet t + cs_nondet r\<rparr>"

definition nat_json :: "nat dict \<Rightarrow> json" where
  "nat_json d = JObj (map (map_prod id (\<lambda>n. JInt (int n))) d)"

definition row_line :: "json \<Rightarrow> str \<Rightarrow> str \<Rightarrow> census_row \<Rightarrow> str" where
  "row_line tid func spec r =
     dumps (JObj [(''task'', tid), (''func'', JStr func), (''spec'', JStr spec), (''skipped'', JInt (int (cs_skipped r))),
       (''n'', JInt (int (cs_n r))), (''faults'', nat_json (cs_faults r)), (''nondeterministic'', JInt (int (cs_nondet r)))])"

definition tally_line :: "(nat \<Rightarrow> bool) \<Rightarrow> str \<Rightarrow> tally \<Rightarrow> str" where
  "tally_line U spec t =
     spec @ '': '' @ py_repr U (nat_json [(''slots'', ty_slots t), (''cases'', ty_cases t), (''skipped'', ty_skipped t),
       (''slots_with_skips'', ty_slots_with_skips t), (''nondeterministic'', ty_nondet t)])"

text \<open>The rows so far with their spec, in the order printed, and the totals by spec.\<close>

record census_state =
  st_lines :: "str list"
  st_totals :: "tally dict"

definition add_to :: "json \<Rightarrow> str \<Rightarrow> str \<Rightarrow> census_row \<Rightarrow> census_state \<Rightarrow> census_state" where
  "add_to tid func spec r st =
     \<lparr>st_lines = st_lines st @ [row_line tid func spec r],
      st_totals = AList.update spec (add_row r (get_default (st_totals st) spec zero_tally)) (st_totals st)\<rparr>"

text \<open>A loop whose body may fail or not come back.\<close>

fun each :: "('a \<Rightarrow> 's \<Rightarrow> 'w \<Rightarrow> ('s result \<times> 'w) option) \<Rightarrow> 'a list \<Rightarrow> 's \<Rightarrow> 'w \<Rightarrow> ('s result \<times> 'w) option" where
  "each f [] st w = Some (Inr st, w)"
| "each f (x # xs) st w =
     (case f x st w of
        None \<Rightarrow> None
      | Some (Inl e, w1) \<Rightarrow> Some (Inl e, w1)
      | Some (Inr st1, w1) \<Rightarrow> each f xs st1 w1)"

definition census_spec ::
    "('vm, 'snap, 'w) host \<Rightarrow> (str \<Rightarrow> 'w \<Rightarrow> bytes result) \<Rightarrow> json \<Rightarrow> str \<Rightarrow> json \<Rightarrow> string \<times> param list \<Rightarrow> census_state \<Rightarrow> 'w
     \<Rightarrow> (census_state result \<times> 'w) option" where
  "census_spec H rd task func info sp st w =
     (case census H rd task info (snd sp) w of
        None \<Rightarrow> None
      | Some (r, w1) \<Rightarrow> Some (bindE r (\<lambda>row. bindE (item ''task_id'' task) (\<lambda>tid. Inr (add_to tid func (fst sp) row st))), w1))"

definition census_function ::
    "('vm, 'snap, 'w) host \<Rightarrow> (str \<Rightarrow> 'w \<Rightarrow> bytes result) \<Rightarrow> json \<Rightarrow> string \<times> json \<Rightarrow> census_state \<Rightarrow> 'w
     \<Rightarrow> (census_state result \<times> 'w) option" where
  "census_function H rd task fi st w =
     (case dict_get REF (fst fi) of
        Inl e \<Rightarrow> Some (Inl e, w)
      | Inr ps \<Rightarrow> each (census_spec H rd task (fst fi) (snd fi)) [(''ref'', ps), (''mistyped'', mistyped ps)] st w)"

definition census_task ::
    "('vm, 'snap, 'w) host \<Rightarrow> (str \<Rightarrow> 'w \<Rightarrow> bytes result) \<Rightarrow> json \<Rightarrow> census_state \<Rightarrow> 'w
     \<Rightarrow> (census_state result \<times> 'w) option" where
  "census_task H rd task st w =
     (case item ''functions'' task of
        Inl e \<Rightarrow> Some (Inl e, w)
      | Inr (JObj fs) \<Rightarrow> each (census_function H rd task) fs st w
      | Inr _ \<Rightarrow> Some (Inl (AttributeError ''items''), w))"

text \<open>What the script prints on its two channels.\<close>

definition census_main ::
    "('vm, 'snap, 'w) host \<Rightarrow> 'w corpus_env \<Rightarrow> str \<Rightarrow> (str \<Rightarrow> 'w \<Rightarrow> bytes result) \<Rightarrow> 'w
     \<Rightarrow> ((str list \<times> str list) result \<times> 'w) option" where
  "census_main H E root rd w =
     (case load_manifest E root w of
        Inr (JList tasks) \<Rightarrow>
          map_option (map_prod (\<lambda>r. bindE r (\<lambda>st. Inr (st_lines st,
              map (\<lambda>(spec, t). tally_line (ho_printable H) spec t) (st_totals st)))) id)
            (each (census_task H rd) tasks \<lparr>st_lines = [], st_totals = []\<rparr> w)
      | Inr _ \<Rightarrow> Some (Inl (TypeError ''manifest''), w)
      | Inl e \<Rightarrow> Some (Inl e, w))"

end
