(* ===== verification/Census_Props.thy ===== *)
theory Census_Props
  imports Census Validate_Function_Props
begin

text \<open>
  What the numbers of the census mean: its rows add up, it skips exactly the cases that an accepting
  round skips, and it finds no nondeterminism where boots are indistinguishable.
\<close>

section \<open>The cases of the census are those of the gate\<close>

lemma census_batch_cases:
  "map snd (round_cases ps n uniform imms) = merge_scout_cases uniform (scout_inputs ps imms) n"
  by (simp add: round_cases_def merge_scout_cases_def scout_count_def Let_def take_map drop_map comp_def)

lemma length_census_cases: "length uniform = n \<Longrightarrow> length (merge_scout_cases uniform s n) = n"
  by (simp add: merge_scout_cases_def scout_count_def Let_def)

lemma census_Inr:
  assumes "census H rd task info ps w = Some (Inr row, w')"
  obtains path addr b uniform s imms where
    "item ''binary'' task = Inr path" "item ''addr'' info = Inr addr" "rd (as_str path) w = Inr b"
    "gen_inputs ps N_FUZZ (ho_random H (JInt SEED)) = Some (Inr uniform, s)"
    "scrape_immediates (ho_tools H) b (as_int addr) (window (info_size info)) = Inr imms"
    "measure_cases (ho_qiling H) (ho_tools H) b (as_int addr) ps
       (merge_scout_cases uniform (scout_inputs ps imms) N_FUZZ) w = (Inr row, w')"
  using assms
  by (auto simp: census_def census_cases_def bindE_def split: sum.splits option.splits prod.splits)

lemma measure_Inr:
  assumes "measure_cases Q T b addr ps cases w = (Inr row, w')"
  obtains outs w1 again where
    "batch_call_original Q T no_hooks b addr ps cases w = (Inr outs, w1)"
    "(if filter (\<lambda>(c, t). faulted t) (zip cases outs) = [] then (Inr [], w1)
      else batch_call_original Q T no_hooks b addr ps (map fst (filter (\<lambda>(c, t). faulted t) (zip cases outs))) w1)
      = (Inr again, w')"
    "row_of (length cases) (map snd (filter (\<lambda>(c, t). faulted t) (zip cases outs))) again = Inr row"
  using assms by (auto simp: measure_cases_def Let_def bindE_Inr_iff split: sum.splits prod.splits if_splits)

lemma row_of_Inr:
  assumes "row_of n bad again = Inr row"
  shows "cs_skipped row = length bad" and "cs_n row = n" and "cs_nondet row \<le> length bad"
    and "\<exists>fs. mapE fault_of bad = Inr fs \<and> cs_faults row = counter fs"
    and "\<exists>fl. mapE (\<lambda>(t, a). flaky a t) (zip bad again) = Inr fl \<and> cs_nondet row = length (filter id fl)"
proof -
  from assms obtain fl fs where fl: "mapE (\<lambda>(t, a). flaky a t) (zip bad again) = Inr fl"
    and fs: "mapE fault_of bad = Inr fs"
    and row: "row = \<lparr>cs_skipped = length bad, cs_n = n, cs_faults = counter fs, cs_nondet = length (filter id fl)\<rparr>"
    by (auto simp: row_of_def bindE_Inr_iff)
  show "cs_skipped row = length bad" "cs_n row = n" by (simp_all add: row)
  show "\<exists>fs. mapE fault_of bad = Inr fs \<and> cs_faults row = counter fs" using fs by (simp add: row)
  show "\<exists>fl. mapE (\<lambda>(t, a). flaky a t) (zip bad again) = Inr fl \<and> cs_nondet row = length (filter id fl)"
    using fl by (simp add: row)
  have "length (filter id fl) \<le> length fl" by simp
  also have "\<dots> \<le> length bad" using mapE_length [OF fl] by simp
  finally show "cs_nondet row \<le> length bad" by (simp add: row)
qed

section \<open>The rows add up\<close>

lemma sum_counter: "sum_list (map snd (counter xs)) = length xs"
proof -
  have "distinct (fromkeys xs)" "set (fromkeys xs) = set xs"
    by (simp_all add: distinct_dedup_from set_dedup_from)
  then have "sum_list (map snd (counter xs)) = (\<Sum>x \<in> set xs. count_list xs x)"
    by (simp add: counter_def comp_def sum_list_distinct_conv_sum_set)
  then show ?thesis by (simp add: sum_count_set)
qed

lemma filter_zip_length:
  assumes "length ys = length xs"
  shows "length (filter (\<lambda>(x, y). P y) (zip xs ys)) + length (filter (\<lambda>(x, y). \<not> P y) (zip xs ys)) = length xs"
  using sum_length_filter_compl [of "\<lambda>(x, y). P y" "zip xs ys"] assms by (simp add: case_prod_beta')

lemma census_row_adds_up:
  assumes "census H rd task info ps w = Some (Inr row, w')"
  shows "cs_nondet row \<le> cs_skipped row \<and> cs_skipped row \<le> cs_n row \<and> cs_n row = 64
    \<and> sum_list (map snd (cs_faults row)) = cs_skipped row"
proof -
  from assms obtain path addr b uniform s imms where
    g: "gen_inputs ps N_FUZZ (ho_random H (JInt SEED)) = Some (Inr uniform, s)"
    and m: "measure_cases (ho_qiling H) (ho_tools H) b (as_int addr) ps
       (merge_scout_cases uniform (scout_inputs ps imms) N_FUZZ) w = (Inr row, w')"
    by (rule census_Inr)
  let ?cases = "merge_scout_cases uniform (scout_inputs ps imms) N_FUZZ"
  from m obtain outs w1 again where
    r: "row_of (length ?cases) (map snd (filter (\<lambda>(c, t). faulted t) (zip ?cases outs))) again = Inr row"
    by (rule measure_Inr)
  have n: "length ?cases = 64" using length_gen_inputs [OF g] by (simp add: length_census_cases N_FUZZ_def)
  have "length (filter (\<lambda>(c, t). faulted t) (zip ?cases outs)) \<le> length (zip ?cases outs)" by (rule length_filter_le)
  with n row_of_Inr [OF r] sum_counter mapE_length show ?thesis by fastforce
qed

section \<open>An accepting round skips what the census skips\<close>

lemma judge_accept_counts:
  assumes "judge U func ps src seed n run_model cases wants w = (Inr v, w')" and "vd_ok v"
  shows "v = accept_fn (length (kept_cases cases wants)) (length cases - length (kept_cases cases wants)) seed"
  using assms
  by (auto simp: judge_def Let_def bindE_Inr_iff spec_reject_def reject_fn_def split: if_splits prod.splits
      dest!: judge_results_counts)

lemma kept_and_faulted:
  assumes "length wants = length cases"
  shows "length (kept_cases cases wants) + length (filter (\<lambda>(c, t). faulted t) (zip (map snd cases) wants)) = length cases"
proof -
  have "filter (\<lambda>(c, t). faulted t) (zip (map snd cases) wants)
      = map (map_prod snd id) (filter (\<lambda>(c, t). faulted t) (zip cases wants))"
    by (simp add: zip_map1 filter_map comp_def case_prod_beta' map_prod_def)
  then have "length (filter (\<lambda>(c, t). faulted t) (zip (map snd cases) wants))
      = length (filter (\<lambda>(c, t). faulted t) (zip cases wants))" by simp
  moreover have "length (kept_cases cases wants) = length (filter (\<lambda>(c, t). \<not> faulted t) (zip cases wants))"
    by (simp add: kept_cases_def faulted_def)
  ultimately show ?thesis using filter_zip_length [OF assms, of faulted] by simp
qed

text \<open>
  C36: the census counts the skips of the gate.  When a candidate is accepted for a function on the
  pinned seed, the round skipped exactly the cases the census counts for that function and
  declaration, and compared the rest.
\<close>

theorem census_counts_gate_skips:
  assumes "census H rd task info ps w = Some (Inr row, w1)"
    and "item ''binary'' task = Inr path" and "item ''addr'' info = Inr addr" and "rd (as_str path) w = Inr b"
    and "validate_function H b (as_int addr) func ps src (Some (JInt SEED)) N_FUZZ (info_size info) run_model w = Some (Inr v, w2)"
    and "vd_ok v"
  shows "vd_skipped v = cs_skipped row \<and> vd_compared v = 64 - cs_skipped row"
proof -
  from census_Inr [OF assms(1)] assms(2-4) obtain uniform s imms where
    g: "gen_inputs ps N_FUZZ (ho_random H (JInt SEED)) = Some (Inr uniform, s)"
    and i: "scrape_immediates (ho_tools H) b (as_int addr) (window (info_size info)) = Inr imms"
    and m: "measure_cases (ho_qiling H) (ho_tools H) b (as_int addr) ps
       (merge_scout_cases uniform (scout_inputs ps imms) N_FUZZ) w = (Inr row, w1)"
    by (metis sum.inject(2))
  let ?cases = "round_cases ps N_FUZZ uniform imms"
  from m obtain outs w3 again where
    o: "batch_call_original (ho_qiling H) (ho_tools H) no_hooks b (as_int addr) ps (map snd ?cases) w = (Inr outs, w3)"
    and r: "row_of (length ?cases) (map snd (filter (\<lambda>(c, t). faulted t) (zip (map snd ?cases) outs))) again = Inr row"
    unfolding census_batch_cases [symmetric] by (rule measure_Inr) (simp only: length_map)
  have len: "length outs = length ?cases" using list_all2_lengthD [OF batch_traced [OF o]] by simp
  have n: "length ?cases = 64"
    using length_gen_inputs [OF g] length_census_cases [of uniform N_FUZZ "scout_inputs ps imms"]
    unfolding census_batch_cases [symmetric] by (simp add: N_FUZZ_def)
  have "judge (ho_printable H) func ps src (JInt SEED) N_FUZZ run_model ?cases outs w3 = (Inr v, w2)"
    using assms(5,6) g i o
    by (auto simp: validate_function_def effective_seed_def validate_cases_def reject_fn_def split: if_splits)
  from judge_accept_counts [OF this assms(6)] n have
    v: "vd_skipped v = 64 - length (kept_cases ?cases outs)" "vd_compared v = length (kept_cases ?cases outs)"
    by (simp_all add: accept_fn_def)
  have "length (kept_cases ?cases outs) + cs_skipped row = 64"
    using kept_and_faulted [OF len] row_of_Inr(1) [OF r] n by simp
  then show ?thesis unfolding v by linarith
qed

section \<open>No nondeterminism where boots are indistinguishable\<close>

lemma mapE_filter_zip:
  assumes "mapE g xs = Inr ys"
  shows "mapE g (map fst (filter (\<lambda>(x, y). P y) (zip xs ys))) = Inr (map snd (filter (\<lambda>(x, y). P y) (zip xs ys)))"
  using mapE_Inr_list_all2 [OF assms]
  by (induction rule: list_all2_induct) auto

lemma flaky_same: "faulted t \<Longrightarrow> flaky t t = Inr x \<Longrightarrow> \<not> x"
  by (auto simp: flaky_def bindE_Inr_iff)

text \<open>
  C37: the census finds no nondeterminism in a deterministic original.  If booting the binary
  always gives VMs no operation tells apart and the snapshot covers what the function changes,
  every fault recurs with the same class, so no row counts a nondeterministic case.
\<close>

theorem census_deterministic:
  assumes "census H rd task info ps w = Some (Inr row, w1)"
    and "item ''binary'' task = Inr path" and "item ''addr'' info = Inr addr" and "rd (as_str path) w = Inr b"
    and "congruent (ho_qiling H) same" and "snapshot_laws (ho_qiling H) (as_int addr) same line"
    and "boots_alike (ho_qiling H) b same"
  shows "cs_nondet row = 0"
proof -
  from census_Inr [OF assms(1)] assms(2-4) obtain cases where
    m: "measure_cases (ho_qiling H) (ho_tools H) b (as_int addr) ps cases w = (Inr row, w1)"
    by (metis sum.inject(2))
  from m obtain outs w3 again where
    o: "batch_call_original (ho_qiling H) (ho_tools H) no_hooks b (as_int addr) ps cases w = (Inr outs, w3)"
    and a: "(if filter (\<lambda>(c, t). faulted t) (zip cases outs) = [] then (Inr [], w3)
      else batch_call_original (ho_qiling H) (ho_tools H) no_hooks b (as_int addr) ps
        (map fst (filter (\<lambda>(c, t). faulted t) (zip cases outs))) w3) = (Inr again, w1)"
    and r: "row_of (length cases) (map snd (filter (\<lambda>(c, t). faulted t) (zip cases outs))) again = Inr row"
    by (rule measure_Inr)
  let ?bad = "filter (\<lambda>(c, t). faulted t) (zip cases outs)"
  have again: "again = map snd ?bad"
  proof (cases "?bad = []")
    case False
    then have ne: "cases \<noteq> []" by auto
    from o have "length ps \<le> length BAREGS" by (auto simp: batch_call_original_def guard_arity_def split: if_splits)
    moreover from o ne obtain answer where "fn_has_syscall (ho_tools H) b (as_int addr) = Inr answer"
      by (auto simp: batch_call_original_def split: sum.splits)
    ultimately have fr: "fst (batch_call_original (ho_qiling H) (ho_tools H) no_hooks b (as_int addr) ps cs u)
        = mapE (\<lambda>c. bindE (fst (call_original (ho_qiling H) b (as_int addr) ps c w)) (\<lambda>t.
            Inr (with_mode (if answer = Some False then ''batched-snapshot'' else ''fresh-vm-fallback'') t))) cs" for cs u
      using batch_fresh [OF assms(5,6,7)] by blast
    from fr [of cases w] o have "mapE (\<lambda>c. bindE (fst (call_original (ho_qiling H) b (as_int addr) ps c w)) (\<lambda>t.
            Inr (with_mode (if answer = Some False then ''batched-snapshot'' else ''fresh-vm-fallback'') t))) cases = Inr outs"
      by simp
    from mapE_filter_zip [OF this, of faulted] fr [of "map fst ?bad" w3] a False show ?thesis by simp
  qed (use a in simp)
  from row_of_Inr(5) [OF r] obtain fl where fl: "mapE (\<lambda>(t, a). flaky a t) (zip (map snd ?bad) again) = Inr fl"
    and nd: "cs_nondet row = length (filter id fl)" by blast
  have "\<not> x" if "x \<in> set fl" for x
  proof -
    from fl have "mapE (\<lambda>t. flaky t t) (map snd ?bad) = Inr fl"
      by (simp add: again zip_same_conv_map mapE_map comp_def)
    from mapE_Inr_set [OF this that] obtain t where "t \<in> set (map snd ?bad)" "flaky t t = Inr x" .
    moreover from this(1) have "faulted t" by auto
    ultimately show ?thesis by (blast dest: flaky_same)
  qed
  then have "filter id fl = []" by (auto simp: filter_empty_conv)
  then show ?thesis by (simp add: nd)
qed

section \<open>A concrete census\<close>

lemma echo_zero: "gen_case [echo_param] (sconst 0) = Some (Inr [(''n'', VInt 0)], sconst 0)"
proof -
  have "(sconst 0 :: rng) = 0 ## sconst 0" using siterate.code [of id "0 :: 32 word"] by (simp only: id_apply)
  with echo_case [OF echo_randint(1) [of "sconst 0"]] show ?thesis by metis
qed

lemma echo_zeros: "draw_list n (gen_case [echo_param]) (sconst 0) = Some (Inr (replicate n [(''n'', VInt 0)]), sconst 0)"
proof (induction n)
  case (Suc n)
  then show ?case by (simp only: draw_list.simps bind_def echo_zero option.case prod.case sum.case ret_def replicate_Suc)
qed (simp add: ret_def)

definition echo_draws :: "int list" where "echo_draws = 0 # 1 # replicate 62 0"

definition echo_inputs :: "case_in list" where "echo_inputs = map (\<lambda>i. [(''n'', VInt i)]) echo_draws"

lemma echo_gen: "gen_inputs [echo_param] N_FUZZ (0 ## 1073741824 ## sconst 0) = Some (Inr echo_inputs, sconst 0)"
proof -
  have n: "N_FUZZ = Suc (Suc 62)" by (simp add: N_FUZZ_def)
  show ?thesis
    unfolding gen_inputs_def echo_inputs_def echo_draws_def n
    by (simp only: draw_list.simps)
      (simp add: bind_def ret_def echo_case [OF echo_randint(1)] echo_case [OF echo_randint(2)] echo_zeros)
qed

lemma echo_census_cases: "round_cases [echo_param] N_FUZZ echo_inputs [] = map (Pair True) echo_inputs"
  by (simp add: round_cases_def merge_scout_cases_def scout_count_def scout_inputs_def Let_def)

lemma echo_merged: "merge_scout_cases echo_inputs (scout_inputs [echo_param] []) N_FUZZ = echo_inputs"
  by (simp add: merge_scout_cases_def scout_count_def scout_inputs_def Let_def)

text \<open>On the fresh-VM route a machine that gives every case a trace gives it to the batch.\<close>

lemma flat_batch:
  assumes "\<And>i. i \<in> set is \<Longrightarrow> fresh_case (flat_machine sp code) no_hooks b 4096 [echo_param] [(''n'', VInt i)] () = (Inr (t i), ())"
  shows "batch_call_original (flat_machine sp code) stripped no_hooks b 4096 [echo_param] (map (\<lambda>i. [(''n'', VInt i)]) is) ()
    = (Inr (map t is), ())"
proof -
  have "fresh_cases (flat_machine sp code) no_hooks b 4096 [echo_param] (map (\<lambda>i. [(''n'', VInt i)]) is) () = (Inr (map t is), ())"
    using assms by (induction "is") simp_all
  then show ?thesis
    by (simp add: batch_call_original_def guard_arity_def BAREGS_def fn_has_syscall_def symtab_def stripped_def)
qed

lemma echo_fresh:
  assumes "i \<in> {0, 1}"
  shows "fresh_case echo_machine no_hooks b 4096 [echo_param] [(''n'', VInt i)] () = (Inr (echo_trace i), ())"
  using assms
  by (auto simp: fresh_case_def boot_vm_def echo_machine_def flat_machine_def no_hooks_def run_case_def
      enter_case_def dict_get_def marshal_def echo_param_def set_regs_def BAREGS_def finish_case_def c_int32_def
      with_mode_def echo_trace_def fv_write_def)

lemma echo_census_batch:
  "batch_call_original echo_machine stripped no_hooks b 4096 [echo_param] echo_inputs () = (Inr (map echo_trace echo_draws), ())"
  unfolding echo_machine_def echo_inputs_def
  by (rule flat_batch, rule echo_fresh [unfolded echo_machine_def]) (auto simp: echo_draws_def)

definition echo_slot :: json where
  "echo_slot = JObj [(''binary'', JStr ''b''), (''task_id'', JStr ''t'')]"

definition echo_info :: json where "echo_info = JObj [(''addr'', JInt 4096)]"

lemma echo_unfaulted: "\<not> faulted (echo_trace i)" by (simp add: faulted_def echo_trace_def)

lemma echo_census:
  "census echo_host (\<lambda>p w. Inr []) echo_slot echo_info [echo_param] ()
     = Some (Inr \<lparr>cs_skipped = 0, cs_n = 64, cs_faults = [], cs_nondet = 0\<rparr>, ())"
proof -
  have "filter (\<lambda>(c, t). faulted t) (zip echo_inputs (map echo_trace echo_draws)) = []"
    by (force simp: filter_empty_conv echo_unfaulted dest: set_zip_rightD)
  moreover have "length echo_inputs = 64" by (simp add: echo_inputs_def echo_draws_def)
  ultimately have "measure_cases echo_machine stripped [] 4096 [echo_param] echo_inputs ()
      = (Inr \<lparr>cs_skipped = 0, cs_n = 64, cs_faults = [], cs_nondet = 0\<rparr>, ())"
    by (simp add: measure_cases_def echo_census_batch row_of_def counter_def)
  then show ?thesis
    by (simp add: census_def echo_slot_def echo_info_def dict_get_def echo_host_def echo_gen census_cases_def echo_scrape
        echo_merged)
qed

definition echo_answers64 :: "unit worker" where
  "echo_answers64 job w = (Inr [(''results'', JList (map (faithful_answer \<circ> echo_trace) echo_draws))], w)"

lemma echo_agree:
  "agrees [echo_param] (echo_trace i) (faithful_answer (echo_trace i))"
  by (rule agrees_faithful) (simp_all add: echo_trace_def mem_shape_def echo_param_def)

lemma echo_accepts64:
  "\<exists>v w'. validate_function echo_host [] 4096 ''f'' [echo_param] ''int f;'' (Some (JInt SEED)) N_FUZZ None echo_answers64 ()
      = Some (Inr v, w') \<and> vd_ok v"
proof -
  let ?cases = "map (Pair True) echo_inputs" and ?wants = "map echo_trace echo_draws"
  have kept: "kept_cases ?cases ?wants = zip ?cases ?wants"
    by (auto simp: kept_cases_def filter_id_conv echo_trace_def dest!: set_zip_rightD)
  have texts: "dec 0 = ''0''" "dec 1 = ''1''" by code_simp+
  have "{dumps_sorted (wire [(''n'', VInt 0)]), dumps_sorted (wire [(''n'', VInt 1)])} \<subseteq> set (distinct_inputs (kept_cases ?cases ?wants))"
    unfolding kept distinct_inputs_def by (simp add: echo_inputs_def echo_draws_def)
  then have "card {dumps_sorted (wire [(''n'', VInt 0)]), dumps_sorted (wire [(''n'', VInt 1)])} \<le> card (set (distinct_inputs (kept_cases ?cases ?wants)))"
    by (intro card_mono) simp_all
  moreover have "dumps_sorted (wire [(''n'', VInt 0)]) \<noteq> dumps_sorted (wire [(''n'', VInt 1)])"
    by (simp add: wire_def order_items_def texts)
  moreover have "card (set (distinct_inputs (kept_cases ?cases ?wants))) \<le> length (distinct_inputs (kept_cases ?cases ?wants))"
    by (rule card_length)
  ultimately have two: "2 \<le> length (distinct_inputs (kept_cases ?cases ?wants))" by simp
  have nf: "\<forall>((d, c), want) \<in> set (zip ?cases ?wants). d \<longrightarrow> \<not> is_mem_fault want"
    by (auto simp: is_mem_fault_def echo_trace_def dest!: set_zip_rightD)
  have "list_all2 (\<lambda>((d, c), want) got. agrees [echo_param] want got) (zip ?cases ?wants) (map (faithful_answer \<circ> echo_trace) echo_draws)"
    by (auto simp: list_all2_conv_all_nth echo_inputs_def echo_agree)
  then have "round_agrees ''f'' [echo_param] ''int f;'' echo_answers64 ?cases ?wants ()"
    unfolding round_agrees_def using nf two kept by (auto simp: echo_answers64_def has_key_def)
  moreover have "length [echo_param] \<le> 6" "\<not> compares_nothing [echo_param]"
    "effective_seed echo_host (Some (JInt SEED)) () = (JInt SEED, ())"
    by (simp_all add: compares_nothing_def is_void_def echo_param_def effective_seed_def)
  moreover have "gen_inputs [echo_param] N_FUZZ (ho_random echo_host (JInt SEED)) = Some (Inr echo_inputs, sconst 0)"
    "ho_qiling echo_host = echo_machine" "ho_tools echo_host = stripped"
    by (simp_all add: echo_host_def echo_gen)
  moreover have "map snd ?cases = echo_inputs" by (simp add: comp_def)
  ultimately show ?thesis
    unfolding validate_function_accepts
    using echo_scrape [of "[]" "window None"] echo_census_batch [of "[]"] echo_census_cases by fastforce
qed

theorem census_counts_gate_skips_witness:
  "\<exists>v w2. validate_function echo_host [] 4096 ''f'' [echo_param] ''int f;'' (Some (JInt SEED)) N_FUZZ None echo_answers64 ()
      = Some (Inr v, w2) \<and> vd_skipped v = 0 \<and> vd_compared v = 64"
proof -
  obtain v w2 where v: "validate_function echo_host [] 4096 ''f'' [echo_param] ''int f;'' (Some (JInt SEED)) N_FUZZ None echo_answers64 ()
      = Some (Inr v, w2)" "vd_ok v" using echo_accepts64 by blast
  have "item ''binary'' echo_slot = Inr (JStr ''b'')" "item ''addr'' echo_info = Inr (JInt 4096)" "info_size echo_info = None"
    by (simp_all add: echo_slot_def echo_info_def dict_get_def info_size_def get_default_def)
  with census_counts_gate_skips [OF echo_census, of _ _ "[]" "''f''" "''int f;''" echo_answers64 v w2] v show ?thesis by simp
qed

text \<open>A machine that never reaches the return trap: every case times out.\<close>

definition hang_host :: "(flat_vm, flat_vm, unit) host" where
  "hang_host = echo_host\<lparr>ho_qiling := flat_machine 4096 (\<lambda>vm. (None, vm))\<rparr>"

definition hang_trace :: fn_trace where
  "hang_trace = with_mode ''fresh-vm-fallback'' (fault_trace (mk_event ''fault'' ''timeout'' []))"

lemma hang_fresh:
  "fresh_case (flat_machine 4096 (\<lambda>vm. (None, vm))) no_hooks b 4096 [echo_param] [(''n'', VInt i)] () = (Inr hang_trace, ())"
  by (simp add: fresh_case_def boot_vm_def flat_machine_def no_hooks_def run_case_def
      enter_case_def dict_get_def marshal_def echo_param_def set_regs_def BAREGS_def finish_case_def
      hang_trace_def fv_write_def SENTINEL_def)

lemma hang_batch:
  "batch_call_original (flat_machine 4096 (\<lambda>vm. (None, vm))) stripped no_hooks b 4096 [echo_param] echo_inputs ()
     = (Inr (replicate 64 hang_trace), ())"
proof -
  have "map (\<lambda>i. hang_trace) echo_draws = replicate 64 hang_trace" by (simp add: echo_draws_def map_replicate_const)
  with flat_batch [of echo_draws 4096 "\<lambda>vm. (None, vm)" b "\<lambda>i. hang_trace", OF hang_fresh] show ?thesis
    by (simp add: echo_inputs_def)
qed

lemma hang_census:
  "\<exists>row. census hang_host (\<lambda>p w. Inr []) echo_slot echo_info [echo_param] () = Some (Inr row, ()) \<and> cs_skipped row = 64"
proof -
  let ?Q = "flat_machine 4096 (\<lambda>vm. (None, vm))"
  have f: "faulted hang_trace" "fault_of hang_trace = Inr ''timeout''"
    by (simp_all add: hang_trace_def with_mode_def fault_trace_def faulted_def fault_of_def mk_event_def)
  have len: "length echo_inputs = 64" by (simp add: echo_inputs_def echo_draws_def)
  then have bad: "filter (\<lambda>(c, t). faulted t) (zip echo_inputs (replicate 64 hang_trace)) = zip echo_inputs (replicate 64 hang_trace)"
    by (auto simp: filter_id_conv f dest!: set_zip_rightD)
  have ne: "zip echo_inputs (replicate 64 hang_trace) \<noteq> []" using len by auto
  have fl: "mapE (\<lambda>(t, a). flaky a t) (replicate 64 (hang_trace, hang_trace)) = Inr (map (\<lambda>_. False) (replicate 64 (hang_trace, hang_trace)))"
    by (rule mapE_total) (auto simp: flaky_def f)
  have fs: "mapE fault_of (replicate 64 hang_trace) = Inr (map (\<lambda>_. ''timeout'') (replicate 64 hang_trace))"
    by (rule mapE_total) (simp add: f)
  have "\<exists>row. measure_cases ?Q stripped [] 4096 [echo_param] echo_inputs () = (Inr row, ()) \<and> cs_skipped row = 64"
    unfolding measure_cases_def hang_batch prod.case sum.case Let_def bad
    using ne len by (simp add: hang_batch row_of_def fl fs)
  moreover have "ho_random hang_host = ho_random echo_host" "ho_tools hang_host = stripped" "ho_qiling hang_host = ?Q"
    by (simp_all add: hang_host_def echo_host_def)
  ultimately show ?thesis
    by (simp add: census_def echo_slot_def echo_info_def dict_get_def echo_host_def echo_gen census_cases_def echo_scrape
        echo_merged)
qed

theorem census_deterministic_witness:
  "\<exists>row. census hang_host (\<lambda>p w. Inr []) echo_slot echo_info [echo_param] () = Some (Inr row, ())
     \<and> cs_skipped row = 64 \<and> cs_nondet row = 0"
proof -
  obtain row where row: "census hang_host (\<lambda>p w. Inr []) echo_slot echo_info [echo_param] () = Some (Inr row, ())" "cs_skipped row = 64"
    using hang_census by blast
  have "item ''binary'' echo_slot = Inr (JStr ''b'')" "item ''addr'' echo_info = Inr (JInt 4096)"
    "ho_qiling hang_host = flat_machine 4096 (\<lambda>vm. (None, vm))"
    by (simp_all add: echo_slot_def echo_info_def dict_get_def hang_host_def)
  with census_deterministic [OF row(1), of "JStr ''b''" "JInt 4096" "[]" "(=)" "\<lambda>_ _. True"] row show ?thesis
    by (simp add: flat_congruent flat_snapshot flat_boots)
qed

end
