(* ===== verification/Coverage.thy ===== *)
theory Coverage
  imports Validate_Function Calling_Batch Corpus
begin

unbundle bit_operations_syntax

text \<open>
  \<^verbatim>\<open>src/tools/coverage_spike.py\<close>: an edge-coverage hook on the batch of the function gate, and the gate of
  the measurement: with and without the hook the traces are the same.  The emulator is asked, besides
  its operations, for the addresses of the blocks a run enters.
\<close>

section \<open>\<^verbatim>\<open>_hook_recorder\<close>\<close>

definition MASK :: nat where "MASK = 2 ^ 15"

text \<open>The indices whose byte is set, the number of block hits, and the variables of the scope.\<close>

record hook_state =
  hs_bits :: "nat set"
  hs_hits :: nat
  hs_prev :: int
  hs_error :: bool

definition edge_index :: "int \<Rightarrow> int \<Rightarrow> nat" where
  "edge_index address prev = nat ((address XOR drop_bit 1 prev) AND (int MASK - 1))"

definition cb :: "int \<Rightarrow> hook_state \<Rightarrow> hook_state" where
  "cb address h =
     (let i = edge_index address (hs_prev h) in
      if i < MASK then h\<lparr>hs_bits := insert i (hs_bits h), hs_hits := hs_hits h + 1, hs_prev := address\<rparr>
      else h\<lparr>hs_error := True\<rparr>)"

definition check_error :: "hook_state \<Rightarrow> unit result" where
  "check_error h = (if hs_error h then Inl (RuntimeError ''coverage hook failed'') else Inr ())"

definition before_case :: "hook_state \<Rightarrow> hook_state result" where
  "before_case h = bindE (check_error h) (\<lambda>_. Inr (h\<lparr>hs_prev := 0\<rparr>))"

definition fresh_recorder :: hook_state where
  "fresh_recorder = \<lparr>hs_bits = {}, hs_hits = 0, hs_prev = 0, hs_error = False\<rparr>"

definition scope :: "('vm \<times> hook_state) hooks" where
  "scope =
     \<lparr>hk_enter = (\<lambda>(vm, h). Inr (vm, h\<lparr>hs_prev := 0, hs_error := False\<rparr>)),
      hk_before = (\<lambda>(vm, h). bindE (before_case h) (\<lambda>h1. Inr (vm, h1))),
      hk_exit = (\<lambda>(vm, h). bindE (check_error h) (\<lambda>_. Inr (vm, h)))\<rparr>"

text \<open>
  The emulator with the block hook: a VM carries the recorder, which a run feeds with the blocks it
  enters and a snapshot does not cover.
\<close>

type_synonym 'vm block_run = "int \<Rightarrow> int \<Rightarrow> nat \<Rightarrow> 'vm \<Rightarrow> int list"

definition keep :: "hook_state \<Rightarrow> 'vm result \<Rightarrow> ('vm \<times> hook_state) result" where
  "keep h r = bindE r (\<lambda>vm. Inr (vm, h))"

definition hooked :: "('vm, 'snap, 'w) qiling \<Rightarrow> 'vm block_run \<Rightarrow> ('vm \<times> hook_state, 'snap, 'w) qiling" where
  "hooked Q blk =
     \<lparr>q_new = (\<lambda>b w. map_prod (keep fresh_recorder) id (q_new Q b w)),
      q_mem_map = (\<lambda>a n (vm, h). keep h (q_mem_map Q a n vm)),
      q_stack_address = (\<lambda>(vm, h). q_stack_address Q vm),
      q_mem_write = (\<lambda>a b (vm, h). keep h (q_mem_write Q a b vm)),
      q_mem_read = (\<lambda>a n (vm, h). q_mem_read Q a n vm),
      q_reg_write = (\<lambda>r x (vm, h). (q_reg_write Q r x vm, h)),
      q_reg_read = (\<lambda>r (vm, h). q_reg_read Q r vm),
      q_stack_write = (\<lambda>a x (vm, h). keep h (q_stack_write Q a x vm)),
      q_run = (\<lambda>a s n (vm, h). map_prod id (\<lambda>vm1. (vm1, fold cb (blk a s n vm) h)) (q_run Q a s n vm)),
      q_save = (\<lambda>(vm, h). q_save Q vm),
      q_restore = (\<lambda>s (vm, h). (q_restore Q s vm, h))\<rparr>"

section \<open>\<^verbatim>\<open>_timed\<close>\<close>

text \<open>The recorder at the end of the snapshot route: block hits and occupied bins.\<close>

definition batch_stats ::
    "('vm, 'snap, 'w) qiling \<Rightarrow> 'vm block_run \<Rightarrow> bytes \<Rightarrow> int \<Rightarrow> param list \<Rightarrow> case_in list \<Rightarrow> 'w \<Rightarrow> (nat \<times> nat) result" where
  "batch_stats Q blk b addr ps cs w =
     bindE (fst (boot_vm (hooked Q blk) b w)) (\<lambda>vm. bindE (hk_enter scope vm) (\<lambda>vm0.
     bindE (snapshot_cases (hooked Q blk) scope (q_save (hooked Q blk) vm) addr ps cs vm0) (\<lambda>(ts, vm1).
       Inr (hs_hits (snd vm1), card (hs_bits (snd vm1))))))"

definition snapshot_batch :: "fn_trace list \<Rightarrow> unit result" where
  "snapshot_batch outs =
     (if outs \<noteq> [] \<and> list_all (\<lambda>t. ft_batch_mode t = Some ''batched-snapshot'') outs then Inr ()
      else Inl (AssertionError ''coverage spike requires a nonempty snapshot batch''))"

text \<open>Without the clock.\<close>

definition timed ::
    "('vm, 'snap, 'w) qiling \<Rightarrow> tools \<Rightarrow> 'vm block_run \<Rightarrow> bool \<Rightarrow> bytes \<Rightarrow> int \<Rightarrow> param list \<Rightarrow> case_in list \<Rightarrow> 'w
     \<Rightarrow> (fn_trace list \<times> (nat \<times> nat) option) result \<times> 'w" where
  "timed Q T blk instrumented b addr ps cs w =
     (if instrumented then
        (case batch_call_original (hooked Q blk) T scope b addr ps cs w of
           (r, w1) \<Rightarrow> (bindE r (\<lambda>outs. bindE (snapshot_batch outs) (\<lambda>_.
              bindE (batch_stats Q blk b addr ps cs w) (\<lambda>st. Inr (outs, Some st)))), w1))
      else
        (case batch_call_original Q T no_hooks b addr ps cs w of
           (r, w1) \<Rightarrow> (bindE r (\<lambda>outs. bindE (snapshot_batch outs) (\<lambda>_. Inr (outs, None))), w1)))"

section \<open>The measurement\<close>

definition spike_params :: "param list" where
  "spike_params =
     [\<lparr>p_name = ''lo'', p_kind = I32, p_length_param = None, p_range = (- 20, 10), p_ret = ''i32''\<rparr>,
      \<lparr>p_name = ''hi'', p_kind = I32, p_length_param = None, p_range = (10, 30), p_ret = ''i32''\<rparr>]"

definition agree_all :: "fn_trace list \<Rightarrow> fn_trace list list \<Rightarrow> unit result" where
  "agree_all outs rest =
     (if list_all (\<lambda>os. os = outs) rest then Inr ()
      else Inl (AssertionError (''hooked batch diverged from plain batch '' @ em_dash @ '' probe is perturbing verdicts'')))"

definition same_stats :: "(nat \<times> nat) option \<Rightarrow> (nat \<times> nat) option \<Rightarrow> unit result" where
  "same_stats s s' =
     (if s = s' then Inr () else Inl (AssertionError ''identical hooked trials produced different coverage''))"

text \<open>The four trials in turn, and the two gates.\<close>

definition trials ::
    "('vm, 'snap, 'w) qiling \<Rightarrow> tools \<Rightarrow> 'vm block_run \<Rightarrow> bytes \<Rightarrow> int \<Rightarrow> param list \<Rightarrow> case_in list \<Rightarrow> 'w
     \<Rightarrow> (nat \<times> nat) option result \<times> 'w" where
  "trials Q T blk b addr ps cs w =
     (case timed Q T blk False b addr ps cs w of (Inl e, w1) \<Rightarrow> (Inl e, w1) | (Inr (o1, _), w1) \<Rightarrow>
     (case timed Q T blk True b addr ps cs w1 of (Inl e, w2) \<Rightarrow> (Inl e, w2) | (Inr (o2, s2), w2) \<Rightarrow>
     (case timed Q T blk False b addr ps cs w2 of (Inl e, w3) \<Rightarrow> (Inl e, w3) | (Inr (o3, _), w3) \<Rightarrow>
     (case timed Q T blk True b addr ps cs w3 of (Inl e, w4) \<Rightarrow> (Inl e, w4) | (Inr (o4, s4), w4) \<Rightarrow>
       (bindE (agree_all o1 [o2, o3, o4]) (\<lambda>_. bindE (same_stats s2 s4) (\<lambda>_. Inr s2)), w4)))))"

definition spike_task :: "json \<Rightarrow> (json \<times> json) result" where
  "spike_task m =
     bindE (case m of JList ts \<Rightarrow> find_slot ''calc::gcc-O2-sym'' ts | _ \<Rightarrow> Inl (TypeError ''manifest'')) (\<lambda>t.
       case t of
         None \<Rightarrow> Inl (EmulatorError ''StopIteration'' [])
       | Some task \<Rightarrow> bindE (item ''functions'' task) (\<lambda>fs. bindE (item ''sum_range'' fs) (\<lambda>fn. Inr (task, fn))))"

text \<open>\<^verbatim>\<open>main\<close> up to its gates; a binary is named by its path, which \<^verbatim>\<open>rd\<close> reads.\<close>

definition spike ::
    "('vm, 'snap, 'w) host \<Rightarrow> 'vm block_run \<Rightarrow> 'w corpus_env \<Rightarrow> str \<Rightarrow> (str \<Rightarrow> bytes) \<Rightarrow> 'w
     \<Rightarrow> ((nat \<times> nat) option result \<times> 'w) option" where
  "spike H blk E root rd w =
     (case bindE (load_manifest E root w) spike_task of
        Inl e \<Rightarrow> Some (Inl e, w)
      | Inr (task, fn) \<Rightarrow>
          (case gen_inputs spike_params 64 (ho_random H (JInt 41)) of
             None \<Rightarrow> None
           | Some (Inl e, _) \<Rightarrow> Some (Inl e, w)
           | Some (Inr cases, _) \<Rightarrow>
               Some (case bindE (item ''binary'' task) (\<lambda>p. bindE (item ''addr'' fn) (\<lambda>a. Inr (as_str p, as_int a))) of
                       Inl e \<Rightarrow> (Inl e, w)
                     | Inr (path, addr) \<Rightarrow> trials (ho_qiling H) (ho_tools H) blk (rd path) addr spike_params cases w)))"

end
