(* ===== verification/Coverage_Props.thy ===== *)
theory Coverage_Props
  imports Coverage
begin

text \<open>
  What the spike measures: the hook never perturbs a batch, no edge crosses from one case to the
  next, and the gates of the measurement hold where boots are indistinguishable.
\<close>

section \<open>The callback\<close>

lemma edge_index_bound: "edge_index a p < MASK"
proof -
  let ?x = "(a XOR drop_bit 1 p) AND (int MASK - 1)"
  have "?x \<le> int MASK - 1" by (rule AND_upper2) (simp add: MASK_def)
  moreover have "0 \<le> ?x" by (simp add: MASK_def)
  ultimately show ?thesis unfolding edge_index_def by linarith
qed

fun edges :: "int \<Rightarrow> int list \<Rightarrow> nat set" where
  "edges prev [] = {}"
| "edges prev (a # as) = insert (edge_index a prev) (edges a as)"

text \<open>The callback's \<^verbatim>\<open>except\<close> branch is dead: every index is in the map.\<close>

lemma fold_cb:
  "hs_error (fold cb as h) = hs_error h"
  "hs_hits (fold cb as h) = hs_hits h + length as"
  "hs_bits (fold cb as h) = hs_bits h \<union> edges (hs_prev h) as"
  by (induction "as" arbitrary: h) (simp_all add: cb_def Let_def edge_index_bound)

section \<open>The hooked emulator computes what the emulator computes\<close>

lemma keep_simps [simp]: "keep h (Inl e) = Inl e" "keep h (Inr vm) = Inr (vm, h)"
  by (simp_all add: keep_def)

lemma hooked_simps [simp]:
  "q_stack_address (hooked Q blk) (vm, h) = q_stack_address Q vm"
  "q_mem_write (hooked Q blk) a b (vm, h) = keep h (q_mem_write Q a b vm)"
  "q_mem_read (hooked Q blk) a n (vm, h) = q_mem_read Q a n vm"
  "q_reg_write (hooked Q blk) r x (vm, h) = (q_reg_write Q r x vm, h)"
  "q_reg_read (hooked Q blk) r (vm, h) = q_reg_read Q r vm"
  "q_stack_write (hooked Q blk) a x (vm, h) = keep h (q_stack_write Q a x vm)"
  "q_run (hooked Q blk) a s n (vm, h) = (fst (q_run Q a s n vm), (snd (q_run Q a s n vm), fold cb (blk a s n vm) h))"
  "q_save (hooked Q blk) (vm, h) = q_save Q vm"
  "q_restore (hooked Q blk) sn (vm, h) = (q_restore Q sn vm, h)"
  by (simp_all add: hooked_def map_prod_def split_beta)

lemma boot_hooked: "boot_vm (hooked Q blk) b w = (keep fresh_recorder (fst (boot_vm Q b w)), snd (boot_vm Q b w))"
proof -
  obtain r w' where q: "q_new Q b w = (r, w')" by fastforce
  then have "q_new (hooked Q blk) b w = (keep fresh_recorder r, w')" by (simp add: hooked_def)
  moreover have "q_mem_map (hooked Q blk) a n (vm, h) = keep h (q_mem_map Q a n vm)" for a n vm h
    by (simp add: hooked_def)
  ultimately show ?thesis using q by (cases r) (simp_all add: boot_vm_def)
qed

lemma marshal_all_hooked:
  "marshal_all (hooked Q blk) ps c tp (vm, h)
     = bindE (marshal_all Q ps c tp vm) (\<lambda>(rs, ptrs, t, vm'). Inr (rs, ptrs, t, (vm', h)))"
proof (induction ps arbitrary: tp vm)
  case (Cons p ps)
  have mem: "bindE (keep h r) f = bindE r (\<lambda>vm1. f (vm1, h))" for r :: "'a result" and f :: "'a \<times> hook_state \<Rightarrow> 'z result"
    by (cases r) simp_all
  show ?case
    unfolding marshal_all.simps Let_def hooked_simps mem Cons.IH
    by (cases "dict_get c (p_name p)"; simp)
      (auto simp: bindE_def split: sum.splits)
qed simp

lemma set_regs_hooked: "set_regs (hooked Q blk) vals (vm, h) = (set_regs Q vals vm, h)"
proof -
  have "fold (\<lambda>(r, v) vm. q_reg_write (hooked Q blk) r v vm) rvs (u, h) = (fold (\<lambda>(r, v) vm. q_reg_write Q r v vm) rvs u, h)"
    for rvs u by (induction rvs arbitrary: u) auto
  then show ?thesis by (simp add: set_regs_def)
qed

lemma enter_case_hooked:
  "enter_case (hooked Q blk) ps c (vm, h)
     = bindE (enter_case Q ps c vm) (\<lambda>(ptrs, rsp, vm'). Inr (ptrs, rsp, (vm', h)))"
  by (auto simp: enter_case_def marshal_all_hooked set_regs_hooked bindE_def keep_def split: sum.splits)

lemma readback_hooked: "readback (hooked Q blk) ps c ptrs (vm, h) = readback Q ps c ptrs vm"
proof -
  have "read_param (hooked Q blk) p v a (vm, h) = read_param Q p v a vm" for p v a
    unfolding read_param_def hooked_simps by (rule refl)
  then show ?thesis by (induction ps) simp_all
qed

lemma finish_case_hooked: "finish_case (hooked Q blk) ps c ptrs (x, (vm, h)) = finish_case Q ps c ptrs (x, vm)"
  by (simp add: finish_case_def readback_hooked split: option.split)

text \<open>The blocks a case runs through.\<close>

definition case_blocks :: "('vm, 'snap, 'w) qiling \<Rightarrow> 'vm block_run \<Rightarrow> int \<Rightarrow> param list \<Rightarrow> case_in \<Rightarrow> 'vm \<Rightarrow> int list" where
  "case_blocks Q blk addr ps c vm =
     (case enter_case Q ps c vm of Inl e \<Rightarrow> [] | Inr (ptrs, rsp, vm2) \<Rightarrow> blk addr SENTINEL TIMEOUT_US vm2)"

lemma run_case_hooked:
  "run_case (hooked Q blk) addr ps c (vm, h)
     = bindE (run_case Q addr ps c vm) (\<lambda>(t, vm'). Inr (t, (vm', fold cb (case_blocks Q blk addr ps c vm) h)))"
proof (cases "enter_case Q ps c vm")
  case (Inr x)
  then obtain ptrs rsp vm2 where e: "enter_case Q ps c vm = Inr (ptrs, rsp, vm2)" by (cases x) auto
  show ?thesis
    by (cases "q_run Q addr SENTINEL TIMEOUT_US vm2")
      (auto simp: run_case_def enter_case_hooked e Let_def finish_case_hooked case_blocks_def bindE_def split: sum.splits)
qed (simp add: run_case_def enter_case_hooked)

section \<open>The negative gate\<close>

lemma scope_simps [simp]:
  "hk_enter scope (vm, h) = Inr (vm, h\<lparr>hs_prev := 0, hs_error := False\<rparr>)"
  "\<not> hs_error h \<Longrightarrow> hk_before scope (vm, h) = Inr (vm, h\<lparr>hs_prev := 0\<rparr>)"
  "\<not> hs_error h \<Longrightarrow> hk_exit scope (vm, h) = Inr (vm, h)"
  by (simp_all add: scope_def before_case_def check_error_def)

lemma no_hooks_simps [simp]: "hk_enter no_hooks = Inr" "hk_before no_hooks = Inr" "hk_exit no_hooks = Inr"
  by (simp_all add: no_hooks_def)

lemma snapshot_cases_hooked:
  assumes "\<not> hs_error h"
  shows "snapshot_cases Q no_hooks snap addr ps cs vm = Inl e \<Longrightarrow>
      snapshot_cases (hooked Q blk) scope snap addr ps cs (vm, h) = Inl e"
    and "snapshot_cases Q no_hooks snap addr ps cs vm = Inr (ts, vm') \<Longrightarrow>
      \<exists>h'. snapshot_cases (hooked Q blk) scope snap addr ps cs (vm, h) = Inr (ts, (vm', h')) \<and> \<not> hs_error h'"
  using assms
proof (induction cs arbitrary: vm h ts)
  case (Cons c cs)
  { case 1
    then show ?case
      using Cons.IH(1)
      by (fastforce simp: run_case_hooked fold_cb bindE_def split: sum.splits)
  next
    case 2
    then obtain t vm1 ts' where r: "run_case Q addr ps c (q_restore Q snap vm) = Inr (t, vm1)"
      "snapshot_cases Q no_hooks snap addr ps cs vm1 = Inr (ts', vm')" "ts = with_mode ''batched-snapshot'' t # ts'"
      by (auto simp: bindE_Inr_iff)
    let ?h = "fold cb (case_blocks Q blk addr ps c (q_restore Q snap vm)) (h\<lparr>hs_prev := 0\<rparr>)"
    have "\<not> hs_error ?h" using 2(2) by (simp add: fold_cb)
    from Cons.IH(2) [OF r(2) this] r 2(2) show ?case by (auto simp: run_case_hooked)
  }
qed simp_all

lemma fresh_case_hooked: "fresh_case (hooked Q blk) scope b addr ps c w = fresh_case Q no_hooks b addr ps c w"
proof (cases "boot_vm Q b w")
  case (Pair r w')
  show ?thesis
  proof (cases r)
    case (Inr vm)
    then show ?thesis
      using Pair by (cases "run_case Q addr ps c vm") (auto simp: fresh_case_def boot_hooked run_case_hooked fold_cb)
  qed (simp add: Pair fresh_case_def boot_hooked)
qed

lemma fresh_cases_hooked: "fresh_cases (hooked Q blk) scope b addr ps cs w = fresh_cases Q no_hooks b addr ps cs w"
  by (induction cs arbitrary: w) (simp_all add: fresh_case_hooked split: prod.split sum.split)

lemma batch_hooked:
  "batch_call_original (hooked Q blk) T scope b addr ps cs w = batch_call_original Q T no_hooks b addr ps cs w"
proof (cases "boot_vm Q b w")
  case (Pair r w')
  have "bindE (keep fresh_recorder r) (\<lambda>vm. bindE (hk_enter scope vm) (\<lambda>vm0.
      bindE (snapshot_cases (hooked Q blk) scope (q_save (hooked Q blk) vm) addr ps cs vm0) (\<lambda>(ts, vm1).
      bindE (hk_exit scope vm1) (\<lambda>_. Inr ts))))
    = bindE r (\<lambda>vm. bindE (snapshot_cases Q no_hooks (q_save Q vm) addr ps cs vm) (\<lambda>(ts, _). Inr ts))"
  proof (cases r)
    case (Inr vm)
    let ?h = "fresh_recorder\<lparr>hs_prev := 0, hs_error := False\<rparr>"
    have "\<not> hs_error ?h" by simp
    note sim = snapshot_cases_hooked [OF this, where Q = Q and snap = "q_save Q vm" and addr = addr and ps = ps and cs = cs and vm = vm and blk = blk]
    show ?thesis
    proof (cases "snapshot_cases Q no_hooks (q_save Q vm) addr ps cs vm")
      case (Inl e)
      with sim(1) Inr show ?thesis by simp
    next
      case (Inr x)
      then obtain ts vm1 where x: "snapshot_cases Q no_hooks (q_save Q vm) addr ps cs vm = Inr (ts, vm1)" by (cases x) simp
      with sim(2) obtain h' where "snapshot_cases (hooked Q blk) scope (q_save Q vm) addr ps cs (vm, ?h) = Inr (ts, (vm1, h'))"
        "\<not> hs_error h'" by blast
      with x \<open>r = Inr vm\<close> show ?thesis by simp
    qed
  qed simp
  then show ?thesis
    by (simp add: batch_call_original_def boot_hooked Pair fresh_cases_hooked split: sum.split)
qed

section \<open>Coverage is collected case by case\<close>

definition blocks_alike :: "'vm block_run \<Rightarrow> ('vm \<Rightarrow> 'vm \<Rightarrow> bool) \<Rightarrow> bool" where
  "blocks_alike blk same = (\<forall>u v a s n. same u v \<longrightarrow> blk a s n u = blk a s n v)"

lemma case_blocks_alike:
  assumes "congruent Q same" and "blocks_alike blk same" and "same u v"
  shows "case_blocks Q blk addr ps c u = case_blocks Q blk addr ps c v"
  using enter_case_sim [OF assms(1,3), of ps c] assms(2)
  by (cases "enter_case Q ps c u"; cases "enter_case Q ps c v")
    (auto simp: case_blocks_def blocks_alike_def)

text \<open>The hits and the bins of a batch whose cases run from the VM \<^verbatim>\<open>v\<close>.\<close>

definition hits_of :: "('vm, 'snap, 'w) qiling \<Rightarrow> 'vm block_run \<Rightarrow> int \<Rightarrow> param list \<Rightarrow> case_in list \<Rightarrow> 'vm \<Rightarrow> nat" where
  "hits_of Q blk addr ps cs v = sum_list (map (\<lambda>c. length (case_blocks Q blk addr ps c v)) cs)"

definition bins_of :: "('vm, 'snap, 'w) qiling \<Rightarrow> 'vm block_run \<Rightarrow> int \<Rightarrow> param list \<Rightarrow> case_in list \<Rightarrow> 'vm \<Rightarrow> nat set" where
  "bins_of Q blk addr ps cs v = (\<Union>c \<in> set cs. edges 0 (case_blocks Q blk addr ps c v))"

lemma snapshot_cases_stats:
  assumes laws: "congruent Q same" "snapshot_laws Q addr same line" "blocks_alike blk same"
    and "line v u" and "\<not> hs_error h"
    and "snapshot_cases (hooked Q blk) scope (q_save Q v) addr ps cs (u, h) = Inr (ts, (u', h'))"
  shows "hs_hits h' = hs_hits h + hits_of Q blk addr ps cs v \<and> hs_bits h' = hs_bits h \<union> bins_of Q blk addr ps cs v"
  using assms(4-6)
proof (induction cs arbitrary: u h ts)
  case (Cons c cs)
  let ?r = "q_restore Q (q_save Q v) u"
  have r: "same v ?r" "line v ?r" by (rule snapshot_lawsD(2,3) [OF laws(2) Cons.prems(1)])+
  let ?h = "fold cb (case_blocks Q blk addr ps c ?r) (h\<lparr>hs_prev := 0\<rparr>)"
  from Cons.prems(2,3) obtain t u1 ts' where run: "run_case Q addr ps c ?r = Inr (t, u1)"
    and rest: "snapshot_cases (hooked Q blk) scope (q_save Q v) addr ps cs (u1, ?h) = Inr (ts', (u', h'))"
    by (auto simp: bindE_Inr_iff run_case_hooked)
  have "line v u1" by (rule run_case_line [OF laws(2) r(2) run])
  moreover have "\<not> hs_error ?h" using Cons.prems(2) by (simp add: fold_cb)
  ultimately have "hs_hits h' = hs_hits ?h + hits_of Q blk addr ps cs v \<and> hs_bits h' = hs_bits ?h \<union> bins_of Q blk addr ps cs v"
    using rest by (rule Cons.IH)
  then show ?case
    using case_blocks_alike [OF laws(1,3) r(1), of addr ps c] by (auto simp: fold_cb hits_of_def bins_of_def)
qed (auto simp: hits_of_def bins_of_def)

lemma fresh_cases_mode:
  "fresh_cases Q hk b addr ps cs w = (Inr ts, w') \<Longrightarrow> t \<in> set ts \<Longrightarrow> ft_batch_mode t = Some ''fresh-vm-fallback''"
proof (induction cs arbitrary: w ts)
  case (Cons c cs)
  from Cons.prems(1) obtain t' w1 ts' where f: "fresh_case Q hk b addr ps c w = (Inr t', w1)"
    and rest: "fresh_cases Q hk b addr ps cs w1 = (Inr ts', w')" and ts: "ts = t' # ts'"
    by (auto simp: bindE_Inr_iff split: prod.splits sum.splits)
  from f have "ft_batch_mode t' = Some ''fresh-vm-fallback''"
    by (auto simp: fresh_case_def bindE_Inr_iff with_mode_def split: prod.splits)
  with Cons.IH [OF rest] Cons.prems(2) ts show ?case by auto
qed simp

lemma snapshot_batch_Inr:
  "snapshot_batch outs = Inr () \<longleftrightarrow> outs \<noteq> [] \<and> list_all (\<lambda>t. ft_batch_mode t = Some ''batched-snapshot'') outs"
  by (simp add: snapshot_batch_def)

lemma snapshot_batch_run:
  assumes "batch_call_original Q T no_hooks b addr ps cs w = (Inr outs, w')" and "snapshot_batch outs = Inr ()"
  obtains vm vm1 where "fst (boot_vm Q b w) = Inr vm" "snapshot_cases Q no_hooks (q_save Q vm) addr ps cs vm = Inr (outs, vm1)"
    "fn_has_syscall T b addr = Inr (Some False)" "length ps \<le> length BAREGS"
proof -
  from assms have g: "guard_arity ps = Inr ()" "cs \<noteq> []"
    by (auto simp: batch_call_original_def snapshot_batch_Inr split: sum.splits if_splits)
  then obtain answer where a: "fn_has_syscall T b addr = Inr answer"
    using assms(1) by (auto simp: batch_call_original_def split: sum.splits)
  have "answer = Some False"
  proof (rule ccontr)
    assume "answer \<noteq> Some False"
    with g a assms(1) have "fresh_cases Q no_hooks b addr ps cs w = (Inr outs, w')" by (simp add: batch_call_original_def)
    from fresh_cases_mode [OF this] assms(2) show False by (cases outs) (auto simp: snapshot_batch_Inr)
  qed
  moreover from this g a assms(1) obtain vm vm1 where "fst (boot_vm Q b w) = Inr vm"
    "snapshot_cases Q no_hooks (q_save Q vm) addr ps cs vm = Inr (outs, vm1)"
    by (auto simp: batch_call_original_def bindE_Inr_iff split: prod.splits)
  moreover from g(1) have "length ps \<le> length BAREGS" by (auto simp: guard_arity_def split: if_splits)
  ultimately show thesis using that a by blast
qed

lemma batch_stats_run:
  assumes laws: "congruent Q same" "snapshot_laws Q addr same line" "blocks_alike blk same"
    and "fst (boot_vm Q b w) = Inr vm" and "snapshot_cases Q no_hooks (q_save Q vm) addr ps cs vm = Inr (outs, vm1)"
  shows "batch_stats Q blk b addr ps cs w = Inr (hits_of Q blk addr ps cs vm, card (bins_of Q blk addr ps cs vm))"
proof -
  let ?h = "fresh_recorder\<lparr>hs_prev := 0, hs_error := False\<rparr>"
  have ne: "\<not> hs_error ?h" by simp
  from snapshot_cases_hooked(2) [OF ne assms(5)] obtain h' where
    h': "snapshot_cases (hooked Q blk) scope (q_save Q vm) addr ps cs (vm, ?h) = Inr (outs, (vm1, h'))" by blast
  from snapshot_cases_stats [OF laws snapshot_lawsD(1) [OF laws(2)] ne h'] h' assms(4) show ?thesis
    by (simp add: batch_stats_def boot_hooked fresh_recorder_def)
qed

text \<open>
  C38: the gates of the spike hold.  Where boots are indistinguishable, the snapshot covers what the
  function changes and the emulator reports the same blocks for VMs no operation tells apart, a plain
  batch that takes the snapshot route is followed by three equal batches and two equal coverage
  counts: every block of every case is one hit, and the occupied bins are those of the cases taken
  one by one, so no edge crosses from one case to the next and the order of the cases is immaterial.
\<close>

theorem spike_gates_hold:
  assumes laws: "congruent Q same" "snapshot_laws Q addr same line" "blocks_alike blk same" "boots_alike Q b same"
    and plain: "timed Q T blk False b addr ps cs w = (Inr (outs, None), w1)"
  shows "\<exists>vm w4. fst (boot_vm Q b w) = Inr vm \<and> trials Q T blk b addr ps cs w
    = (Inr (Some (hits_of Q blk addr ps cs vm, card (bins_of Q blk addr ps cs vm))), w4)"
proof -
  from plain have b1: "batch_call_original Q T no_hooks b addr ps cs w = (Inr outs, w1)" and sb: "snapshot_batch outs = Inr ()"
    by (auto simp: timed_def bindE_Inr_iff split: prod.splits)
  from snapshot_batch_run [OF b1 sb] obtain vm where vm: "fst (boot_vm Q b w) = Inr vm"
    and sy: "fn_has_syscall T b addr = Inr (Some False)" and ar: "length ps \<le> length BAREGS" by blast
  have again: "fst (batch_call_original Q T no_hooks b addr ps cs u) = Inr outs" for u
    using batch_fresh [OF laws(1,2,4) ar sy, of cs u w] batch_fresh [OF laws(1,2,4) ar sy, of cs w w] b1 by simp
  let ?st = "(hits_of Q blk addr ps cs vm, card (bins_of Q blk addr ps cs vm))"
  have stats: "batch_stats Q blk b addr ps cs u = Inr ?st" for u
  proof -
    obtain u' where "batch_call_original Q T no_hooks b addr ps cs u = (Inr outs, u')"
      using again [of u] by (cases "batch_call_original Q T no_hooks b addr ps cs u") simp
    from snapshot_batch_run [OF this sb] obtain v v1 where v: "fst (boot_vm Q b u) = Inr v"
      "snapshot_cases Q no_hooks (q_save Q v) addr ps cs v = Inr (outs, v1)" by blast
    have "rel_sum (=) same (fst (boot_vm Q b u)) (fst (boot_vm Q b w))" using laws(4) by (simp add: boots_alike_def)
    with v(1) vm have "same v vm" by simp
    then have "hits_of Q blk addr ps cs v = hits_of Q blk addr ps cs vm" "bins_of Q blk addr ps cs v = bins_of Q blk addr ps cs vm"
      using case_blocks_alike [OF laws(1,3)] by (simp_all add: hits_of_def bins_of_def)
    with batch_stats_run [OF laws(1-3) v] show ?thesis by simp
  qed
  have p: "timed Q T blk False b addr ps cs u = (Inr (outs, None), snd (batch_call_original Q T no_hooks b addr ps cs u))" for u
    using again [of u] sb by (simp add: timed_def case_prod_beta)
  have h: "timed Q T blk True b addr ps cs u = (Inr (outs, Some ?st), snd (batch_call_original Q T no_hooks b addr ps cs u))" for u
    using again [of u] sb stats [of u] by (simp add: timed_def case_prod_beta batch_hooked)
  show ?thesis using vm by (simp add: trials_def p h agree_all_def same_stats_def)
qed

section \<open>A concrete measurement\<close>

definition spike_machine :: "(flat_vm, flat_vm, unit) qiling" where
  "spike_machine = flat_machine 4096 (\<lambda>vm. (None, vm\<lparr>fv_regs := (fv_regs vm)(''rip'' := SENTINEL)\<rparr>))"

definition spike_tools :: tools where
  "spike_tools = \<lparr>elf_of = (\<lambda>_. \<lparr>text_addr = 4096, text_data = replicate 8 (CHR 0x90),
      elf_symbols = Some [\<lparr>sym_name = ''f'', sym_value = 4096, sym_size = 4, sym_type = ''STT_FUNC''\<rparr>]\<rparr>),
    disasm = (\<lambda>_ a. [\<lparr>in_address = a, in_mnemonic = ''ret'', in_op_str = [], in_operands = [],
      in_jump = False, in_ret = True\<rparr>])\<rparr>"

definition spike_blocks :: "flat_vm block_run" where "spike_blocks a s n vm = [4096, 4100]"

definition spike_cases :: "case_in list" where
  "spike_cases = [[(''lo'', VInt 1), (''hi'', VInt 10)], [(''lo'', VInt 2), (''hi'', VInt 11)]]"

lemma spike_plain: "\<exists>outs. timed spike_machine spike_tools spike_blocks False [] 4096 spike_params spike_cases () = (Inr (outs, None), ())"
proof -
  have "\<exists>t1 t2. batch_call_original spike_machine spike_tools no_hooks [] 4096 spike_params spike_cases ()
      = (Inr [with_mode ''batched-snapshot'' t1, with_mode ''batched-snapshot'' t2], ())"
    by (simp add: batch_call_original_def guard_arity_def BAREGS_def spike_cases_def spike_params_def fn_has_syscall_def
        symtab_def function_insns_def spike_tools_def boot_vm_def spike_machine_def flat_machine_def run_case_def
        enter_case_def dict_get_def marshal_def set_regs_def finish_case_def Let_def SYSCALL_MNEMONICS_def fv_write_def
        List.map_filter_simps) blast
  then show ?thesis by (auto simp: timed_def snapshot_batch_def with_mode_def)
qed

theorem spike_gates_hold_witness:
  "\<exists>w4. trials spike_machine spike_tools spike_blocks [] 4096 spike_params spike_cases () = (Inr (Some (4, 2)), w4)"
proof -
  obtain outs where p: "timed spike_machine spike_tools spike_blocks False [] 4096 spike_params spike_cases () = (Inr (outs, None), ())"
    using spike_plain by blast
  have laws: "congruent spike_machine (=)" "snapshot_laws spike_machine 4096 (=) (\<lambda>_ _. True)" "boots_alike spike_machine [] (=)"
    unfolding spike_machine_def by (rule flat_congruent flat_snapshot flat_boots)+
  have bl: "blocks_alike spike_blocks (=)" by (simp add: blocks_alike_def)
  from spike_gates_hold [OF laws(1,2) bl laws(3) p] obtain vm w4 where t: "trials spike_machine spike_tools spike_blocks [] 4096 spike_params spike_cases ()
      = (Inr (Some (hits_of spike_machine spike_blocks 4096 spike_params spike_cases vm,
           card (bins_of spike_machine spike_blocks 4096 spike_params spike_cases vm))), w4)"
    by blast
  have "case_blocks spike_machine spike_blocks 4096 spike_params c vm = [4096, 4100]" if "c \<in> set spike_cases" for c
    using that by (auto simp: case_blocks_def spike_blocks_def enter_case_def spike_cases_def spike_params_def dict_get_def
        marshal_def spike_machine_def flat_machine_def)
  then have "hits_of spike_machine spike_blocks 4096 spike_params spike_cases vm = 4"
    "bins_of spike_machine spike_blocks 4096 spike_params spike_cases vm = edges 0 [4096, 4100]"
    by (simp_all add: hits_of_def bins_of_def spike_cases_def)
  moreover have "card (edges 0 [4096, 4100]) = 2" by (simp add: edge_index_def MASK_def)
  ultimately show ?thesis using t by simp
qed

end
